theory Spec2Isabelle
  imports Main "HOL-Library.Word"
begin

section \<open>JavaScript values\<close>

text \<open>
  A JavaScript string is a sequence of 16-bit code units; a \<open>Uint8Array\<close> is a sequence of
  bytes. String constants of the source are written through \<open>js\<close>, which maps an ASCII
  literal to its code units.
\<close>

type_synonym byte = "8 word"
type_synonym jsstring = "16 word list"

definition js :: "string \<Rightarrow> jsstring" where
  "js s = map (\<lambda>c. of_nat (of_char c)) s"

text \<open>Truthiness of a \<open>string | null\<close> value: \<open>null\<close> and the empty string are falsy.\<close>

definition truthy :: "jsstring option \<Rightarrow> bool" where
  "truthy v = (case v of None \<Rightarrow> False | Some s \<Rightarrow> s \<noteq> [])"

text \<open>
  Exceptions are values. A computation that may throw has type \<open>js_error + 'a\<close>, and
  \<open>try_catch\<close> is the \<open>try { ... } catch { ... }\<close> statement: the handler runs on any
  exception of the body.
\<close>

datatype js_error = NetworkFailure | TypeError | SyntaxError | OperationError | InvalidCharacterError

definition try_catch :: "js_error + 'a \<Rightarrow> (js_error \<Rightarrow> js_error + 'a) \<Rightarrow> js_error + 'a" where
  "try_catch body handler = (case body of Inl e \<Rightarrow> handler e | Inr v \<Rightarrow> Inr v)"

section \<open>The platform's text codec\<close>

text \<open>
  \<open>new TextEncoder().encode(s)\<close> converts the code units of \<open>s\<close> to scalar values (a
  surrogate pair is one supplementary code point, an unpaired surrogate becomes U+FFFD)
  and writes each in UTF-8. \<open>new TextDecoder().decode(bytes)\<close> is the UTF-8 decoder of the
  Encoding Standard: it keeps the number of continuation bytes still needed, the code
  point built so far and the bounds of the next byte; a byte outside the bounds yields
  U+FFFD and is read again as a first byte. With the default \<open>ignoreBOM: false\<close> a leading
  U+FEFF is dropped from the output. Code units and bytes are handled as numbers and
  converted at the boundary.
\<close>

definition is_high :: "nat \<Rightarrow> bool" where
  "is_high u = (0xD800 \<le> u \<and> u \<le> 0xDBFF)"

definition is_low :: "nat \<Rightarrow> bool" where
  "is_low u = (0xDC00 \<le> u \<and> u \<le> 0xDFFF)"

fun scalars :: "nat list \<Rightarrow> nat list" where
  "scalars [] = []"
| "scalars [u] = [if is_high u \<or> is_low u then 0xFFFD else u]"
| "scalars (u # v # us) =
     (if is_high u \<and> is_low v
      then (0x10000 + (u - 0xD800) * 0x400 + (v - 0xDC00)) # scalars us
      else (if is_high u \<or> is_low u then 0xFFFD else u) # scalars (v # us))"

definition utf8_bytes :: "nat \<Rightarrow> nat list" where
  "utf8_bytes c =
     (if c < 0x80 then [c]
      else if c < 0x800 then [0xC0 + c div 64, 0x80 + c mod 64]
      else if c < 0x10000 then [0xE0 + c div 4096, 0x80 + (c div 64) mod 64, 0x80 + c mod 64]
      else [0xF0 + c div 262144, 0x80 + (c div 4096) mod 64, 0x80 + (c div 64) mod 64,
            0x80 + c mod 64])"

definition TextEncoder_encode :: "jsstring \<Rightarrow> byte list" where
  "TextEncoder_encode s = map of_nat (concat (map utf8_bytes (scalars (map unat s))))"

function utf8_decode :: "nat \<Rightarrow> nat \<Rightarrow> nat \<Rightarrow> nat \<Rightarrow> nat list \<Rightarrow> nat list" where
  "utf8_decode need cp lo hi [] = (if need = 0 then [] else [0xFFFD])"
| "utf8_decode need cp lo hi (b # bs) =
     (if need = 0 then
        (if b \<le> 0x7F then b # utf8_decode 0 0 0x80 0xBF bs
         else if 0xC2 \<le> b \<and> b \<le> 0xDF then utf8_decode 1 (b mod 32) 0x80 0xBF bs
         else if 0xE0 \<le> b \<and> b \<le> 0xEF then
           utf8_decode 2 (b mod 16) (if b = 0xE0 then 0xA0 else 0x80)
             (if b = 0xED then 0x9F else 0xBF) bs
         else if 0xF0 \<le> b \<and> b \<le> 0xF4 then
           utf8_decode 3 (b mod 8) (if b = 0xF0 then 0x90 else 0x80)
             (if b = 0xF4 then 0x8F else 0xBF) bs
         else 0xFFFD # utf8_decode 0 0 0x80 0xBF bs)
      else if b < lo \<or> hi < b then 0xFFFD # utf8_decode 0 0 0x80 0xBF (b # bs)
      else if need = 1 then (cp * 64 + b mod 64) # utf8_decode 0 0 0x80 0xBF bs
      else utf8_decode (need - 1) (cp * 64 + b mod 64) 0x80 0xBF bs)"
  by pat_completeness auto
termination
  by (relation "measure (\<lambda>(need, cp, lo, hi, bs). 2 * length bs + (if need = 0 then 0 else 1))")
    auto

definition utf16_units :: "nat \<Rightarrow> nat list" where
  "utf16_units c =
     (if c < 0x10000 then [c]
      else [0xD800 + (c - 0x10000) div 0x400, 0xDC00 + (c - 0x10000) mod 0x400])"

definition strip_BOM :: "nat list \<Rightarrow> nat list" where
  "strip_BOM cs = (case cs of [] \<Rightarrow> [] | c # rest \<Rightarrow> if c = 0xFEFF then rest else cs)"

definition TextDecoder_decode :: "byte list \<Rightarrow> jsstring" where
  "TextDecoder_decode bs =
     map of_nat (concat (map utf16_units (strip_BOM (utf8_decode 0 0 0x80 0xBF (map unat bs)))))"

text \<open>
  A string is \<open>well_formed\<close> when every surrogate is half of a pair, and \<open>text_safe\<close> when
  it is well formed and does not begin with U+FEFF; \<open>valid_scalar\<close> are the Unicode scalar
  values.
\<close>

fun well_formed :: "nat list \<Rightarrow> bool" where
  "well_formed [] = True"
| "well_formed [u] = (\<not> is_high u \<and> \<not> is_low u)"
| "well_formed (u # v # us) =
     (if is_high u then is_low v \<and> well_formed us
      else \<not> is_low u \<and> well_formed (v # us))"


definition valid_scalar :: "nat \<Rightarrow> bool" where
  "valid_scalar c = (c < 0x110000 \<and> \<not> (0xD800 \<le> c \<and> c \<le> 0xDFFF))"

definition text_safe :: "jsstring \<Rightarrow> bool" where
  "text_safe t = (well_formed (map unat t) \<and> (t = [] \<or> hd t \<noteq> 0xFEFF))"

section \<open>The platform's base64 functions\<close>

text \<open>
  \<open>btoa\<close> encodes a binary string (code units up to 255, else it throws) in base64 with
  padding. \<open>atob\<close> is the forgiving decoder: it removes ASCII whitespace, removes one or
  two trailing \<open>=\<close> when the length is a multiple of four, throws when the length is then
  1 modulo 4 or a character is outside the alphabet, and drops the bits left over in the
  last group.
\<close>

definition b64_char :: "nat \<Rightarrow> 16 word" where
  "b64_char i = of_nat (if i < 26 then 65 + i else if i < 52 then 71 + i
     else if i < 62 then i - 4 else if i = 62 then 43 else 47)"

definition b64_index :: "16 word \<Rightarrow> nat option" where
  "b64_index c = (let n = unat c in
     if 65 \<le> n \<and> n \<le> 90 then Some (n - 65)
     else if 97 \<le> n \<and> n \<le> 122 then Some (n - 71)
     else if 48 \<le> n \<and> n \<le> 57 then Some (n + 4)
     else if n = 43 then Some 62
     else if n = 47 then Some 63
     else None)"

fun sextets :: "nat list \<Rightarrow> nat list" where
  "sextets (a # b # c # rest) =
     [a div 4, (a mod 4) * 16 + b div 16, (b mod 16) * 4 + c div 64, c mod 64] @ sextets rest"
| "sextets [a, b] = [a div 4, (a mod 4) * 16 + b div 16, (b mod 16) * 4]"
| "sextets [a] = [a div 4, (a mod 4) * 16]"
| "sextets [] = []"

definition btoa :: "jsstring \<Rightarrow> js_error + jsstring" where
  "btoa data =
     (if \<exists>c \<in> set data. 255 < unat c then Inl InvalidCharacterError
      else Inr (map b64_char (sextets (map unat data))
                @ replicate ((3 - length data mod 3) mod 3) 61))"

definition ascii_whitespace :: "16 word \<Rightarrow> bool" where
  "ascii_whitespace c = (c = 9 \<or> c = 10 \<or> c = 12 \<or> c = 13 \<or> c = 32)"

definition strip_padding :: "jsstring \<Rightarrow> jsstring" where
  "strip_padding d =
     (if length d mod 4 = 0 \<and> d \<noteq> [] \<and> last d = 61
      then (if butlast d \<noteq> [] \<and> last (butlast d) = 61 then butlast (butlast d) else butlast d)
      else d)"

fun octets :: "nat list \<Rightarrow> nat list" where
  "octets (a # b # c # d # rest) =
     [a * 4 + b div 16, (b mod 16) * 16 + c div 4, (c mod 4) * 64 + d] @ octets rest"
| "octets [a, b, c] = [a * 4 + b div 16, (b mod 16) * 16 + c div 4]"
| "octets [a, b] = [a * 4 + b div 16]"
| "octets [a] = []"
| "octets [] = []"

definition atob :: "jsstring \<Rightarrow> js_error + jsstring" where
  "atob data =
     (let d = strip_padding (filter (\<lambda>c. \<not> ascii_whitespace c) data) in
      if length d mod 4 = 1 then Inl InvalidCharacterError
      else if \<exists>c \<in> set d. b64_index c = None then Inl InvalidCharacterError
      else Inr (map of_nat (octets (map (\<lambda>c. the (b64_index c)) d))))"

section \<open>lib/crypto.ts\<close>

definition arrayBufferToBase64 :: "byte list \<Rightarrow> js_error + jsstring" where
  "arrayBufferToBase64 buf = btoa (map ucast buf)"

definition base64ToUint8Array :: "jsstring \<Rightarrow> js_error + byte list" where
  "base64ToUint8Array base64 =
     (case atob base64 of Inl e \<Rightarrow> Inl e | Inr binary \<Rightarrow> Inr (map ucast binary))"


text \<open>
  The Web Crypto primitives are parameters: \<open>PBKDF2\<close> is \<open>importKey\<close> followed by
  \<open>deriveKey\<close> (password bytes, salt, iteration count, giving a 256-bit AES-GCM key),
  \<open>AES_GCM_encrypt\<close> and \<open>AES_GCM_decrypt\<close> take the key, the nonce and the data;
  decryption yields \<open>None\<close> when the tag does not verify (the OperationError of
  \<open>crypto.subtle.decrypt\<close>).
\<close>

record 'k subtle =
  PBKDF2 :: "byte list \<Rightarrow> byte list \<Rightarrow> nat \<Rightarrow> 'k"
  AES_GCM_encrypt :: "'k \<Rightarrow> byte list \<Rightarrow> byte list \<Rightarrow> byte list"
  AES_GCM_decrypt :: "'k \<Rightarrow> byte list \<Rightarrow> byte list \<Rightarrow> byte list option"

definition ITERATIONS :: nat where
  "ITERATIONS = 100000"

definition VERIFY_PHRASE :: jsstring where
  "VERIFY_PHRASE = js ''PROMPTVAULT_V1_OK''"

definition deriveKey :: "'k subtle \<Rightarrow> jsstring \<Rightarrow> byte list \<Rightarrow> 'k" where
  "deriveKey S pin salt = PBKDF2 S (TextEncoder_encode pin) salt ITERATIONS"

text \<open>
  \<open>target.set(source, offset)\<close> where the source fits, and \<open>xs.slice(start, end)\<close>,
  which stops at the end of a shorter array.
\<close>

definition set_at :: "byte list \<Rightarrow> byte list \<Rightarrow> nat \<Rightarrow> byte list" where
  "set_at target source offset =
     take offset target @ source @ drop (offset + length source) target"

definition slice :: "'a list \<Rightarrow> nat \<Rightarrow> nat \<Rightarrow> 'a list" where
  "slice xs start end' = take (end' - start) (drop start xs)"

text \<open>
  The two calls of \<open>crypto.getRandomValues\<close> in \<open>encrypt\<close> are the arguments \<open>salt\<close>
  (16 bytes) and \<open>iv\<close> (12 bytes).
\<close>

definition encrypt ::
  "'k subtle \<Rightarrow> byte list \<Rightarrow> byte list \<Rightarrow> jsstring \<Rightarrow> jsstring \<Rightarrow> js_error + jsstring" where
  "encrypt S salt iv plaintext pin =
     (let key = deriveKey S pin salt;
          encBytes = AES_GCM_encrypt S key iv (TextEncoder_encode plaintext);
          combined0 = replicate (length salt + length iv + length encBytes) 0;
          combined1 = set_at combined0 salt 0;
          combined2 = set_at combined1 iv (length salt);
          combined = set_at combined2 encBytes (length salt + length iv)
      in arrayBufferToBase64 combined)"

definition decrypt :: "'k subtle \<Rightarrow> jsstring \<Rightarrow> jsstring \<Rightarrow> js_error + jsstring" where
  "decrypt S encryptedBase64 pin =
     (case base64ToUint8Array encryptedBase64 of
        Inl e \<Rightarrow> Inl e
      | Inr combined \<Rightarrow>
          (let salt = slice combined 0 16;
               iv = slice combined 16 28;
               data = drop 28 combined;
               key = deriveKey S pin salt
           in case AES_GCM_decrypt S key iv data of
                None \<Rightarrow> Inl OperationError
              | Some decrypted \<Rightarrow> Inr (TextDecoder_decode decrypted)))"

definition createPinVerifier ::
  "'k subtle \<Rightarrow> byte list \<Rightarrow> byte list \<Rightarrow> jsstring \<Rightarrow> js_error + jsstring" where
  "createPinVerifier S salt iv pin = encrypt S salt iv VERIFY_PHRASE pin"

definition verifyPin :: "'k subtle \<Rightarrow> jsstring \<Rightarrow> jsstring \<Rightarrow> js_error + bool" where
  "verifyPin S pin verifier =
     try_catch
       (case decrypt S verifier pin of
          Inl e \<Rightarrow> Inl e
        | Inr result \<Rightarrow> Inr (result = VERIFY_PHRASE))
       (\<lambda>_. Inr False)"

text \<open>
  The expressions \<open>decrypt(encrypt(t, p), p)\<close> and \<open>verifyPin(q, createPinVerifier(p))\<close>:
  the second call runs on the value of the first, and an exception of the first is the
  exception of the whole.
\<close>

definition and_then :: "js_error + 'a \<Rightarrow> ('a \<Rightarrow> js_error + 'b) \<Rightarrow> js_error + 'b" where
  "and_then r f = (case r of Inl e \<Rightarrow> Inl e | Inr v \<Rightarrow> f v)"

definition decrypt_encrypt ::
  "'k subtle \<Rightarrow> byte list \<Rightarrow> byte list \<Rightarrow> jsstring \<Rightarrow> jsstring \<Rightarrow> jsstring \<Rightarrow> js_error + jsstring" where
  "decrypt_encrypt S salt iv t p q = and_then (encrypt S salt iv t p) (\<lambda>env. decrypt S env q)"

definition verify_created ::
  "'k subtle \<Rightarrow> byte list \<Rightarrow> byte list \<Rightarrow> jsstring \<Rightarrow> jsstring \<Rightarrow> js_error + bool" where
  "verify_created S salt iv p q =
     and_then (createPinVerifier S salt iv p) (\<lambda>verifier. verifyPin S q verifier)"

text \<open>
  What is assumed of AES-GCM: decryption under the key and nonce of the encryption
  returns the plaintext.
\<close>

definition aead_correct :: "'k subtle \<Rightarrow> bool" where
  "aead_correct S =
     (\<forall>key iv m. AES_GCM_decrypt S key iv (AES_GCM_encrypt S key iv m) = Some m)"

text \<open>
  A small instance of the primitives for concrete runs: the key is the password followed
  by the salt, and a ciphertext is the plaintext behind a frame that names the key (its
  length in unary, a zero, the key).
\<close>

definition toy_seal :: "byte list \<Rightarrow> byte list" where
  "toy_seal key = replicate (length key) 1 @ [0] @ key"

definition toy_subtle :: "byte list subtle" where
  "toy_subtle = \<lparr>
     PBKDF2 = (\<lambda>password salt iterations. password @ salt),
     AES_GCM_encrypt = (\<lambda>key iv m. toy_seal key @ m),
     AES_GCM_decrypt = (\<lambda>key iv c.
        if take (length (toy_seal key)) c = toy_seal key
        then Some (drop (length (toy_seal key)) c) else None)\<rparr>"

definition salt0 :: "byte list" where
  "salt0 = [1, 2, 3, 4, 5, 6, 7, 8, 9, 10, 11, 12, 13, 14, 15, 16]"

definition iv0 :: "byte list" where
  "iv0 = [21, 22, 23, 24, 25, 26, 27, 28, 29, 30, 31, 32]"

section \<open>types.ts\<close>

record 'p VaultData =
  prompts :: "'p list"
  version :: nat
  lastSync :: nat

datatype SyncStatus = idle | syncing | synced | error | offline

section \<open>lib/gist.ts: the remote store\<close>

text \<open>
  The transport is the platform's \<open>fetch\<close>. One call either rejects (network failure, or a
  header value \<open>fetch\<close> refuses) or resolves to a response with a status and a body;
  \<open>res.json()\<close> rejects when the body is not JSON, and may yield \<open>null\<close>, on which any
  property access throws a TypeError. Otherwise the body has the shape the source
  declares for that endpoint (\<open>GistResponse\<close>, \<open>GistResponse[]\<close>, the user object).
  The record \<open>github\<close> gives the outcome of each request the module can send.
\<close>

datatype 'a json_body = JsonReject | JsonNull | JsonValue 'a

datatype 'a fetch_result = FetchRejects | Response nat "'a json_body"

definition ok :: "nat \<Rightarrow> bool" where
  "ok status = (200 \<le> status \<and> status \<le> 299)"

record GistFile =
  filename :: jsstring
  content :: jsstring

record GistResponse =
  id' :: jsstring
  files :: "jsstring \<rightharpoonup> GistFile"
  description :: jsstring
  updated_at :: jsstring

record github =
  get_user :: "jsstring \<Rightarrow> jsstring option fetch_result"
  list_gists :: "jsstring \<Rightarrow> nat \<Rightarrow> GistResponse list fetch_result"
  get_gist :: "jsstring \<Rightarrow> jsstring \<Rightarrow> GistResponse fetch_result"
  patch_gist :: "jsstring \<Rightarrow> jsstring \<Rightarrow> jsstring \<Rightarrow> unit fetch_result"
  post_gists :: "jsstring \<Rightarrow> jsstring \<Rightarrow> GistResponse fetch_result"
  delete_gist :: "jsstring \<Rightarrow> jsstring \<Rightarrow> unit fetch_result"

definition GIST_FILENAME :: jsstring where
  "GIST_FILENAME = js ''promptvault_data.json''"

text \<open>\<open>res.json()\<close> followed by the first property access on the result.\<close>

definition json_of :: "'a json_body \<Rightarrow> js_error + 'a" where
  "json_of b = (case b of JsonReject \<Rightarrow> Inl SyntaxError | JsonNull \<Rightarrow> Inl TypeError
     | JsonValue v \<Rightarrow> Inr v)"

record validation =
  valid :: bool
  username :: "jsstring option"

definition validateToken :: "github \<Rightarrow> jsstring \<Rightarrow> js_error + validation" where
  "validateToken gh token =
     try_catch
       (case get_user gh token of
          FetchRejects \<Rightarrow> Inl NetworkFailure
        | Response status body \<Rightarrow>
            if \<not> ok status then Inr \<lparr>valid = False, username = None\<rparr>
            else (case json_of body of
                    Inl e \<Rightarrow> Inl e
                  | Inr login \<Rightarrow> Inr \<lparr>valid = True, username = login\<rparr>))
       (\<lambda>_. Inr \<lparr>valid = False, username = None\<rparr>)"

text \<open>The loop \<open>for (let page = 1; page <= 3; page++)\<close> of \<open>findVaultGist\<close>.\<close>

function findVaultGist_pages :: "github \<Rightarrow> jsstring \<Rightarrow> nat \<Rightarrow> js_error + jsstring option" where
  "findVaultGist_pages gh token page =
     (if page \<le> 3 then
        (case list_gists gh token page of
           FetchRejects \<Rightarrow> Inl NetworkFailure
         | Response status body \<Rightarrow>
             if \<not> ok status then Inr None
             else (case json_of body of
                     Inl e \<Rightarrow> Inl e
                   | Inr gists \<Rightarrow>
                       if length gists = 0 then Inr None
                       else (case find (\<lambda>g. files g GIST_FILENAME \<noteq> None) gists of
                               Some found \<Rightarrow> Inr (Some (id' found))
                             | None \<Rightarrow> findVaultGist_pages gh token (page + 1))))
      else Inr None)"
  by pat_completeness auto
termination
  by (relation "measure (\<lambda>(gh, token, page). 4 - page)") auto

definition findVaultGist :: "github \<Rightarrow> jsstring \<Rightarrow> js_error + jsstring option" where
  "findVaultGist gh token = try_catch (findVaultGist_pages gh token 1) (\<lambda>_. Inr None)"

text \<open>
  \<open>JSON.parse\<close> at the type the source casts its result to: \<open>None\<close> is the SyntaxError it
  throws on a malformed document.
\<close>

definition loadFromGist ::
  "github \<Rightarrow> (jsstring \<Rightarrow> 'd option) \<Rightarrow> jsstring \<Rightarrow> jsstring \<Rightarrow> js_error + 'd option" where
  "loadFromGist gh JSON_parse token gistId =
     try_catch
       (case get_gist gh token gistId of
          FetchRejects \<Rightarrow> Inl NetworkFailure
        | Response status body \<Rightarrow>
            if \<not> ok status then Inr None
            else (case json_of body of
                    Inl e \<Rightarrow> Inl e
                  | Inr gist \<Rightarrow>
                      (case files gist GIST_FILENAME of
                         None \<Rightarrow> Inr None
                       | Some file \<Rightarrow>
                           (case JSON_parse (content file) of
                              None \<Rightarrow> Inl SyntaxError
                            | Some d \<Rightarrow> Inr (Some d)))))
       (\<lambda>_. Inr None)"

text \<open>
  \<open>saveToGist\<close> builds the request body before its \<open>try\<close> (lines 83-91):
  \<open>JSON.stringify(data, null, 2)\<close> returns the text of the dataset or throws (a TypeError on
  a value it refuses, such as a BigInt), and what it throws is thrown by \<open>saveToGist\<close>. The
  oracle receives the file content that is sent.
\<close>

definition saveToGist ::
  "github \<Rightarrow> ('d \<Rightarrow> js_error + jsstring) \<Rightarrow> jsstring \<Rightarrow> jsstring option \<Rightarrow> 'd
     \<Rightarrow> js_error + jsstring option" where
  "saveToGist gh JSON_stringify2 token gistId data =
     (case JSON_stringify2 data of
        Inl e \<Rightarrow> Inl e
      | Inr body \<Rightarrow>
          try_catch
            (if truthy gistId then
               (case patch_gist gh token (the gistId) body of
                  FetchRejects \<Rightarrow> Inl NetworkFailure
                | Response status _ \<Rightarrow> if \<not> ok status then Inr None else Inr gistId)
             else
               (case post_gists gh token body of
                  FetchRejects \<Rightarrow> Inl NetworkFailure
                | Response status b \<Rightarrow>
                    if \<not> ok status then Inr None
                    else (case json_of b of
                            Inl e \<Rightarrow> Inl e
                          | Inr gist \<Rightarrow> Inr (Some (id' gist)))))
            (\<lambda>_. Inr None))"

definition deleteGist :: "github \<Rightarrow> jsstring \<Rightarrow> jsstring \<Rightarrow> js_error + bool" where
  "deleteGist gh token gistId =
     try_catch
       (case delete_gist gh token gistId of
          FetchRejects \<Rightarrow> Inl NetworkFailure
        | Response status _ \<Rightarrow> Inr (ok status \<or> status = 204))
       (\<lambda>_. Inr False)"

text \<open>
  The failure modes of a request. A request whose body is read has \<open>failed\<close> when it
  rejected, was answered with a status outside 200-299, or its body was not a JSON value
  of the endpoint; one whose body is not read was \<open>refused\<close> when it rejected or the
  status is outside 200-299.
\<close>

definition failed :: "'a fetch_result \<Rightarrow> bool" where
  "failed r = (case r of FetchRejects \<Rightarrow> True
     | Response status body \<Rightarrow> \<not> ok status \<or> (case body of JsonValue _ \<Rightarrow> False | _ \<Rightarrow> True))"

definition refused :: "'a fetch_result \<Rightarrow> bool" where
  "refused r = (case r of FetchRejects \<Rightarrow> True | Response status _ \<Rightarrow> \<not> ok status)"

text \<open>
  A page of the listing after which the loop of \<open>findVaultGist\<close> asks for the next one: it
  was answered with gists, none of which holds the vault file. A gist that was delivered
  by its request.
\<close>

definition no_vault_on :: "GistResponse list fetch_result \<Rightarrow> bool" where
  "no_vault_on r =
     (case r of
        Response status (JsonValue gists) \<Rightarrow>
          ok status \<and> gists \<noteq> [] \<and> find (\<lambda>g. files g GIST_FILENAME \<noteq> None) gists = None
      | _ \<Rightarrow> False)"

definition delivered :: "GistResponse fetch_result \<Rightarrow> GistResponse option" where
  "delivered r =
     (case r of
        Response status (JsonValue gist) \<Rightarrow> if ok status then Some gist else None
      | _ \<Rightarrow> None)"

text \<open>A remote account that cannot be reached: every request rejects.\<close>

definition github_down :: github where
  "github_down = \<lparr>get_user = (\<lambda>_. FetchRejects), list_gists = (\<lambda>_ _. FetchRejects),
     get_gist = (\<lambda>_ _. FetchRejects), patch_gist = (\<lambda>_ _ _. FetchRejects),
     post_gists = (\<lambda>_ _. FetchRejects), delete_gist = (\<lambda>_ _. FetchRejects)\<rparr>"

section \<open>The application: state of MainApp\<close>

text \<open>
  The component's React state and refs, the browser's \<open>localStorage\<close> and pending
  timeouts, and the clock. Three further fields observe a run: \<open>awaits\<close> counts the
  \<open>await\<close>s completed so far, \<open>teardown\<close> is the await during which the component is
  unmounted (\<open>None\<close>: it stays mounted; \<open>Some 0\<close>: it is unmounted before the run), and
  \<open>stale_writes\<close> lists, by source line, each write that is performed after the
  unmount; \<open>upserts\<close> lists the calls of \<open>saveToGist\<close>.
\<close>

datatype target = TokenRef | Prompts | DataLoaded | Status | Message | Storage jsstring

record 'p app =
  prompts' :: "'p list"
  dataLoaded :: bool
  syncStatus :: SyncStatus
  syncMessage :: jsstring
  showImportExport :: bool
  tokenRef :: "jsstring option"
  saveTimeoutRef :: "nat option"
  localStorage :: "jsstring \<rightharpoonup> jsstring"
  timers :: "(nat \<times> nat \<times> 'p list) list"
  next_timer :: nat
  clock :: nat
  awaits :: nat
  teardown :: "nat option"
  stale_writes :: "(nat \<times> target) list"
  upserts :: "(jsstring \<times> jsstring option \<times> 'p VaultData) list"

definition LS_ENCRYPTED_TOKEN :: jsstring where
  "LS_ENCRYPTED_TOKEN = js ''pv_encrypted_token''"

definition LS_ENCRYPTED_CACHE :: jsstring where
  "LS_ENCRYPTED_CACHE = js ''pv_encrypted_cache''"

definition LS_GIST_ID :: jsstring where
  "LS_GIST_ID = js ''pv_gist_id''"

text \<open>The messages shown with the status, as code units.\<close>

definition MSG_SYNCED :: jsstring where
  "MSG_SYNCED = [0x421, 0x438, 0x43D, 0x445, 0x440, 0x43E, 0x43D, 0x438, 0x437, 0x438, 0x440,
     0x43E, 0x432, 0x430, 0x43D, 0x43E]"

definition MSG_LOAD_ERROR :: jsstring where
  "MSG_LOAD_ERROR = [0x41E, 0x448, 0x438, 0x431, 0x43A, 0x430, 0x20, 0x437, 0x430, 0x433, 0x440,
     0x443, 0x437, 0x43A, 0x438]"

definition MSG_SAVED :: jsstring where
  "MSG_SAVED = [0x421, 0x43E, 0x445, 0x440, 0x430, 0x43D, 0x435, 0x43D, 0x43E, 0x20, 0x432, 0x20,
     0x43E, 0x431, 0x43B, 0x430, 0x43A, 0x43E]"

definition MSG_SAVE_ERROR :: jsstring where
  "MSG_SAVE_ERROR = [0x41E, 0x448, 0x438, 0x431, 0x43A, 0x430, 0x20, 0x441, 0x43E, 0x445, 0x440,
     0x430, 0x43D, 0x435, 0x43D, 0x438, 0x44F]"

text \<open>
  The collaborators of a run: the Web Crypto primitives, the two random draws of the
  run's \<open>encrypt\<close> call (no handler calls \<open>encrypt\<close> twice), \<open>JSON.parse\<close> and
  \<open>JSON.stringify\<close> at the type \<open>VaultData\<close> (compact, and with indentation 2 as
  \<open>saveToGist\<close> calls it), the remote account, and the three records \<open>getDefaultData\<close>
  builds from \<open>genId()\<close> and \<open>Date.now()\<close>. The compact \<open>JSON.stringify\<close> is a function:
  \<open>MainApp\<close> calls it on a dataset that \<open>JSON.parse\<close> returned (lines 652, 669) or that
  \<open>saveToGist\<close> has serialised before (lines 688, 732).
\<close>

record ('k, 'p) platform =
  subtle_crypto :: "'k subtle"
  random_salt :: "byte list"
  random_iv :: "byte list"
  JSON_parse :: "jsstring \<Rightarrow> 'p VaultData option"
  JSON_stringify :: "'p VaultData \<Rightarrow> jsstring"
  JSON_stringify2 :: "'p VaultData \<Rightarrow> js_error + jsstring"
  network :: github
  default_prompts :: "'p list"

definition getDefaultData :: "('k, 'p) platform \<Rightarrow> 'p VaultData" where
  "getDefaultData P = \<lparr>prompts = default_prompts P, version = 1, lastSync = 0\<rparr>"

definition encrypt' :: "('k, 'p) platform \<Rightarrow> jsstring \<Rightarrow> jsstring \<Rightarrow> js_error + jsstring" where
  "encrypt' P plaintext pin = encrypt (subtle_crypto P) (random_salt P) (random_iv P) plaintext pin"

text \<open>
  \<open>await\<close> suspends the handler; the unmount may happen meanwhile. \<open>torn_down\<close> is the
  value of the effect's \<open>cancelled\<close> flag, which the cleanup of the effect sets.
\<close>

definition await :: "'p app \<Rightarrow> 'p app" where
  "await s = s\<lparr>awaits := Suc (awaits s)\<rparr>"

definition torn_down :: "'p app \<Rightarrow> bool" where
  "torn_down s = (case teardown s of None \<Rightarrow> False | Some k \<Rightarrow> k \<le> awaits s)"

definition commit :: "nat \<Rightarrow> target \<Rightarrow> ('p app \<Rightarrow> 'p app) \<Rightarrow> 'p app \<Rightarrow> 'p app" where
  "commit line tgt write s =
     (write s)\<lparr>stale_writes := stale_writes s @ (if torn_down s then [(line, tgt)] else [])\<rparr>"

definition setPrompts :: "nat \<Rightarrow> 'p list \<Rightarrow> 'p app \<Rightarrow> 'p app" where
  "setPrompts line v = commit line Prompts (\<lambda>s. s\<lparr>prompts' := v\<rparr>)"

definition setDataLoaded :: "nat \<Rightarrow> bool \<Rightarrow> 'p app \<Rightarrow> 'p app" where
  "setDataLoaded line v = commit line DataLoaded (\<lambda>s. s\<lparr>dataLoaded := v\<rparr>)"

definition setSyncStatus :: "nat \<Rightarrow> SyncStatus \<Rightarrow> 'p app \<Rightarrow> 'p app" where
  "setSyncStatus line v = commit line Status (\<lambda>s. s\<lparr>syncStatus := v\<rparr>)"

definition setSyncMessage :: "nat \<Rightarrow> jsstring \<Rightarrow> 'p app \<Rightarrow> 'p app" where
  "setSyncMessage line v = commit line Message (\<lambda>s. s\<lparr>syncMessage := v\<rparr>)"

definition set_tokenRef :: "nat \<Rightarrow> jsstring option \<Rightarrow> 'p app \<Rightarrow> 'p app" where
  "set_tokenRef line v = commit line TokenRef (\<lambda>s. s\<lparr>tokenRef := v\<rparr>)"

definition setItem :: "nat \<Rightarrow> jsstring \<Rightarrow> jsstring \<Rightarrow> 'p app \<Rightarrow> 'p app" where
  "setItem line key v =
     commit line (Storage key) (\<lambda>s. s\<lparr>localStorage := (localStorage s)(key \<mapsto> v)\<rparr>)"

text \<open>
  Control flow of a handler body: it throws, returns early, or runs on. \<open>seq\<close> runs the
  next statement only in the last case.
\<close>

datatype 's flow = Throw 's | Return 's | Continue 's

definition seq :: "'s flow \<Rightarrow> ('s \<Rightarrow> 's flow) \<Rightarrow> 's flow" where
  "seq r f = (case r of Throw s \<Rightarrow> Throw s | Return s \<Rightarrow> Return s | Continue s \<Rightarrow> f s)"

section \<open>The application: bootstrap (the effect of MainApp)\<close>

text \<open>Lines 621-625: the stored token. A failure of \<open>decrypt\<close> is thrown to the outer catch.\<close>

definition init_token :: "('k, 'p) platform \<Rightarrow> jsstring \<Rightarrow> 'p app \<Rightarrow> 'p app flow" where
  "init_token P pin s =
     (let encToken = localStorage s LS_ENCRYPTED_TOKEN in
      if truthy encToken then
        (let s1 = await s in
         case decrypt (subtle_crypto P) (the encToken) pin of
           Inl e \<Rightarrow> Throw s1
         | Inr tok \<Rightarrow> Continue (set_tokenRef 624 (Some tok) s1))
      else Continue s)"

text \<open>Lines 628-640: the encrypted cache, inside its own \<open>try\<close> with an empty \<open>catch\<close>.\<close>

definition init_cache :: "('k, 'p) platform \<Rightarrow> jsstring \<Rightarrow> 'p app \<Rightarrow> 'p app flow" where
  "init_cache P pin s =
     (let encCache = localStorage s LS_ENCRYPTED_CACHE in
      if truthy encCache then
        (let s1 = await s in
         case decrypt (subtle_crypto P) (the encCache) pin of
           Inl e \<Rightarrow> Continue s1
         | Inr cacheJson \<Rightarrow>
             (case JSON_parse P cacheJson of
                None \<Rightarrow> Continue s1
              | Some cacheData \<Rightarrow>
                  if \<not> torn_down s1
                  then Continue (setDataLoaded 635 True (setPrompts 634 (prompts cacheData) s1))
                  else Continue s1))
      else Continue s)"

text \<open>Lines 647-659: the gist id is known.\<close>

definition init_known_gist ::
  "('k, 'p) platform \<Rightarrow> jsstring \<Rightarrow> jsstring \<Rightarrow> 'p app \<Rightarrow> 'p app flow" where
  "init_known_gist P pin gistId s =
     (let s1 = await s in
      case loadFromGist (network P) (JSON_parse P) (the (tokenRef s)) gistId of
        Inl e \<Rightarrow> Throw s1
      | Inr None \<Rightarrow> Continue s1
      | Inr (Some gistData) \<Rightarrow>
          if \<not> torn_down s1 then
            (let s2 = setPrompts 650 (prompts gistData) s1;
                 s3 = await s2 in
             case encrypt' P (JSON_stringify P gistData) pin of
               Inl e \<Rightarrow> Throw s3
             | Inr encrypted \<Rightarrow>
                 Return (setDataLoaded 656 True (setSyncMessage 655 MSG_SYNCED
                   (setSyncStatus 654 synced (setItem 653 LS_ENCRYPTED_CACHE encrypted s3)))))
          else Continue s1)"

text \<open>Lines 662-676: no gist id is stored.\<close>

definition init_find_gist :: "('k, 'p) platform \<Rightarrow> jsstring \<Rightarrow> 'p app \<Rightarrow> 'p app flow" where
  "init_find_gist P pin s =
     (let s1 = await s in
      case findVaultGist (network P) (the (tokenRef s)) of
        Inl e \<Rightarrow> Throw s1
      | Inr foundId \<Rightarrow>
          if \<not> torn_down s1 \<and> truthy foundId then
            (let s2 = setItem 665 LS_GIST_ID (the foundId) s1;
                 s3 = await s2 in
             case loadFromGist (network P) (JSON_parse P) (the (tokenRef s)) (the foundId) of
               Inl e \<Rightarrow> Throw s3
             | Inr None \<Rightarrow> Continue s3
             | Inr (Some gistData) \<Rightarrow>
                 (let s4 = setPrompts 668 (prompts gistData) s3;
                      s5 = await s4 in
                  case encrypt' P (JSON_stringify P gistData) pin of
                    Inl e \<Rightarrow> Throw s5
                  | Inr encrypted \<Rightarrow>
                      Return (setDataLoaded 672 True (setSyncStatus 671 synced
                        (setItem 670 LS_ENCRYPTED_CACHE encrypted s5)))))
          else Continue s1)"

text \<open>Lines 680-691: the defaults are shown and a gist is created for them.\<close>

definition init_defaults :: "('k, 'p) platform \<Rightarrow> jsstring \<Rightarrow> 'p app \<Rightarrow> 'p app flow" where
  "init_defaults P pin s =
     (let defaults = getDefaultData P;
          s1 = setDataLoaded 682 True (setPrompts 681 (prompts defaults) s);
          s2 = await (s1\<lparr>upserts := upserts s1 @ [(the (tokenRef s), None, defaults)]\<rparr>) in
      case saveToGist (network P) (JSON_stringify2 P) (the (tokenRef s)) None defaults of
        Inl e \<Rightarrow> Throw s2
      | Inr newGistId \<Rightarrow>
          if truthy newGistId then
            (let s3 = setItem 687 LS_GIST_ID (the newGistId) s2;
                 s4 = await s3 in
             case encrypt' P (JSON_stringify P defaults) pin of
               Inl e \<Rightarrow> Throw s4
             | Inr encrypted \<Rightarrow>
                 Continue (setSyncStatus 691 synced (setItem 689 LS_ENCRYPTED_CACHE encrypted s4)))
          else Continue (setSyncStatus 691 synced s2))"

text \<open>
  The body of \<open>init\<close>: the token, the cache, then lines 643-700 (\<open>init_sync\<close>). The
  variable \<open>dataLoaded\<close> it reads is the one of the render that created the effect,
  passed here as \<open>dataLoaded0\<close>: later calls of \<open>setDataLoaded\<close> do not change it.
\<close>

definition init_sync ::
  "('k, 'p) platform \<Rightarrow> jsstring \<Rightarrow> bool \<Rightarrow> 'p app \<Rightarrow> 'p app flow" where
  "init_sync P pin dataLoaded0 s2 =
     (if truthy (tokenRef s2) then
        (let s3 = (if \<not> torn_down s2 then setSyncStatus 644 syncing s2 else s2);
             gistId = localStorage s3 LS_GIST_ID in
         seq (if truthy gistId then init_known_gist P pin (the gistId) s3 else Continue s3) (\<lambda>s4.
         seq (if \<not> truthy gistId then init_find_gist P pin s4 else Continue s4) (\<lambda>s5.
           if \<not> torn_down s5 \<and> \<not> dataLoaded0 then init_defaults P pin s5 else Continue s5)))
      else
        (let s3 = (if \<not> torn_down s2 \<and> \<not> dataLoaded0
                   then setDataLoaded 697 True (setPrompts 696 (prompts (getDefaultData P)) s2)
                   else s2)
         in Continue (setSyncStatus 699 offline s3)))"

definition init_body ::
  "('k, 'p) platform \<Rightarrow> jsstring \<Rightarrow> bool \<Rightarrow> 'p app \<Rightarrow> 'p app flow" where
  "init_body P pin dataLoaded0 s0 =
     seq (init_token P pin s0) (\<lambda>s1.
     seq (init_cache P pin s1) (\<lambda>s2. init_sync P pin dataLoaded0 s2))"

text \<open>Lines 701-711: the outer catch.\<close>

definition init_catch :: "('k, 'p) platform \<Rightarrow> bool \<Rightarrow> 'p app \<Rightarrow> 'p app" where
  "init_catch P dataLoaded0 s =
     (if \<not> torn_down s then
        (let s1 = setSyncMessage 705 MSG_LOAD_ERROR (setSyncStatus 704 error s) in
         if \<not> dataLoaded0
         then setDataLoaded 708 True (setPrompts 707 (prompts (getDefaultData P)) s1)
         else s1)
      else s)"

definition init :: "('k, 'p) platform \<Rightarrow> jsstring \<Rightarrow> bool \<Rightarrow> 'p app \<Rightarrow> 'p app" where
  "init P pin dataLoaded0 s =
     (case init_body P pin dataLoaded0 s of
        Throw s' \<Rightarrow> init_catch P dataLoaded0 s'
      | Return s' \<Rightarrow> s'
      | Continue s' \<Rightarrow> s')"

text \<open>
  Mounting \<open>MainApp\<close>: the initial values of the \<open>useState\<close> and \<open>useRef\<close> calls, over the
  browser's storage. The effect has the dependency list \<open>[pin]\<close> and \<open>MainApp\<close> is mounted
  anew for every unlock, so \<open>init\<close> runs once, from the first render, in which
  \<open>dataLoaded\<close> is \<open>false\<close>.
\<close>

definition mount :: "(jsstring \<rightharpoonup> jsstring) \<Rightarrow> nat option \<Rightarrow> 'p app" where
  "mount storage td = \<lparr>prompts' = [], dataLoaded = False, syncStatus = idle, syncMessage = [],
     showImportExport = False, tokenRef = None, saveTimeoutRef = None, localStorage = storage,
     timers = [], next_timer = 1, clock = 0, awaits = 0, teardown = td, stale_writes = [],
     upserts = []\<rparr>"

definition unlock ::
  "('k, 'p) platform \<Rightarrow> jsstring \<Rightarrow> (jsstring \<rightharpoonup> jsstring) \<Rightarrow> nat option \<Rightarrow> 'p app" where
  "unlock P pin storage td = init P pin False (mount storage td)"

section \<open>The application: propagation\<close>

text \<open>
  Lines 719-744. \<open>Date.now()\<close> is the clock; the else branch (line 737) and the catch
  (line 741) set the same status and message. \<open>upsert_failed\<close> is the outcome of
  \<open>saveToGist\<close> that takes either of them: an exception, or a falsy handle.
\<close>

definition upsert_failed :: "js_error + jsstring option \<Rightarrow> bool" where
  "upsert_failed r = (case r of Inl e \<Rightarrow> True | Inr resultId \<Rightarrow> \<not> truthy resultId)"


definition saveToCloud_failed :: "nat \<Rightarrow> 'p app \<Rightarrow> 'p app" where
  "saveToCloud_failed line s =
     setSyncMessage (line + 1) MSG_SAVE_ERROR (setSyncStatus line error s)"

definition saveToCloud :: "('k, 'p) platform \<Rightarrow> jsstring \<Rightarrow> 'p list \<Rightarrow> 'p app \<Rightarrow> 'p app" where
  "saveToCloud P pin promptsToSave s =
     (if \<not> truthy (tokenRef s) then s
      else
        (let s1 = setSyncStatus 721 syncing s;
             data = \<lparr>prompts = promptsToSave, version = 1, lastSync = clock s\<rparr>;
             gistId = localStorage s1 LS_GIST_ID;
             s2 = await (s1\<lparr>upserts := upserts s1 @ [(the (tokenRef s), gistId, data)]\<rparr>) in
         case saveToGist (network P) (JSON_stringify2 P) (the (tokenRef s)) gistId data of
           Inl e \<Rightarrow> saveToCloud_failed 741 s2
         | Inr resultId \<Rightarrow>
             if truthy resultId then
               (let s3 = setItem 731 LS_GIST_ID (the resultId) s2;
                    s4 = await s3 in
                case encrypt' P (JSON_stringify P data) pin of
                  Inl e \<Rightarrow> saveToCloud_failed 741 s4
                | Inr encrypted \<Rightarrow>
                    setSyncMessage 735 MSG_SAVED (setSyncStatus 734 synced
                      (setItem 733 LS_ENCRYPTED_CACHE encrypted s4)))
             else saveToCloud_failed 737 s2))"

text \<open>
  Lines 746-749 and 799-805. \<open>setTimeout\<close> returns a fresh non-zero handle and queues the
  callback \<open>() => saveToCloud(newPrompts)\<close> with its due time; \<open>clearTimeout\<close> removes it.
\<close>

definition clearTimeout :: "nat \<Rightarrow> 'p app \<Rightarrow> 'p app" where
  "clearTimeout h s = s\<lparr>timers := filter (\<lambda>(h', due, arg). h' \<noteq> h) (timers s)\<rparr>"

definition setTimeout :: "nat \<Rightarrow> 'p list \<Rightarrow> 'p app \<Rightarrow> nat \<times> 'p app" where
  "setTimeout delay arg s =
     (next_timer s,
      s\<lparr>timers := timers s @ [(next_timer s, clock s + delay, arg)],
        next_timer := Suc (next_timer s)\<rparr>)"

definition debouncedSave :: "'p list \<Rightarrow> 'p app \<Rightarrow> 'p app" where
  "debouncedSave newPrompts s =
     (let s1 = (case saveTimeoutRef s of
                  None \<Rightarrow> s
                | Some h \<Rightarrow> if h \<noteq> 0 then clearTimeout h s else s);
          (h, s2) = setTimeout 1500 newPrompts s1
      in s2\<lparr>saveTimeoutRef := Some h\<rparr>)"

definition modifyPrompts :: "('p list \<Rightarrow> 'p list) \<Rightarrow> 'p app \<Rightarrow> 'p app" where
  "modifyPrompts fn s =
     (let next = fn (prompts' s) in (debouncedSave next s)\<lparr>prompts' := next\<rparr>)"

text \<open>
  Time passes to \<open>t\<close>: the callbacks due by then run, each at its due time, and leave
  the queue. A burst is a list of mutations with the times at which they are issued.
\<close>

definition advance :: "('k, 'p) platform \<Rightarrow> jsstring \<Rightarrow> nat \<Rightarrow> 'p app \<Rightarrow> 'p app" where
  "advance P pin t s =
     (let fired = filter (\<lambda>(h, due, arg). due \<le> t) (timers s);
          s1 = s\<lparr>timers := filter (\<lambda>(h, due, arg). \<not> due \<le> t) (timers s)\<rparr>;
          s2 = foldl (\<lambda>s (h, due, arg). saveToCloud P pin arg (s\<lparr>clock := due\<rparr>)) s1 fired
      in s2\<lparr>clock := max t (clock s2)\<rparr>)"

fun burst ::
  "('k, 'p) platform \<Rightarrow> jsstring \<Rightarrow> (nat \<times> ('p list \<Rightarrow> 'p list)) list \<Rightarrow> 'p app \<Rightarrow> 'p app" where
  "burst P pin [] s = s"
| "burst P pin ((t, fn) # ms) s = burst P pin ms (modifyPrompts fn (advance P pin t s))"

text \<open>
  Each mutation of the burst is issued before the delay of the previous one has elapsed;
  \<open>apply_all\<close> is the dataset after all of them.
\<close>

fun within_delay :: "nat \<Rightarrow> (nat \<times> ('p list \<Rightarrow> 'p list)) list \<Rightarrow> bool" where
  "within_delay prev [] = True"
| "within_delay prev ((t, fn) # ms) = (prev \<le> t \<and> t < prev + 1500 \<and> within_delay t ms)"

fun apply_all :: "(nat \<times> ('p list \<Rightarrow> 'p list)) list \<Rightarrow> 'p list \<Rightarrow> 'p list" where
  "apply_all [] ps = ps"
| "apply_all ((t, fn) # ms) ps = apply_all ms (fn ps)"

text \<open>
  After a mutation at time \<open>t\<close> the component is \<open>armed\<close>: exactly one callback is
  queued, it is due at \<open>t + 1500\<close>, it carries the current dataset, and the ref holds its
  handle. \<open>last_time\<close> is the time of the last mutation of a burst.
\<close>

definition armed :: "nat \<Rightarrow> 'p app \<Rightarrow> bool" where
  "armed t s = (\<exists>h. timers s = [(h, t + 1500, prompts' s)] \<and> saveTimeoutRef s = Some h
     \<and> h \<noteq> 0 \<and> h < next_timer s \<and> clock s = t)"

fun last_time :: "nat \<Rightarrow> (nat \<times> ('p list \<Rightarrow> 'p list)) list \<Rightarrow> nat" where
  "last_time t [] = t"
| "last_time t ((t', fn) # ms) = last_time t' ms"

section \<open>The application: liveness of the session\<close>

text \<open>
  The writes of \<open>init\<close> that directly follow a test of \<open>cancelled\<close>, by source line, and
  the state a control flow ends in.
\<close>

definition guarded_lines :: "nat set" where
  "guarded_lines = {634, 635, 644, 650, 665, 681, 682, 696, 697, 704, 705, 707, 708}"

definition no_guarded_stale :: "'p app \<Rightarrow> bool" where
  "no_guarded_stale s = (\<forall>w \<in> set (stale_writes s). fst w \<notin> guarded_lines)"

definition state_of :: "'s flow \<Rightarrow> 's" where
  "state_of r = (case r of Throw s \<Rightarrow> s | Return s \<Rightarrow> s | Continue s \<Rightarrow> s)"

text \<open>
  Two stages of a run whose session is torn down during the first \<open>await\<close> of \<open>init\<close>:
  \<open>fresh\<close>, before any \<open>await\<close>, where nothing has been written after the teardown and
  \<open>tokenRef\<close> is still empty; and \<open>dead\<close>, after it, where the only writes after the teardown
  are those of \<open>tokenRef\<close> (line 624) and of the offline status (line 699).
\<close>

definition dead :: "'p app \<Rightarrow> bool" where
  "dead s = (torn_down s
     \<and> (\<forall>w \<in> set (stale_writes s). w = (624, TokenRef) \<or> w = (699, Status)))"

definition fresh :: "'p app \<Rightarrow> bool" where
  "fresh s = (teardown s = Some 1 \<and> awaits s = 0 \<and> stale_writes s = [] \<and> tokenRef s = None)"

section \<open>The application: import\<close>

text \<open>
  The value \<open>JSON.parse\<close> returns for a file chosen by the user: any JSON value. An
  object is the list of its members.
\<close>

datatype json = JNull | JBool bool | JNumber int | JString jsstring | JArray "json list"
  | JObject "(jsstring \<times> json) list"

text \<open>
  \<open>p.id\<close>: a TypeError on \<open>null\<close>, the member of an object, and \<open>undefined\<close> (\<open>None\<close>) on any
  other value. \<open>Set.has\<close> compares an id with the stored ones: primitives by value,
  \<open>undefined\<close> with itself, and objects and arrays by identity, which a freshly parsed
  value never shares.
\<close>

definition id_plain :: "json \<Rightarrow> json option" where
  "id_plain p = (case p of JObject members \<Rightarrow> map_of members (js ''id'') | _ \<Rightarrow> None)"

definition id_of :: "json \<Rightarrow> js_error + json option" where
  "id_of p = (if p = JNull then Inl TypeError else Inr (id_plain p))"

definition same_value_zero :: "json option \<Rightarrow> json option \<Rightarrow> bool" where
  "same_value_zero a b =
     (case (a, b) of
        (None, None) \<Rightarrow> True
      | (Some (JArray _), _) \<Rightarrow> False
      | (Some (JObject _), _) \<Rightarrow> False
      | (Some x, Some y) \<Rightarrow> x = y
      | _ \<Rightarrow> False)"

definition has :: "json option list \<Rightarrow> json option \<Rightarrow> bool" where
  "has ids i = list_ex (\<lambda>j. same_value_zero j i) ids"

fun map_ids :: "json list \<Rightarrow> js_error + json option list" where
  "map_ids [] = Inr []"
| "map_ids (p # ps) =
     (case id_of p of
        Inl e \<Rightarrow> Inl e
      | Inr i \<Rightarrow> (case map_ids ps of Inl e \<Rightarrow> Inl e | Inr ids \<Rightarrow> Inr (i # ids)))"

fun filter_new :: "json option list \<Rightarrow> json list \<Rightarrow> js_error + json list" where
  "filter_new existingIds [] = Inr []"
| "filter_new existingIds (p # ps) =
     (case id_of p of
        Inl e \<Rightarrow> Inl e
      | Inr i \<Rightarrow>
          (case filter_new existingIds ps of
             Inl e \<Rightarrow> Inl e
           | Inr rest \<Rightarrow> Inr (if has existingIds i then rest else p # rest)))"

text \<open>The updater that \<open>importData\<close> passes to \<open>modifyPrompts\<close> (lines 894-898).\<close>

definition import_updater :: "json list \<Rightarrow> json list \<Rightarrow> js_error + json list" where
  "import_updater data prev =
     (case map_ids prev of
        Inl e \<Rightarrow> Inl e
      | Inr existingIds \<Rightarrow>
          (case filter_new existingIds data of
             Inl e \<Rightarrow> Inl e
           | Inr newPrompts \<Rightarrow> Inr (prev @ newPrompts)))"

text \<open>
  Lines 886-905, with the text of the chosen file (\<open>None\<close>: no file) and \<open>JSON.parse\<close>
  (\<open>None\<close>: it throws, and the handler's empty \<open>catch\<close> ends the import). The updater runs
  in React's state update, and the render of \<open>MainApp\<close> that follows reads the records of
  the new dataset (lines 763-772 and 1347-1400); both are outside the \<open>try\<close> of the
  handler, and the module has no error boundary: what either throws is the result of the
  import. The render is a parameter: \<open>render ps\<close> is the exception it throws over the
  dataset \<open>ps\<close>, and \<open>None\<close> when it completes.
\<close>

definition importData ::
  "(jsstring \<Rightarrow> json option) \<Rightarrow> (json list \<Rightarrow> js_error option) \<Rightarrow> jsstring option
     \<Rightarrow> json app \<Rightarrow> js_error + json app" where
  "importData parse render file s =
     (case file of
        None \<Rightarrow> Inr s
      | Some text \<Rightarrow>
          (case parse text of
             None \<Rightarrow> Inr s
           | Some (JArray data) \<Rightarrow>
               (case import_updater data (prompts' s) of
                  Inl e \<Rightarrow> Inl e
                | Inr next \<Rightarrow>
                    (case render next of
                       Some e \<Rightarrow> Inl e
                     | None \<Rightarrow>
                         Inr ((modifyPrompts (\<lambda>prev. projr (import_updater data prev)) s)
                                \<lparr>showImportExport := False\<rparr>)))
           | Some _ \<Rightarrow> Inr s))"

text \<open>
  The document shape of the specification: an array whose entries are full prompt
  records (types.ts, \<open>Prompt\<close>).
\<close>

definition member_is :: "(jsstring \<times> json) list \<Rightarrow> string \<Rightarrow> (json \<Rightarrow> bool) \<Rightarrow> bool" where
  "member_is members name shape =
     (case map_of members (js name) of None \<Rightarrow> False | Some v \<Rightarrow> shape v)"

definition is_string :: "json \<Rightarrow> bool" where
  "is_string v = (case v of JString _ \<Rightarrow> True | _ \<Rightarrow> False)"

definition is_number :: "json \<Rightarrow> bool" where
  "is_number v = (case v of JNumber _ \<Rightarrow> True | _ \<Rightarrow> False)"

definition is_boolean :: "json \<Rightarrow> bool" where
  "is_boolean v = (case v of JBool _ \<Rightarrow> True | _ \<Rightarrow> False)"

definition is_string_array :: "json \<Rightarrow> bool" where
  "is_string_array v = (case v of JArray xs \<Rightarrow> list_all is_string xs | _ \<Rightarrow> False)"

definition is_Prompt :: "json \<Rightarrow> bool" where
  "is_Prompt v =
     (case v of
        JObject members \<Rightarrow>
          member_is members ''id'' is_string \<and> member_is members ''title'' is_string
          \<and> member_is members ''content'' is_string \<and> member_is members ''category'' is_string
          \<and> member_is members ''tags'' is_string_array
          \<and> member_is members ''isFavorite'' is_boolean
          \<and> member_is members ''createdAt'' is_number
          \<and> member_is members ''updatedAt'' is_number
          \<and> member_is members ''usageCount'' is_number
      | _ \<Rightarrow> False)"

definition matches_document_shape :: "json \<Rightarrow> bool" where
  "matches_document_shape v = (case v of JArray xs \<Rightarrow> list_all is_Prompt xs | _ \<Rightarrow> False)"

text \<open>An entry is \<open>known\<close> when its id is among the ids of the current dataset.\<close>

definition known :: "json list \<Rightarrow> json \<Rightarrow> bool" where
  "known prev p = list_ex (\<lambda>q. same_value_zero (id_plain q) (id_plain p)) prev"

definition is_array :: "json \<Rightarrow> bool" where
  "is_array v = (case v of JArray _ \<Rightarrow> True | _ \<Rightarrow> False)"

text \<open>
  A render for concrete runs. In the view \<open>MainApp\<close> starts in (no search, no filter,
  newest first) the render reads every record: line 764 reads \<open>p.category\<close>, a TypeError on
  \<open>null\<close>; line 770 calls \<open>p.tags.forEach\<close>, a TypeError unless \<open>tags\<close> is an array;
  \<open>PromptCard\<close> calls \<open>extractVariables(prompt.content)\<close> (lines 1350 and 26), a TypeError
  unless \<open>content\<close> is a string. A \<open>plain_record\<close> is an object whose \<open>tags\<close> are an array of
  strings, whose \<open>content\<close> is a string and whose other members are strings, numbers,
  booleans or \<open>null\<close>: no statement of the render throws on it. \<open>render_plain\<close> completes on
  the datasets of plain records, as the render of the source does, and throws the
  TypeError on every other dataset, as the source does at line 770 where a record has no
  \<open>tags\<close> array; on the remaining datasets it is stricter than the source.
\<close>

definition is_primitive :: "json \<Rightarrow> bool" where
  "is_primitive v = (case v of JArray xs \<Rightarrow> False | JObject members \<Rightarrow> False | _ \<Rightarrow> True)"

definition plain_record :: "json \<Rightarrow> bool" where
  "plain_record p =
     (case p of
        JObject members \<Rightarrow>
          member_is members ''tags'' is_string_array \<and> member_is members ''content'' is_string
          \<and> list_all (\<lambda>(name, v). name = js ''tags'' \<or> is_primitive v) members
      | _ \<Rightarrow> False)"

definition render_plain :: "json list \<Rightarrow> js_error option" where
  "render_plain ps = (if list_all plain_record ps then None else Some TypeError)"

text \<open>
  A record with an id and a title, an empty text and no tags, and nothing else of a
  prompt record; an entry with nothing but an id.
\<close>

definition entry :: "jsstring \<Rightarrow> jsstring \<Rightarrow> json" where
  "entry i t = JObject [(js ''id'', JString i), (js ''title'', JString t),
     (js ''content'', JString []), (js ''tags'', JArray [])]"

definition bare_entry :: "jsstring \<Rightarrow> json" where
  "bare_entry i = JObject [(js ''id'', JString i)]"

section \<open>Instances for concrete runs\<close>

text \<open>
  A document format in which a record is one code unit and the document is the string
  of its records; remote accounts that serve one gist, that have lost it and accept a new
  one; the envelope a call of \<open>encrypt\<close> resolves to.
\<close>

definition toy_parse :: "jsstring \<Rightarrow> 16 word VaultData option" where
  "toy_parse s = (if s = [] then None else Some \<lparr>prompts = s, version = 1, lastSync = 0\<rparr>)"

definition toy_stringify :: "16 word VaultData \<Rightarrow> jsstring" where
  "toy_stringify d = prompts d"

definition toy_stringify2 :: "16 word VaultData \<Rightarrow> js_error + jsstring" where
  "toy_stringify2 d = Inr (prompts d)"

definition toy_platform :: "github \<Rightarrow> (byte list, 16 word) platform" where
  "toy_platform gh = \<lparr>subtle_crypto = toy_subtle, random_salt = salt0, random_iv = iv0,
     JSON_parse = toy_parse, JSON_stringify = toy_stringify, JSON_stringify2 = toy_stringify2,
     network = gh, default_prompts = js ''xyz''\<rparr>"

definition gist_with :: "jsstring \<Rightarrow> jsstring \<Rightarrow> GistResponse" where
  "gist_with gistId text = \<lparr>id' = gistId,
     files = [GIST_FILENAME \<mapsto> \<lparr>filename = GIST_FILENAME, content = text\<rparr>],
     description = [], updated_at = []\<rparr>"

definition github_serving :: "jsstring \<Rightarrow> github" where
  "github_serving text = github_down
     \<lparr>get_gist := (\<lambda>token gistId. Response 200 (JsonValue (gist_with gistId text)))\<rparr>"

definition github_lost :: github where
  "github_lost = github_down
     \<lparr>get_gist := (\<lambda>token gistId. Response 404 JsonNull),
      patch_gist := (\<lambda>token gistId body. Response 200 JsonNull),
      post_gists := (\<lambda>token body. Response 201 (JsonValue (gist_with (js ''g2'') body)))\<rparr>"

text \<open>
  Remote accounts for the failure modes of the store: one whose listing answers its
  first \<open>n\<close> pages with a gist that is not the vault and rejects the next request, one
  that lists the vault gist on its second page, one that serves a gist without the vault
  file.
\<close>

definition other_gist :: GistResponse where
  "other_gist = \<lparr>id' = js ''g0'', files = Map.empty, description = [], updated_at = []\<rparr>"

definition github_listing :: "nat \<Rightarrow> github" where
  "github_listing n = github_down
     \<lparr>list_gists := (\<lambda>token page.
        if page \<le> n then Response 200 (JsonValue [other_gist]) else FetchRejects)\<rparr>"

definition github_second_page :: github where
  "github_second_page = github_down
     \<lparr>list_gists := (\<lambda>token page.
        if page = 1 then Response 200 (JsonValue [other_gist])
        else Response 200 (JsonValue [other_gist, gist_with (js ''g1'') []]))\<rparr>"

definition github_without_file :: github where
  "github_without_file = github_down
     \<lparr>get_gist := (\<lambda>token gistId. Response 200 (JsonValue other_gist))\<rparr>"

text \<open>
  A dataset whose records are JSON values or BigInts. \<open>JSON.stringify\<close> throws a TypeError
  on a BigInt; the text it returns for the other datasets is a parameter.
\<close>

datatype js_value = Plain json | BigInt int

definition is_BigInt :: "js_value \<Rightarrow> bool" where
  "is_BigInt v = (case v of BigInt n \<Rightarrow> True | Plain j \<Rightarrow> False)"

definition stringify_values ::
  "(js_value VaultData \<Rightarrow> jsstring) \<Rightarrow> js_value VaultData \<Rightarrow> js_error + jsstring" where
  "stringify_values text d =
     (if list_ex is_BigInt (prompts d) then Inl TypeError else Inr (text d))"

definition envelope_of :: "js_error + jsstring \<Rightarrow> jsstring" where
  "envelope_of r = (case r of Inl e \<Rightarrow> [] | Inr env \<Rightarrow> env)"

text \<open>
  A locked vault on this device: the PIN, the token, an envelope of a text under the PIN
  (drawn with the platform's salt and nonce), and the storage holding the encrypted
  token, an encrypted cache of the four records \<open>abcd\<close> and the id of the gist. Two
  damaged storages: one whose token envelope is not base64, beside a sound cache, and one
  that holds nothing but a cache envelope that is not base64.
\<close>

definition pin0 :: jsstring where
  "pin0 = js ''1234''"

definition token0 :: jsstring where
  "token0 = js ''tok''"

definition stored :: "jsstring \<Rightarrow> jsstring" where
  "stored t = envelope_of (encrypt toy_subtle salt0 iv0 t pin0)"

definition storage0 :: "jsstring \<rightharpoonup> jsstring" where
  "storage0 = [LS_ENCRYPTED_TOKEN \<mapsto> stored token0, LS_ENCRYPTED_CACHE \<mapsto> stored (js ''abcd''),
     LS_GIST_ID \<mapsto> js ''g1'']"

definition storage_bad_token :: "jsstring \<rightharpoonup> jsstring" where
  "storage_bad_token = [LS_ENCRYPTED_TOKEN \<mapsto> js ''!'',
     LS_ENCRYPTED_CACHE \<mapsto> stored (js ''abcd'')]"

definition storage_bad_cache :: "jsstring \<rightharpoonup> jsstring" where
  "storage_bad_cache = [LS_ENCRYPTED_CACHE \<mapsto> js ''!'']"

definition unlocked :: "nat option \<Rightarrow> 16 word app" where
  "unlocked td = (mount Map.empty td)\<lparr>tokenRef := Some token0, prompts' := js ''ab'',
     dataLoaded := True, syncStatus := synced\<rparr>"

section \<open>Exceptions\<close>

lemma try_catch_returns:
  "(\<And>e. \<exists>v. handler e = Inr v) \<Longrightarrow> \<exists>v. try_catch body handler = Inr v"
  by (cases body) (auto simp: try_catch_def)

lemma try_catch_Inl [simp]: "try_catch (Inl e) handler = handler e"
  by (simp add: try_catch_def)

lemma try_catch_Inr [simp]: "try_catch (Inr v) handler = Inr v"
  by (simp add: try_catch_def)

section \<open>Properties of the text codec\<close>

lemma decode_1: "c < 0x80 \<Longrightarrow> utf8_decode 0 cp lo hi (utf8_bytes c @ rest) = c # utf8_decode 0 0 0x80 0xBF rest"
  by (simp add: utf8_bytes_def)

lemma mod_C0: "q < 32 \<Longrightarrow> (192 + q) mod 32 = (q::nat)"
  using mod_mult_self2 [of q 32 6] by (simp add: add.commute)

lemma mod_80: "r < 64 \<Longrightarrow> (128 + r) mod 64 = (r::nat)"
  using mod_mult_self2 [of r 64 2] by (simp add: add.commute)

lemma mod_E0: "r < 16 \<Longrightarrow> (224 + r) mod 16 = (r::nat)"
  using mod_mult_self2 [of r 16 14] by (simp add: add.commute)

lemma mod_F0: "r < 8 \<Longrightarrow> (240 + r) mod 8 = (r::nat)"
  using mod_mult_self2 [of r 8 30] by (simp add: add.commute)

lemma split_3: "(c::nat) = c div 4096 * 4096 + (c div 64) mod 64 * 64 + c mod 64"
proof -
  have a: "c div 4096 = (c div 64) div 64" by (simp add: div_mult2_eq)
  have "c div 64 = c div 4096 * 64 + (c div 64) mod 64" unfolding a by simp
  moreover have "c = c div 64 * 64 + c mod 64" by simp
  ultimately show ?thesis by linarith
qed

lemma split_4:
  "(c::nat) = c div 262144 * 262144 + (c div 4096) mod 64 * 4096 + (c div 64) mod 64 * 64 + c mod 64"
proof -
  have a: "c div 4096 = (c div 64) div 64" by (simp add: div_mult2_eq)
  have b: "c div 262144 = (c div 4096) div 64" by (simp add: div_mult2_eq)
  have "c div 4096 = c div 262144 * 64 + (c div 4096) mod 64" unfolding b by simp
  moreover have "c div 64 = c div 4096 * 64 + (c div 64) mod 64" unfolding a by simp
  moreover have "c = c div 64 * 64 + c mod 64" by simp
  ultimately show ?thesis by linarith
qed

lemma decode_2:
  assumes "0x80 \<le> c" "c < 0x800"
  shows "utf8_decode 0 cp lo hi (utf8_bytes c @ rest) = c # utf8_decode 0 0 0x80 0xBF rest"
proof -
  define q r where "q = c div 64" and "r = c mod 64"
  have c: "c = q * 64 + r" and r: "r < 64" by (simp_all add: q_def r_def)
  from assms c r have q: "2 \<le> q" "q < 32" by linarith+
  have b: "utf8_bytes c = [0xC0 + q, 0x80 + r]"
    using assms by (simp add: utf8_bytes_def q_def r_def)
  have "utf8_decode 0 cp lo hi ((0xC0 + q) # (0x80 + r) # rest)
      = utf8_decode 1 q 0x80 0xBF ((0x80 + r) # rest)"
    using q by (simp add: mod_C0)
  also have "\<dots> = (q * 64 + r) # utf8_decode 0 0 0x80 0xBF rest"
    using r by (simp add: mod_80)
  finally show ?thesis unfolding b by (simp add: c)
qed

lemma decode_3:
  assumes "0x800 \<le> c" "c < 0x10000" "\<not> (0xD800 \<le> c \<and> c \<le> 0xDFFF)"
  shows "utf8_decode 0 cp lo hi (utf8_bytes c @ rest) = c # utf8_decode 0 0 0x80 0xBF rest"
proof -
  define p q r where "p = c div 4096" and "q = (c div 64) mod 64" and "r = c mod 64"
  have c: "c = p * 4096 + q * 64 + r" unfolding p_def q_def r_def by (rule split_3)
  have r: "r < 64" and q: "q < 64" by (simp_all add: q_def r_def)
  from assms c r q have p: "p < 16" by linarith
  have p0: "p = 0 \<Longrightarrow> 32 \<le> q" using assms c r q by linarith
  have p13: "p = 13 \<Longrightarrow> q < 32" using assms c r q by linarith
  have b: "utf8_bytes c = [0xE0 + p, 0x80 + q, 0x80 + r]"
    using assms by (simp add: utf8_bytes_def p_def q_def r_def)
  have "utf8_decode 0 cp lo hi ((0xE0 + p) # (0x80 + q) # (0x80 + r) # rest)
      = utf8_decode 2 p (if p = 0 then 0xA0 else 0x80) (if p = 13 then 0x9F else 0xBF)
          ((0x80 + q) # (0x80 + r) # rest)"
    using p by (simp add: mod_E0)
  also have "\<dots> = utf8_decode 1 (p * 64 + q) 0x80 0xBF ((0x80 + r) # rest)"
    using q p0 p13 by (auto simp: mod_80)
  also have "\<dots> = ((p * 64 + q) * 64 + r) # utf8_decode 0 0 0x80 0xBF rest"
    using r by (simp add: mod_80)
  finally show ?thesis unfolding b by (simp add: c)
qed

lemma decode_4:
  assumes "0x10000 \<le> c" "c < 0x110000"
  shows "utf8_decode 0 cp lo hi (utf8_bytes c @ rest) = c # utf8_decode 0 0 0x80 0xBF rest"
proof -
  define o' p q r where "o' = c div 262144" and "p = (c div 4096) mod 64"
    and "q = (c div 64) mod 64" and "r = c mod 64"
  have c: "c = o' * 262144 + p * 4096 + q * 64 + r"
    unfolding o'_def p_def q_def r_def by (rule split_4)
  have r: "r < 64" and q: "q < 64" and p: "p < 64" by (simp_all add: p_def q_def r_def)
  from assms c r q p have o: "o' < 5" by linarith
  have o0: "o' = 0 \<Longrightarrow> 16 \<le> p" using assms c r q p by linarith
  have o4: "o' = 4 \<Longrightarrow> p < 16" using assms c r q p by linarith
  have b: "utf8_bytes c = [0xF0 + o', 0x80 + p, 0x80 + q, 0x80 + r]"
    using assms by (simp add: utf8_bytes_def o'_def p_def q_def r_def)
  have "utf8_decode 0 cp lo hi ((0xF0 + o') # (0x80 + p) # (0x80 + q) # (0x80 + r) # rest)
      = utf8_decode 3 o' (if o' = 0 then 0x90 else 0x80) (if o' = 4 then 0x8F else 0xBF)
          ((0x80 + p) # (0x80 + q) # (0x80 + r) # rest)"
    using o by (simp add: mod_F0)
  also have "\<dots> = utf8_decode 2 (o' * 64 + p) 0x80 0xBF ((0x80 + q) # (0x80 + r) # rest)"
    using p o o0 o4 by (auto simp: mod_80)
  also have "\<dots> = utf8_decode 1 ((o' * 64 + p) * 64 + q) 0x80 0xBF ((0x80 + r) # rest)"
    using q by (simp add: mod_80)
  also have "\<dots> = (((o' * 64 + p) * 64 + q) * 64 + r) # utf8_decode 0 0 0x80 0xBF rest"
    using r by (simp add: mod_80)
  finally show ?thesis unfolding b by (simp add: c)
qed

lemma decode_scalar:
  assumes "valid_scalar c"
  shows "utf8_decode 0 cp lo hi (utf8_bytes c @ rest) = c # utf8_decode 0 0 0x80 0xBF rest"
proof -
  consider "c < 0x80" | "0x80 \<le> c" "c < 0x800" | "0x800 \<le> c" "c < 0x10000" | "0x10000 \<le> c"
    by linarith
  then show ?thesis
  proof cases
    case 1 then show ?thesis by (rule decode_1)
  next
    case 2 then show ?thesis by (rule decode_2)
  next
    case 3 then show ?thesis using assms by (intro decode_3) (simp_all add: valid_scalar_def)
  next
    case 4 then show ?thesis using assms by (intro decode_4) (simp_all add: valid_scalar_def)
  qed
qed

lemma decode_scalars:
  "list_all valid_scalar cs \<Longrightarrow>
     utf8_decode 0 0 0x80 0xBF (concat (map utf8_bytes cs)) = cs"
  by (induction cs) (simp_all add: decode_scalar)

lemma utf8_bytes_range: "c < 0x110000 \<Longrightarrow> b \<in> set (utf8_bytes c) \<Longrightarrow> b < 256"
proof -
  assume c: "c < 0x110000" and b: "b \<in> set (utf8_bytes c)"
  have 1: "c mod 64 < 64" "(c div 64) mod 64 < 64" "(c div 4096) mod 64 < 64" by simp_all
  have 2: "c < 0x800 \<Longrightarrow> c div 64 < 32" by linarith
  have 3: "c < 0x10000 \<Longrightarrow> c div 4096 < 16" by linarith
  have 4: "c div 262144 < 5" using c by linarith
  show ?thesis using b 1 2 3 4
    by (auto simp: utf8_bytes_def split: if_splits)
qed


lemma scalars_valid:
  "\<forall>u \<in> set us. u < 0x10000 \<Longrightarrow> list_all valid_scalar (scalars us)"
proof (induction us rule: scalars.induct)
  case 1
  then show ?case by simp
next
  case (2 u)
  then show ?case by (auto simp: valid_scalar_def is_high_def is_low_def)
next
  case (3 u v us)
  then show ?case by (auto simp: valid_scalar_def is_high_def is_low_def)
qed

lemma utf16_units_pair:
  assumes "is_high u" "is_low v"
  shows "utf16_units (0x10000 + (u - 0xD800) * 0x400 + (v - 0xDC00)) = [u, v]"
proof -
  define a b where "a = u - 0xD800" and "b = v - 0xDC00"
  have u: "u = 0xD800 + a" and v: "v = 0xDC00 + b" and b: "b < 0x400"
    using assms by (auto simp: a_def b_def is_high_def is_low_def)
  have "(a * 0x400 + b) div 0x400 = a" "(a * 0x400 + b) mod 0x400 = b" using b by simp_all
  then show ?thesis by (simp add: utf16_units_def u v)
qed

lemma scalars_well_formed:
  "well_formed us \<Longrightarrow> \<forall>u \<in> set us. u < 0x10000 \<Longrightarrow>
     concat (map utf16_units (scalars us)) = us"
proof (induction us rule: scalars.induct)
  case 1
  then show ?case by simp
next
  case (2 u)
  then show ?case by (simp add: utf16_units_def)
next
  case (3 u v us)
  show ?case
  proof (cases "is_high u")
    case True
    with 3 show ?thesis by (simp add: utf16_units_pair)
  next
    case False
    with 3 show ?thesis by (simp add: utf16_units_def)
  qed
qed

lemma scalars_no_BOM:
  "us = [] \<or> hd us \<noteq> 0xFEFF \<Longrightarrow> strip_BOM (scalars us) = scalars us"
  by (induction us rule: scalars.induct) (auto simp: strip_BOM_def is_high_def is_low_def)

lemma unat_of_nat_bytes:
  "\<forall>b \<in> set bs. b < 256 \<Longrightarrow> map unat (map of_nat bs :: byte list) = bs"
  by (induction bs) (simp_all add: unat_of_nat)

lemma scalars_bytes_range:
  assumes "\<forall>u \<in> set us. u < 0x10000"
  shows "\<forall>b \<in> set (concat (map utf8_bytes (scalars us))). b < 256"
proof -
  have "list_all valid_scalar (scalars us)" using assms by (rule scalars_valid)
  then show ?thesis
    by (auto simp: list_all_iff valid_scalar_def intro: utf8_bytes_range)
qed

lemma unat_units: "\<forall>u \<in> set (map unat (t :: jsstring)). u < 0x10000"
proof
  fix u assume "u \<in> set (map unat t)"
  then obtain w :: "16 word" where "u = unat w" by auto
  then show "u < 0x10000" using unsigned_less [of w, where 'a = nat] by simp
qed

lemma TextDecoder_TextEncoder:
  assumes "text_safe t"
  shows "TextDecoder_decode (TextEncoder_encode t) = t"
proof -
  let ?us = "map unat t"
  have r: "\<forall>u \<in> set ?us. u < 0x10000" by (rule unat_units)
  have hd: "?us = [] \<or> hd ?us \<noteq> 0xFEFF"
  proof (cases t)
    case Nil then show ?thesis by simp
  next
    case (Cons w ws)
    with assms have "w \<noteq> 0xFEFF" by (simp add: text_safe_def)
    then have "unat w \<noteq> 0xFEFF" by (simp add: word_unat_eq_iff)
    with Cons show ?thesis by simp
  qed
  have "map unat (TextEncoder_encode t) = concat (map utf8_bytes (scalars ?us))"
    unfolding TextEncoder_encode_def using scalars_bytes_range [OF r]
    by (rule unat_of_nat_bytes)
  then have "TextDecoder_decode (TextEncoder_encode t)
      = map of_nat (concat (map utf16_units (strip_BOM (scalars ?us))))"
    by (simp add: TextDecoder_decode_def decode_scalars scalars_valid [OF r])
  also have "\<dots> = map of_nat ?us"
    using assms by (simp add: scalars_no_BOM [OF hd] scalars_well_formed [OF _ r] text_safe_def)
  also have "\<dots> = t" by (simp add: map_idI)
  finally show ?thesis .
qed

section \<open>Properties of base64\<close>

lemma unat_of_nat_16: "n < 65536 \<Longrightarrow> unat (of_nat n :: 16 word) = n"
  by (simp add: unat_of_nat)

lemma unat_of_nat_8: "n < 256 \<Longrightarrow> unat (of_nat n :: 8 word) = n"
  by (simp add: unat_of_nat)

lemma unat_b64_char:
  "i < 64 \<Longrightarrow> unat (b64_char i) = (if i < 26 then 65 + i else if i < 52 then 71 + i
     else if i < 62 then i - 4 else if i = 62 then 43 else 47)"
  unfolding b64_char_def by (rule unat_of_nat_16) auto

lemma byte_div_bounds:
  "b < 256 \<Longrightarrow> b div 4 < 64 \<and> b div 16 < 16 \<and> b div 64 < (4::nat)"
  by linarith

lemma unat_ucast_byte: "unat (ucast (b :: byte) :: 16 word) = unat b"
proof -
  have "unat b < 2 ^ 16" using unsigned_less [of b, where 'a = nat] by simp
  then show ?thesis by (simp add: unsigned_ucast_eq take_bit_nat_eq_self)
qed

lemma ucast_ucast_byte: "(ucast (ucast (b :: byte) :: 16 word) :: byte) = b"
  by (rule ucast_up_ucast_id) (simp add: is_up)

lemma b64_index_char: "i < 64 \<Longrightarrow> b64_index (b64_char i) = Some i"
  by (auto simp: b64_index_def unat_b64_char Let_def)

lemma b64_char_not_pad: "i < 64 \<Longrightarrow> b64_char i \<noteq> 61"
proof
  assume i: "i < 64" and "b64_char i = 61"
  then have "unat (b64_char i) = 61" by simp
  with i show False by (auto simp: unat_b64_char split: if_splits)
qed

lemma b64_char_not_space: "i < 64 \<Longrightarrow> \<not> ascii_whitespace (b64_char i)"
proof
  assume i: "i < 64" and "ascii_whitespace (b64_char i)"
  then have "unat (b64_char i) \<in> {9, 10, 12, 13, 32}"
    by (auto simp: ascii_whitespace_def)
  with i show False by (auto simp: unat_b64_char split: if_splits)
qed

lemma combine_bounds:
  "x < 4 \<Longrightarrow> y < 16 \<Longrightarrow> x * 16 + y < (64::nat)"
  "y < 16 \<Longrightarrow> z < 4 \<Longrightarrow> y * 4 + z < (64::nat)"
  "x < 4 \<Longrightarrow> x * 16 < (64::nat)"
  "y < 16 \<Longrightarrow> y * 4 < (64::nat)"
  by linarith+

lemma sextet_bounds:
  assumes "a < 256" "b < 256" "c < (256::nat)"
  shows "a div 4 < 64" "(a mod 4) * 16 + b div 16 < 64" "(b mod 16) * 4 + c div 64 < 64"
    "c mod 64 < 64" "(b mod 16) * 4 < 64" "(a mod 4) * 16 < 64"
proof -
  have d: "a div 4 < 64" "b div 16 < 16" "c div 64 < 4"
    using assms byte_div_bounds [of a] byte_div_bounds [of b] byte_div_bounds [of c] by simp_all
  have m: "a mod 4 < 4" "b mod 16 < 16" by simp_all
  show "a div 4 < 64" by (rule d)
  show "(a mod 4) * 16 + b div 16 < 64" using m(1) d(2) by (rule combine_bounds)
  show "(b mod 16) * 4 + c div 64 < 64" using m(2) d(3) by (rule combine_bounds)
  show "c mod 64 < 64" by simp
  show "(b mod 16) * 4 < 64" using m(2) by (rule combine_bounds)
  show "(a mod 4) * 16 < 64" using m(1) by (rule combine_bounds)
qed

lemma sextets_range: "\<forall>b \<in> set bs. b < 256 \<Longrightarrow> \<forall>s \<in> set (sextets bs). s < 64"
proof (induction bs rule: sextets.induct)
  case (1 a b c rest)
  then have "a < 256" "b < 256" "c < 256" by simp_all
  from sextet_bounds [OF this] 1 show ?case by simp
next
  case (2 a b)
  then have "a < 256" "b < 256" "(0::nat) < 256" by simp_all
  from sextet_bounds [OF this] show ?case by simp
next
  case (3 a)
  then have "a < 256" "(0::nat) < 256" "(0::nat) < 256" by simp_all
  from sextet_bounds [OF this] show ?case by simp
next
  case 4
  then show ?case by simp
qed

lemma length_sextets:
  "(length (sextets bs) + (3 - length bs mod 3) mod 3) mod 4 = 0"
proof (induction bs rule: sextets.induct)
  case (1 a b c rest)
  let ?n = "length rest" and ?m = "length (sextets rest)"
  have l: "length (a # b # c # rest) = ?n + 3" by simp
  have "(?n + 3) mod 3 = ?n mod 3" by (rule mod_add_self2)
  then have p: "(3 - length (a # b # c # rest) mod 3) mod 3 = (3 - ?n mod 3) mod 3"
    unfolding l by (rule arg_cong)
  have "length (sextets (a # b # c # rest)) + (3 - ?n mod 3) mod 3
      = (?m + (3 - ?n mod 3) mod 3) + 4" by simp
  then have "(length (sextets (a # b # c # rest)) + (3 - ?n mod 3) mod 3) mod 4
      = (?m + (3 - ?n mod 3) mod 3) mod 4" by (simp only: mod_add_self2)
  with 1 show ?case unfolding p by simp
qed simp_all

lemma length_sextets_mod: "length (sextets bs) mod 4 \<noteq> 1"
proof (induction bs rule: sextets.induct)
  case (1 a b c rest)
  have "(4 + length (sextets rest)) mod 4 = length (sextets rest) mod 4" by simp
  with 1 show ?case by simp
qed simp_all

lemma octets_sextets: "\<forall>b \<in> set bs. b < 256 \<Longrightarrow> octets (sextets bs) = bs"
proof (induction bs rule: sextets.induct)
  case (1 a b c rest)
  have "a div 4 * 4 + ((a mod 4) * 16 + b div 16) div 16 = a"
  proof -
    have "b div 16 < 16" using 1(2) byte_div_bounds [of b] by simp
    then have "((a mod 4) * 16 + b div 16) div 16 = a mod 4" by simp
    then show ?thesis by simp
  qed
  moreover have "(((a mod 4) * 16 + b div 16) mod 16) * 16 + ((b mod 16) * 4 + c div 64) div 4 = b"
  proof -
    have b: "b div 16 < 16" and c: "c div 64 < 4"
      using 1(2) byte_div_bounds [of b] byte_div_bounds [of c] by simp_all
    have "((a mod 4) * 16 + b div 16) mod 16 = b div 16" using b by simp
    moreover have "((b mod 16) * 4 + c div 64) div 4 = b mod 16" using c by simp
    ultimately show ?thesis by simp
  qed
  moreover have "(((b mod 16) * 4 + c div 64) mod 4) * 64 + c mod 64 = c"
  proof -
    have c: "c div 64 < 4" using 1(2) byte_div_bounds [of c] by simp
    then have "((b mod 16) * 4 + c div 64) mod 4 = c div 64" by simp
    then show ?thesis by simp
  qed
  ultimately show ?case using 1 by simp
next
  case (2 a b)
  have "a div 4 * 4 + ((a mod 4) * 16 + b div 16) div 16 = a"
  proof -
    have "b div 16 < 16" using 2 byte_div_bounds [of b] by simp
    then have "((a mod 4) * 16 + b div 16) div 16 = a mod 4" by simp
    then show ?thesis by simp
  qed
  moreover have "(((a mod 4) * 16 + b div 16) mod 16) * 16 + ((b mod 16) * 4) div 4 = b"
  proof -
    have b: "b div 16 < 16" using 2 byte_div_bounds [of b] by simp
    have "((a mod 4) * 16 + b div 16) mod 16 = b div 16" using b by simp
    then show ?thesis by simp
  qed
  ultimately show ?case by simp
next
  case (3 a)
  have "a div 4 * 4 + ((a mod 4) * 16) div 16 = a" by simp
  then show ?case by simp
next
  case 4
  then show ?case by simp
qed

lemma strip_padding_append:
  assumes "(length xs + p) mod 4 = 0" "p \<le> 2" "xs = [] \<or> last xs \<noteq> 61"
  shows "strip_padding (xs @ replicate p 61) = xs"
proof -
  consider "p = 0" | "p = 1" | "p = 2" using assms(2) by linarith
  then show ?thesis
  proof cases
    case 1
    with assms show ?thesis by (auto simp: strip_padding_def)
  next
    case 2
    with assms show ?thesis by (auto simp: strip_padding_def)
  next
    case 3
    then have r: "replicate p (61 :: 16 word) = [61, 61]" by (simp add: numeral_2_eq_2)
    have "butlast (xs @ [61 :: 16 word, 61]) = xs @ [61]" by (simp add: butlast_append)
    with assms 3 show ?thesis unfolding r by (simp add: strip_padding_def)
  qed
qed

lemma atob_btoa_bytes:
  fixes buf :: "byte list"
  shows "\<exists>env. arrayBufferToBase64 buf = Inr env \<and> base64ToUint8Array env = Inr buf"
proof -
  let ?bs = "map unat buf"
  let ?bin = "map ucast buf :: jsstring"
  let ?sx = "sextets ?bs"
  let ?p = "(3 - length buf mod 3) mod 3"
  let ?env = "map b64_char ?sx @ replicate ?p 61"
  have range: "\<forall>b \<in> set ?bs. b < 256"
  proof
    fix b assume "b \<in> set ?bs"
    then obtain w :: byte where "b = unat w" by auto
    then show "b < 256" using unsigned_less [of w, where 'a = nat] by simp
  qed
  have bin: "map unat ?bin = ?bs" by (simp add: unat_ucast_byte)
  have small: "\<not> (\<exists>c \<in> set ?bin. 255 < unat c)"
  proof
    assume "\<exists>c \<in> set ?bin. 255 < unat c"
    then obtain c where "c \<in> set ?bin" "255 < unat c" by blast
    then have "unat c \<in> set (map unat ?bin)" by auto
    with range have "unat c < 256" unfolding bin by blast
    with \<open>255 < unat c\<close> show False by simp
  qed
  have enc: "arrayBufferToBase64 buf = Inr ?env"
    unfolding arrayBufferToBase64_def btoa_def bin using small by simp
  have sx: "\<forall>s \<in> set ?sx. s < 64" using range by (rule sextets_range)
  have nospace: "filter (\<lambda>c. \<not> ascii_whitespace c) ?env = ?env"
  proof -
    have "\<not> ascii_whitespace 61" by (simp add: ascii_whitespace_def)
    with sx show ?thesis by (auto simp: filter_id_conv b64_char_not_space)
  qed
  have last: "map b64_char ?sx = [] \<or> last (map b64_char ?sx) \<noteq> 61"
  proof (cases "?sx = []")
    case True then show ?thesis by simp
  next
    case False
    then have "last ?sx \<in> set ?sx" by simp
    with sx have "last ?sx < 64" by blast
    with False show ?thesis by (simp add: last_map b64_char_not_pad)
  qed
  have len: "(length (map b64_char ?sx) + ?p) mod 4 = 0"
    using length_sextets [of ?bs] by simp
  have strip: "strip_padding ?env = map b64_char ?sx"
    using len _ last by (rule strip_padding_append) simp
  have idx: "map (\<lambda>c. the (b64_index c)) (map b64_char ?sx) = ?sx"
    using sx by (simp add: map_idI b64_index_char)
  have valid: "\<not> (\<exists>c \<in> set (map b64_char ?sx). b64_index c = None)"
    using sx by (auto simp: b64_index_char)
  have "atob ?env = Inr (map of_nat ?bs)"
    unfolding atob_def nospace strip Let_def idx
    using valid length_sextets_mod [of ?bs] by (simp add: octets_sextets [OF range])
  then have "base64ToUint8Array ?env = Inr (map ucast (map of_nat ?bs :: jsstring))"
    by (simp add: base64ToUint8Array_def)
  also have "map ucast (map of_nat ?bs :: jsstring) = buf"
    by (simp add: ucast_ucast_byte map_idI)
  finally show ?thesis using enc by blast
qed

section \<open>Properties of lib/crypto.ts\<close>

lemma and_then_Inr [simp]: "and_then (Inr v) f = f v"
  by (simp add: and_then_def)

lemma and_then_Inl [simp]: "and_then (Inl e) f = Inl e"
  by (simp add: and_then_def)

lemma encrypt_packs:
  "encrypt S salt iv t p =
     arrayBufferToBase64
       (salt @ iv @ AES_GCM_encrypt S (deriveKey S p salt) iv (TextEncoder_encode t))"
  by (simp add: encrypt_def set_at_def Let_def)

lemma decrypt_packed:
  assumes "base64ToUint8Array env = Inr (salt @ iv @ c)" "length salt = 16" "length iv = 12"
  shows "decrypt S env q =
     (case AES_GCM_decrypt S (deriveKey S q salt) iv c of
        None \<Rightarrow> Inl OperationError
      | Some decrypted \<Rightarrow> Inr (TextDecoder_decode decrypted))"
  using assms by (simp add: decrypt_def slice_def Let_def)

lemma decrypt_encrypt_eq:
  assumes "length salt = 16" "length iv = 12"
  shows "decrypt_encrypt S salt iv t p q =
     (case AES_GCM_decrypt S (deriveKey S q salt) iv
             (AES_GCM_encrypt S (deriveKey S p salt) iv (TextEncoder_encode t)) of
        None \<Rightarrow> Inl OperationError
      | Some decrypted \<Rightarrow> Inr (TextDecoder_decode decrypted))"
proof -
  let ?c = "AES_GCM_encrypt S (deriveKey S p salt) iv (TextEncoder_encode t)"
  obtain env where e: "arrayBufferToBase64 (salt @ iv @ ?c) = Inr env"
    and d: "base64ToUint8Array env = Inr (salt @ iv @ ?c)"
    using atob_btoa_bytes [of "salt @ iv @ ?c"] by blast
  show ?thesis
    unfolding decrypt_encrypt_def encrypt_packs e
    by (simp add: decrypt_packed [OF d assms])
qed

lemma decrypt_encrypt_same_key:
  assumes "aead_correct S" "length salt = 16" "length iv = 12"
    "deriveKey S q salt = deriveKey S p salt"
  shows "decrypt_encrypt S salt iv t p q = Inr (TextDecoder_decode (TextEncoder_encode t))"
  using assms by (simp add: decrypt_encrypt_eq aead_correct_def)

lemma decrypt_encrypt_rejected:
  assumes "length salt = 16" "length iv = 12"
    "AES_GCM_decrypt S (deriveKey S q salt) iv
       (AES_GCM_encrypt S (deriveKey S p salt) iv (TextEncoder_encode t)) = None"
  shows "decrypt_encrypt S salt iv t p q = Inl OperationError"
  using assms by (simp add: decrypt_encrypt_eq)

lemma toy_correct: "aead_correct toy_subtle"
  by (simp add: aead_correct_def toy_subtle_def)

lemma toy_frame:
  "replicate n (1 :: byte) @ 0 # xs = replicate m 1 @ 0 # ys \<Longrightarrow> n = m \<and> xs = ys"
proof (induction n arbitrary: m)
  case 0
  then show ?case by (cases m) simp_all
next
  case (Suc n)
  then show ?case by (cases m) simp_all
qed

lemma toy_seal_inj:
  assumes "toy_seal k @ xs = toy_seal k' @ ys"
  shows "k = k'"
proof -
  from assms have "replicate (length k) (1 :: byte) @ 0 # (k @ xs)
      = replicate (length k') 1 @ 0 # (k' @ ys)"
    by (simp add: toy_seal_def)
  then have "length k = length k'" "k @ xs = k' @ ys" using toy_frame by blast+
  then show ?thesis by simp
qed

lemma toy_rejects:
  assumes "k \<noteq> k'"
  shows "AES_GCM_decrypt toy_subtle k' iv (AES_GCM_encrypt toy_subtle k iv m) = None"
proof -
  have "take (length (toy_seal k')) (toy_seal k @ m) \<noteq> toy_seal k'" if "k \<noteq> k'" for k k' m
  proof
    assume t: "take (length (toy_seal k')) (toy_seal k @ m) = toy_seal k'"
    have "toy_seal k @ m = take (length (toy_seal k')) (toy_seal k @ m)
        @ drop (length (toy_seal k')) (toy_seal k @ m)"
      by (rule append_take_drop_id [symmetric])
    then have "toy_seal k @ m = toy_seal k' @ drop (length (toy_seal k')) (toy_seal k @ m)"
      unfolding t .
    then have "k = k'" by (rule toy_seal_inj)
    with that show False by simp
  qed
  then show ?thesis using assms by (simp add: toy_subtle_def)
qed

lemma text_safe_VERIFY_PHRASE: "text_safe VERIFY_PHRASE"
  by (simp add: text_safe_def VERIFY_PHRASE_def js_def is_high_def is_low_def)

lemma verifyPin_eq:
  "verifyPin S q v = Inr (decrypt S v q = Inr VERIFY_PHRASE)"
  by (cases "decrypt S v q") (simp_all add: verifyPin_def)

lemma verify_created_eq:
  "verify_created S salt iv p q
     = Inr (decrypt_encrypt S salt iv VERIFY_PHRASE p q = Inr VERIFY_PHRASE)"
proof -
  obtain env where e: "encrypt S salt iv VERIFY_PHRASE p = Inr env"
    using atob_btoa_bytes unfolding encrypt_packs by blast
  show ?thesis
    by (simp add: verify_created_def createPinVerifier_def decrypt_encrypt_def e verifyPin_eq)
qed

lemma TextEncoder_inj:
  assumes "TextEncoder_encode p = TextEncoder_encode q"
    "well_formed (map unat p)" "well_formed (map unat q)"
  shows "p = q"
proof -
  have dec: "utf8_decode 0 0 0x80 0xBF (map unat (TextEncoder_encode t)) = scalars (map unat t)"
    for t :: jsstring
  proof -
    have r: "\<forall>u \<in> set (map unat t). u < 0x10000" by (rule unat_units)
    have "map unat (TextEncoder_encode t) = concat (map utf8_bytes (scalars (map unat t)))"
      unfolding TextEncoder_encode_def using scalars_bytes_range [OF r]
      by (rule unat_of_nat_bytes)
    then show ?thesis by (simp add: decode_scalars scalars_valid [OF r])
  qed
  have "scalars (map unat p) = scalars (map unat q)"
    using dec [of p] dec [of q] assms(1) by simp
  then have "concat (map utf16_units (scalars (map unat p)))
      = concat (map utf16_units (scalars (map unat q)))" by simp
  then have "map unat p = map unat q"
    using assms(2,3) by (simp add: scalars_well_formed unat_units)
  then show ?thesis by (simp add: list_eq_iff_nth_eq word_unat_eq_iff)
qed

lemma TextEncoder_BOM: "TextEncoder_encode [0xFEFF, 0x61] = [0xEF, 0xBB, 0xBF, 0x61]"
  by (simp add: TextEncoder_encode_def is_high_def is_low_def utf8_bytes_def)

lemma TextDecoder_BOM: "TextDecoder_decode [0xEF, 0xBB, 0xBF, 0x61] = [0x61]"
  by (simp add: TextDecoder_decode_def utf16_units_def strip_BOM_def)

lemma TextEncoder_lone_surrogate:
  "TextEncoder_encode [0xD800, 0x31, 0x32, 0x33] = TextEncoder_encode [0xFFFD, 0x31, 0x32, 0x33]"
  by (simp add: TextEncoder_encode_def is_high_def is_low_def utf8_bytes_def)

lemma length_salt0_iv0: "length salt0 = 16" "length iv0 = 12"
  by (simp_all add: salt0_def iv0_def)

text \<open>
  C1, as amended. For every passphrase \<open>p\<close> and every plaintext \<open>t\<close> that is well-formed
  UTF-16 (no unpaired surrogate) and does not begin with U+FEFF, \<open>decrypt\<close> of
  \<open>encrypt(t, p)\<close> with \<open>p\<close> returns exactly \<open>t\<close>; for any plaintext it returns \<open>t\<close> as
  \<open>TextDecoder\<close> re-reads the bytes of \<open>TextEncoder\<close>. \<open>encrypt\<close> returns an envelope, and the
  envelope is base64 of the 16-byte salt, the 12-byte nonce and the ciphertext, in this
  order. AES-GCM is assumed to decrypt what it encrypted under the same key and nonce.
\<close>

theorem encrypt_decrypt_round_trip:
  assumes "aead_correct S" "length salt = 16" "length iv = 12"
  shows "(text_safe t \<longrightarrow> decrypt_encrypt S salt iv t p p = Inr t)
     \<and> decrypt_encrypt S salt iv t p p = Inr (TextDecoder_decode (TextEncoder_encode t))
     \<and> (\<exists>env. encrypt S salt iv t p = Inr env
          \<and> base64ToUint8Array env
              = Inr (salt @ iv
                  @ AES_GCM_encrypt S (deriveKey S p salt) iv (TextEncoder_encode t)))"
proof (intro conjI impI)
  show g: "decrypt_encrypt S salt iv t p p = Inr (TextDecoder_decode (TextEncoder_encode t))"
    using assms by (simp add: decrypt_encrypt_same_key)
  assume "text_safe t"
  then show "decrypt_encrypt S salt iv t p p = Inr t"
    by (simp add: g TextDecoder_TextEncoder)
next
  let ?c = "AES_GCM_encrypt S (deriveKey S p salt) iv (TextEncoder_encode t)"
  show "\<exists>env. encrypt S salt iv t p = Inr env
          \<and> base64ToUint8Array env = Inr (salt @ iv @ ?c)"
    unfolding encrypt_packs using atob_btoa_bytes [of "salt @ iv @ ?c"] by blast
qed

theorem encrypt_decrypt_round_trip_witness:
  "aead_correct toy_subtle \<and> length salt0 = 16 \<and> length iv0 = 12
   \<and> text_safe (js ''hello'')
   \<and> decrypt_encrypt toy_subtle salt0 iv0 (js ''hello'') (js ''1234'') (js ''1234'')
       = Inr (js ''hello'')"
proof -
  have t: "text_safe (js ''hello'')"
    by (simp add: text_safe_def js_def is_high_def is_low_def)
  show ?thesis
    using encrypt_decrypt_round_trip [OF toy_correct length_salt0_iv0,
        of "js ''hello''" "js ''1234''"]
      toy_correct length_salt0_iv0 t
    by simp
qed

text \<open>
  C1 as stated fails: the plaintext U+FEFF \<open>a\<close> comes back as \<open>a\<close>, because
  \<open>TextDecoder\<close> drops a leading U+FEFF.
\<close>

theorem round_trip_counterexample:
  "decrypt_encrypt toy_subtle salt0 iv0 [0xFEFF, 0x61] (js ''1234'') (js ''1234'') = Inr [0x61]"
  using decrypt_encrypt_same_key [OF toy_correct length_salt0_iv0,
      of "js ''1234''" "js ''1234''" "[0xFEFF, 0x61]"]
  by (simp add: TextEncoder_BOM TextDecoder_BOM)

text \<open>
  C2, as amended. \<open>verifyPin(p, createPinVerifier(p))\<close> is true for every pin \<open>p\<close>;
  \<open>verifyPin(q, createPinVerifier(p))\<close> is false whenever AES-GCM, under the key derived
  from \<open>q\<close> and the verifier's salt, rejects the verifier's ciphertext, and true whenever
  \<open>TextEncoder\<close> maps \<open>q\<close> and \<open>p\<close> to the same bytes; and \<open>verifyPin\<close> never throws: it
  returns true exactly when \<open>decrypt\<close> succeeds with the marker as its result, and false on
  any failure of \<open>decrypt\<close>.
\<close>

theorem verifyPin_correct:
  "(aead_correct S \<and> length salt = 16 \<and> length iv = 12
      \<longrightarrow> verify_created S salt iv p p = Inr True)
   \<and> (length salt = 16 \<and> length iv = 12
       \<and> AES_GCM_decrypt S (deriveKey S q salt) iv
             (AES_GCM_encrypt S (deriveKey S p salt) iv (TextEncoder_encode VERIFY_PHRASE))
           = None
      \<longrightarrow> verify_created S salt iv p q = Inr False)
   \<and> (aead_correct S \<and> length salt = 16 \<and> length iv = 12
       \<and> TextEncoder_encode q = TextEncoder_encode p
      \<longrightarrow> verify_created S salt iv p q = Inr True)
   \<and> verifyPin S q v = Inr (decrypt S v q = Inr VERIFY_PHRASE)
   \<and> ((\<exists>e. decrypt S v q = Inl e) \<longrightarrow> verifyPin S q v = Inr False)"
proof (intro conjI impI)
  assume "aead_correct S \<and> length salt = 16 \<and> length iv = 12"
  then show "verify_created S salt iv p p = Inr True"
    by (simp add: verify_created_eq decrypt_encrypt_same_key TextDecoder_TextEncoder
        text_safe_VERIFY_PHRASE)
next
  assume "length salt = 16 \<and> length iv = 12
    \<and> AES_GCM_decrypt S (deriveKey S q salt) iv
          (AES_GCM_encrypt S (deriveKey S p salt) iv (TextEncoder_encode VERIFY_PHRASE))
        = None"
  then show "verify_created S salt iv p q = Inr False"
    by (simp add: verify_created_eq decrypt_encrypt_rejected)
next
  assume a: "aead_correct S \<and> length salt = 16 \<and> length iv = 12
    \<and> TextEncoder_encode q = TextEncoder_encode p"
  then have "deriveKey S q salt = deriveKey S p salt" by (simp add: deriveKey_def)
  with a show "verify_created S salt iv p q = Inr True"
    by (simp add: verify_created_eq decrypt_encrypt_same_key TextDecoder_TextEncoder
        text_safe_VERIFY_PHRASE)
next
  show "verifyPin S q v = Inr (decrypt S v q = Inr VERIFY_PHRASE)" by (rule verifyPin_eq)
next
  assume "\<exists>e. decrypt S v q = Inl e"
  then show "verifyPin S q v = Inr False" by (auto simp: verifyPin_eq)
qed

theorem verifyPin_correct_witness:
  "aead_correct toy_subtle \<and> length salt0 = 16 \<and> length iv0 = 12
   \<and> AES_GCM_decrypt toy_subtle (deriveKey toy_subtle (js ''4321'') salt0) iv0
         (AES_GCM_encrypt toy_subtle (deriveKey toy_subtle (js ''1234'') salt0) iv0
            (TextEncoder_encode VERIFY_PHRASE))
       = None
   \<and> verify_created toy_subtle salt0 iv0 (js ''1234'') (js ''1234'') = Inr True
   \<and> verify_created toy_subtle salt0 iv0 (js ''1234'') (js ''4321'') = Inr False
   \<and> TextEncoder_encode [0xDC00] = TextEncoder_encode [0xFFFD]
   \<and> verify_created toy_subtle salt0 iv0 [0xFFFD] [0xDC00] = Inr True
   \<and> decrypt toy_subtle (js ''!'') (js ''4321'') = Inl InvalidCharacterError
   \<and> verifyPin toy_subtle (js ''4321'') (js ''!'') = Inr False"
proof -
  have k: "deriveKey toy_subtle (js ''4321'') salt0 \<noteq> deriveKey toy_subtle (js ''1234'') salt0"
    by (simp add: deriveKey_def toy_subtle_def TextEncoder_encode_def js_def is_high_def
        is_low_def utf8_bytes_def)
  have r: "AES_GCM_decrypt toy_subtle (deriveKey toy_subtle (js ''4321'') salt0) iv0
         (AES_GCM_encrypt toy_subtle (deriveKey toy_subtle (js ''1234'') salt0) iv0
            (TextEncoder_encode VERIFY_PHRASE))
       = None"
    by (rule toy_rejects) (rule k [symmetric])
  have d: "decrypt toy_subtle (js ''!'') (js ''4321'') = Inl InvalidCharacterError"
    by (simp add: decrypt_def base64ToUint8Array_def atob_def js_def ascii_whitespace_def
        strip_padding_def)
  have c: "TextEncoder_encode [0xDC00] = TextEncoder_encode [0xFFFD]"
    by (simp add: TextEncoder_encode_def is_high_def is_low_def utf8_bytes_def)
  show ?thesis
    using verifyPin_correct [of toy_subtle salt0 iv0 "js ''1234''" "js ''4321''" "js ''!''"]
      verifyPin_correct [of toy_subtle salt0 iv0 "[0xFFFD]" "[0xDC00]" "js ''!''"]
      toy_correct length_salt0_iv0 r d c
    by simp
qed

text \<open>
  C2 as stated fails for distinct pins that \<open>TextEncoder\<close> maps to the same bytes: an
  unpaired surrogate is encoded as U+FFFD, so the two pins below derive the same key.
\<close>

theorem verifyPin_distinct_pins_counterexample:
  "[0xD800, 0x31, 0x32, 0x33] \<noteq> [0xFFFD, 0x31, 0x32, 0x33 :: 16 word]
   \<and> verify_created toy_subtle salt0 iv0 [0xD800, 0x31, 0x32, 0x33] [0xFFFD, 0x31, 0x32, 0x33]
       = Inr True"
proof -
  have "deriveKey toy_subtle [0xFFFD, 0x31, 0x32, 0x33] salt0
      = deriveKey toy_subtle [0xD800, 0x31, 0x32, 0x33] salt0"
    by (simp only: deriveKey_def TextEncoder_lone_surrogate)
  from decrypt_encrypt_same_key [OF toy_correct length_salt0_iv0 this, of VERIFY_PHRASE]
  show ?thesis
    by (simp add: verify_created_eq TextDecoder_TextEncoder text_safe_VERIFY_PHRASE)
qed

section \<open>Properties of the remote store\<close>

lemma validateToken_returns: "\<exists>v. validateToken gh token = Inr v"
  unfolding validateToken_def by (rule try_catch_returns) simp

lemma findVaultGist_returns: "\<exists>v. findVaultGist gh token = Inr v"
  unfolding findVaultGist_def by (rule try_catch_returns) simp

lemma loadFromGist_returns: "\<exists>v. loadFromGist gh parse token gistId = Inr v"
  unfolding loadFromGist_def by (rule try_catch_returns) simp

lemma saveToGist_returns:
  assumes "str data = Inr body"
  shows "\<exists>v. saveToGist gh str token gistId data = Inr v"
  unfolding saveToGist_def assms sum.case by (rule try_catch_returns) simp

lemma saveToGist_throws: "str data = Inl e \<Longrightarrow> saveToGist gh str token gistId data = Inl e"
  by (simp add: saveToGist_def)

lemma deleteGist_returns: "\<exists>v. deleteGist gh token gistId = Inr v"
  unfolding deleteGist_def by (rule try_catch_returns) (rule exI, rule refl)

lemma validateToken_failed:
  "failed (get_user gh token) \<Longrightarrow> validateToken gh token = Inr \<lparr>valid = False, username = None\<rparr>"
  by (auto simp: validateToken_def failed_def json_of_def
      split: fetch_result.splits json_body.splits)

lemma pages_failed:
  "failed (list_gists gh token 1)
    \<Longrightarrow> try_catch (findVaultGist_pages gh token 1) (\<lambda>_. Inr None) = Inr None"
  "failed (list_gists gh token 2)
    \<Longrightarrow> try_catch (findVaultGist_pages gh token 2) (\<lambda>_. Inr None) = Inr None"
  "failed (list_gists gh token 3)
    \<Longrightarrow> try_catch (findVaultGist_pages gh token 3) (\<lambda>_. Inr None) = Inr None"
  by (subst findVaultGist_pages.simps,
      auto simp del: findVaultGist_pages.simps simp: failed_def json_of_def eval_nat_numeral
        split: fetch_result.splits json_body.splits)+

lemma pages_next:
  "no_vault_on (list_gists gh token 1)
    \<Longrightarrow> findVaultGist_pages gh token 1 = findVaultGist_pages gh token 2"
  "no_vault_on (list_gists gh token 2)
    \<Longrightarrow> findVaultGist_pages gh token 2 = findVaultGist_pages gh token 3"
  "no_vault_on (list_gists gh token 3)
    \<Longrightarrow> findVaultGist_pages gh token 3 = findVaultGist_pages gh token 4"
  by (subst findVaultGist_pages.simps,
      auto simp del: findVaultGist_pages.simps
        simp: no_vault_on_def json_of_def eval_nat_numeral
        split: fetch_result.splits json_body.splits)+

lemma pages_found:
  "list_gists gh token 2 = Response status (JsonValue gists)
    \<Longrightarrow> ok status \<Longrightarrow> find (\<lambda>g. files g GIST_FILENAME \<noteq> None) gists = Some found
    \<Longrightarrow> findVaultGist_pages gh token 2 = Inr (Some (id' found))"
  by (subst findVaultGist_pages.simps)
    (auto simp del: findVaultGist_pages.simps simp: json_of_def eval_nat_numeral)

lemma pages_end: "findVaultGist_pages gh token 4 = Inr None"
  by (subst findVaultGist_pages.simps) simp

lemma findVaultGist_failed:
  "failed (list_gists gh token 1) \<Longrightarrow> findVaultGist gh token = Inr None"
  "no_vault_on (list_gists gh token 1) \<Longrightarrow> failed (list_gists gh token 2)
    \<Longrightarrow> findVaultGist gh token = Inr None"
  "no_vault_on (list_gists gh token 1) \<Longrightarrow> no_vault_on (list_gists gh token 2)
    \<Longrightarrow> failed (list_gists gh token 3) \<Longrightarrow> findVaultGist gh token = Inr None"
  by (simp_all only: findVaultGist_def pages_next pages_failed)

lemma findVaultGist_exhausted:
  "no_vault_on (list_gists gh token 1) \<Longrightarrow> no_vault_on (list_gists gh token 2)
    \<Longrightarrow> no_vault_on (list_gists gh token 3) \<Longrightarrow> findVaultGist gh token = Inr None"
  by (simp only: findVaultGist_def pages_next pages_end try_catch_Inr)

lemma findVaultGist_second_page:
  "no_vault_on (list_gists gh token 1)
    \<Longrightarrow> list_gists gh token 2 = Response status (JsonValue gists) \<Longrightarrow> ok status
    \<Longrightarrow> find (\<lambda>g. files g GIST_FILENAME \<noteq> None) gists = Some found
    \<Longrightarrow> findVaultGist gh token = Inr (Some (id' found))"
  by (simp only: findVaultGist_def pages_next pages_found try_catch_Inr)

lemma loadFromGist_failed:
  "failed (get_gist gh token gistId) \<Longrightarrow> loadFromGist gh parse token gistId = Inr None"
  by (auto simp: loadFromGist_def failed_def json_of_def
      split: fetch_result.splits json_body.splits)

lemma delivered_Some:
  "delivered r = Some gist \<Longrightarrow> \<exists>status. r = Response status (JsonValue gist) \<and> ok status"
  by (auto simp: delivered_def split: fetch_result.splits json_body.splits if_splits)

lemma loadFromGist_delivered:
  assumes "delivered (get_gist gh token gistId) = Some gist"
  shows "loadFromGist gh parse token gistId =
     (case files gist GIST_FILENAME of
        None \<Rightarrow> Inr None
      | Some file \<Rightarrow> (case parse (content file) of None \<Rightarrow> Inr None | Some d \<Rightarrow> Inr (Some d)))"
proof -
  obtain status where "get_gist gh token gistId = Response status (JsonValue gist)" "ok status"
    using delivered_Some [OF assms] by blast
  then show ?thesis
    by (simp add: loadFromGist_def json_of_def split: option.splits)
qed

lemma saveToGist_update_failed:
  "str data = Inr body \<Longrightarrow> truthy gistId \<Longrightarrow> refused (patch_gist gh token (the gistId) body)
    \<Longrightarrow> saveToGist gh str token gistId data = Inr None"
  by (auto simp: saveToGist_def refused_def split: fetch_result.splits)

lemma saveToGist_updated:
  "str data = Inr body \<Longrightarrow> truthy gistId
    \<Longrightarrow> \<not> refused (patch_gist gh token (the gistId) body)
    \<Longrightarrow> saveToGist gh str token gistId data = Inr gistId"
  by (auto simp: saveToGist_def refused_def split: fetch_result.splits)

lemma saveToGist_create_failed:
  "str data = Inr body \<Longrightarrow> \<not> truthy gistId \<Longrightarrow> failed (post_gists gh token body)
    \<Longrightarrow> saveToGist gh str token gistId data = Inr None"
  by (auto simp: saveToGist_def failed_def json_of_def
      split: fetch_result.splits json_body.splits)

lemma deleteGist_failed:
  "refused (delete_gist gh token gistId) \<Longrightarrow> deleteGist gh token gistId = Inr False"
  by (auto simp: deleteGist_def refused_def ok_def split: fetch_result.splits)

text \<open>
  C7, as amended. \<open>validateToken\<close>, \<open>findVaultGist\<close>, \<open>loadFromGist\<close> and \<open>deleteGist\<close> raise
  no error to their caller, whatever the token, the handle and the outcome of the
  transport, and \<open>saveToGist\<close> raises none once \<open>JSON.stringify\<close> has returned the text of
  the dataset: each returns a value. Every failure gives the sentinel. A request that
  rejects, is answered with a status outside 200-299 or has a body that cannot be read:
  \<open>{valid: false}\<close> for \<open>validateToken\<close>; \<open>null\<close> for \<open>findVaultGist\<close>, at the first page and
  at a later page reached because the pages before held no vault gist, as when all three
  pages hold none; \<open>null\<close> for \<open>loadFromGist\<close>, as when the gist has no vault file or the
  content of the file does not parse; \<open>null\<close> for \<open>saveToGist\<close>, updating or creating;
  \<open>false\<close> for \<open>deleteGist\<close>. Where nothing fails the value is the result: the id of the
  vault gist found on a later page, the parsed dataset, the handle that was updated.
\<close>

theorem remote_store_never_throws:
  "(\<exists>v. validateToken gh token = Inr v)
   \<and> (\<exists>v. findVaultGist gh token = Inr v)
   \<and> (\<exists>v. loadFromGist gh parse token gistId = Inr v)
   \<and> (\<exists>v. deleteGist gh token gistId = Inr v)
   \<and> (str data = Inr body \<longrightarrow> (\<exists>v. saveToGist gh str token handle data = Inr v))
   \<and> (failed (get_user gh token)
        \<longrightarrow> validateToken gh token = Inr \<lparr>valid = False, username = None\<rparr>)
   \<and> (failed (list_gists gh token 1) \<longrightarrow> findVaultGist gh token = Inr None)
   \<and> (no_vault_on (list_gists gh token 1) \<and> failed (list_gists gh token 2)
        \<longrightarrow> findVaultGist gh token = Inr None)
   \<and> (no_vault_on (list_gists gh token 1) \<and> no_vault_on (list_gists gh token 2)
        \<and> failed (list_gists gh token 3)
        \<longrightarrow> findVaultGist gh token = Inr None)
   \<and> (no_vault_on (list_gists gh token 1) \<and> no_vault_on (list_gists gh token 2)
        \<and> no_vault_on (list_gists gh token 3)
        \<longrightarrow> findVaultGist gh token = Inr None)
   \<and> (no_vault_on (list_gists gh token 1)
        \<and> list_gists gh token 2 = Response status (JsonValue gists) \<and> ok status
        \<and> find (\<lambda>g. files g GIST_FILENAME \<noteq> None) gists = Some found
        \<longrightarrow> findVaultGist gh token = Inr (Some (id' found)))
   \<and> (failed (get_gist gh token gistId)
        \<longrightarrow> loadFromGist gh parse token gistId = Inr None)
   \<and> (delivered (get_gist gh token gistId) = Some gist \<and> files gist GIST_FILENAME = None
        \<longrightarrow> loadFromGist gh parse token gistId = Inr None)
   \<and> (delivered (get_gist gh token gistId) = Some gist
        \<and> files gist GIST_FILENAME = Some vfile \<and> parse (content vfile) = None
        \<longrightarrow> loadFromGist gh parse token gistId = Inr None)
   \<and> (delivered (get_gist gh token gistId) = Some gist
        \<and> files gist GIST_FILENAME = Some vfile \<and> parse (content vfile) = Some d
        \<longrightarrow> loadFromGist gh parse token gistId = Inr (Some d))
   \<and> (str data = Inr body \<and> truthy handle \<and> refused (patch_gist gh token (the handle) body)
        \<longrightarrow> saveToGist gh str token handle data = Inr None)
   \<and> (str data = Inr body \<and> truthy handle
        \<and> \<not> refused (patch_gist gh token (the handle) body)
        \<longrightarrow> saveToGist gh str token handle data = Inr handle)
   \<and> (str data = Inr body \<and> \<not> truthy handle \<and> failed (post_gists gh token body)
        \<longrightarrow> saveToGist gh str token handle data = Inr None)
   \<and> (refused (delete_gist gh token gistId) \<longrightarrow> deleteGist gh token gistId = Inr False)"
proof (intro conjI impI)
  show "\<exists>v. validateToken gh token = Inr v" by (rule validateToken_returns)
  show "\<exists>v. findVaultGist gh token = Inr v" by (rule findVaultGist_returns)
  show "\<exists>v. loadFromGist gh parse token gistId = Inr v" by (rule loadFromGist_returns)
  show "\<exists>v. deleteGist gh token gistId = Inr v" by (rule deleteGist_returns)
  show "\<exists>v. saveToGist gh str token handle data = Inr v" if "str data = Inr body"
    using that by (rule saveToGist_returns)
  show "validateToken gh token = Inr \<lparr>valid = False, username = None\<rparr>"
    if "failed (get_user gh token)"
    using that by (rule validateToken_failed)
  show "findVaultGist gh token = Inr None" if "failed (list_gists gh token 1)"
    using that by (rule findVaultGist_failed(1))
  show "findVaultGist gh token = Inr None"
    if "no_vault_on (list_gists gh token 1) \<and> failed (list_gists gh token 2)"
    using that by (simp add: findVaultGist_failed(2))
  show "findVaultGist gh token = Inr None"
    if "no_vault_on (list_gists gh token 1) \<and> no_vault_on (list_gists gh token 2)
        \<and> failed (list_gists gh token 3)"
    using that by (simp add: findVaultGist_failed(3))
  show "findVaultGist gh token = Inr None"
    if "no_vault_on (list_gists gh token 1) \<and> no_vault_on (list_gists gh token 2)
        \<and> no_vault_on (list_gists gh token 3)"
    using that by (simp add: findVaultGist_exhausted)
  show "findVaultGist gh token = Inr (Some (id' found))"
    if "no_vault_on (list_gists gh token 1)
        \<and> list_gists gh token 2 = Response status (JsonValue gists) \<and> ok status
        \<and> find (\<lambda>g. files g GIST_FILENAME \<noteq> None) gists = Some found"
    using that findVaultGist_second_page [of gh token status gists found] by blast
  show "loadFromGist gh parse token gistId = Inr None" if "failed (get_gist gh token gistId)"
    using that by (rule loadFromGist_failed)
  show "loadFromGist gh parse token gistId = Inr None"
    if "delivered (get_gist gh token gistId) = Some gist \<and> files gist GIST_FILENAME = None"
    using that by (simp add: loadFromGist_delivered)
  show "loadFromGist gh parse token gistId = Inr None"
    if "delivered (get_gist gh token gistId) = Some gist
        \<and> files gist GIST_FILENAME = Some vfile \<and> parse (content vfile) = None"
    using that by (simp add: loadFromGist_delivered)
  show "loadFromGist gh parse token gistId = Inr (Some d)"
    if "delivered (get_gist gh token gistId) = Some gist
        \<and> files gist GIST_FILENAME = Some vfile \<and> parse (content vfile) = Some d"
    using that by (simp add: loadFromGist_delivered)
  show "saveToGist gh str token handle data = Inr None"
    if "str data = Inr body \<and> truthy handle \<and> refused (patch_gist gh token (the handle) body)"
    using that by (simp add: saveToGist_update_failed)
  show "saveToGist gh str token handle data = Inr handle"
    if "str data = Inr body \<and> truthy handle
        \<and> \<not> refused (patch_gist gh token (the handle) body)"
    using that by (simp add: saveToGist_updated)
  show "saveToGist gh str token handle data = Inr None"
    if "str data = Inr body \<and> \<not> truthy handle \<and> failed (post_gists gh token body)"
    using that by (simp add: saveToGist_create_failed)
  show "deleteGist gh token gistId = Inr False" if "refused (delete_gist gh token gistId)"
    using that by (rule deleteGist_failed)
qed

theorem remote_store_never_throws_witness:
  "validateToken github_down (js ''t'') = Inr \<lparr>valid = False, username = None\<rparr>
   \<and> findVaultGist github_down (js ''t'') = Inr None
   \<and> findVaultGist (github_listing 1) (js ''t'') = Inr None
   \<and> findVaultGist (github_listing 2) (js ''t'') = Inr None
   \<and> findVaultGist (github_listing 3) (js ''t'') = Inr None
   \<and> findVaultGist github_second_page (js ''t'') = Inr (Some (js ''g1''))
   \<and> loadFromGist github_down toy_parse (js ''t'') (js ''g'') = Inr None
   \<and> loadFromGist github_without_file toy_parse (js ''t'') (js ''g'') = Inr None
   \<and> loadFromGist (github_serving []) toy_parse (js ''t'') (js ''g'') = Inr None
   \<and> loadFromGist (github_serving (js ''ab'')) toy_parse (js ''t'') (js ''g'')
       = Inr (Some \<lparr>prompts = js ''ab'', version = 1, lastSync = 0\<rparr>)
   \<and> saveToGist github_down toy_stringify2 (js ''t'') (Some (js ''g''))
        \<lparr>prompts = js ''ab'', version = 1, lastSync = 0\<rparr> = Inr None
   \<and> saveToGist github_down toy_stringify2 (js ''t'') None
        \<lparr>prompts = js ''ab'', version = 1, lastSync = 0\<rparr> = Inr None
   \<and> saveToGist github_lost toy_stringify2 (js ''t'') (Some (js ''g''))
        \<lparr>prompts = js ''ab'', version = 1, lastSync = 0\<rparr> = Inr (Some (js ''g''))
   \<and> deleteGist github_down (js ''t'') (js ''g'') = Inr False"
proof -
  let ?d = "\<lparr>prompts = js ''ab'', version = 1, lastSync = 0\<rparr> :: 16 word VaultData"
  let ?f = "\<lparr>filename = GIST_FILENAME, content = []\<rparr>"
  let ?f' = "\<lparr>filename = GIST_FILENAME, content = js ''ab''\<rparr>"
  note at = remote_store_never_throws [where token = "js ''t''" and parse = toy_parse
      and gistId = "js ''g''" and str = toy_stringify2 and data = ?d and body = "js ''ab''"
      and status = 200 and gists = "[other_gist, gist_with (js ''g1'') []]"
      and found = "gist_with (js ''g1'') []" and d = ?d]
  have o: "ok 200" by (simp add: ok_def)
  have v: "find (\<lambda>g. files g GIST_FILENAME \<noteq> None) [other_gist] = None"
    "find (\<lambda>g. files g GIST_FILENAME \<noteq> None) [other_gist, gist_with (js ''g1'') []]
      = Some (gist_with (js ''g1'') [])"
    by (simp_all add: other_gist_def gist_with_def)
  have t: "truthy (Some (js ''g''))" "\<not> truthy None" by (simp_all add: truthy_def js_def)
  have s: "toy_stringify2 ?d = Inr (js ''ab'')" by (simp add: toy_stringify2_def)
  have down: "validateToken github_down (js ''t'') = Inr \<lparr>valid = False, username = None\<rparr>
      \<and> findVaultGist github_down (js ''t'') = Inr None
      \<and> loadFromGist github_down toy_parse (js ''t'') (js ''g'') = Inr None
      \<and> saveToGist github_down toy_stringify2 (js ''t'') (Some (js ''g'')) ?d = Inr None
      \<and> deleteGist github_down (js ''t'') (js ''g'') = Inr False"
    using at [where gh = github_down and handle = "Some (js ''g'')" and gist = other_gist
        and vfile = ?f] t s
    by (simp add: github_down_def failed_def refused_def)
  have create: "saveToGist github_down toy_stringify2 (js ''t'') None ?d = Inr None"
    using at [where gh = github_down and handle = None and gist = other_gist and vfile = ?f] t s
    by (simp add: github_down_def failed_def)
  have update: "saveToGist github_lost toy_stringify2 (js ''t'') (Some (js ''g'')) ?d
      = Inr (Some (js ''g''))"
    using at [where gh = github_lost and handle = "Some (js ''g'')" and gist = other_gist
        and vfile = ?f] o t s
    by (simp add: github_lost_def github_down_def refused_def)
  have p1: "findVaultGist (github_listing 1) (js ''t'') = Inr None"
    using at [where gh = "github_listing 1" and handle = None and gist = other_gist
        and vfile = ?f] o v
    by (simp add: github_listing_def github_down_def failed_def no_vault_on_def)
  have p2: "findVaultGist (github_listing 2) (js ''t'') = Inr None"
    using at [where gh = "github_listing 2" and handle = None and gist = other_gist
        and vfile = ?f] o v
    by (simp add: github_listing_def github_down_def failed_def no_vault_on_def)
  have p3: "findVaultGist (github_listing 3) (js ''t'') = Inr None"
    using at [where gh = "github_listing 3" and handle = None and gist = other_gist
        and vfile = ?f] o v
    by (simp add: github_listing_def github_down_def failed_def no_vault_on_def)
  have found: "findVaultGist github_second_page (js ''t'') = Inr (Some (js ''g1''))"
    using at [where gh = github_second_page and handle = None and gist = other_gist
        and vfile = ?f] o v
    by (simp add: github_second_page_def github_down_def no_vault_on_def gist_with_def)
  have nofile: "loadFromGist github_without_file toy_parse (js ''t'') (js ''g'') = Inr None"
    using at [where gh = github_without_file and handle = None and gist = other_gist
        and vfile = ?f] o
    by (simp add: github_without_file_def github_down_def delivered_def other_gist_def)
  have noparse: "loadFromGist (github_serving []) toy_parse (js ''t'') (js ''g'') = Inr None"
    using at [where gh = "github_serving []" and handle = None
        and gist = "gist_with (js ''g'') []" and vfile = ?f] o
    by (simp add: github_serving_def github_down_def delivered_def gist_with_def toy_parse_def)
  have parsed: "loadFromGist (github_serving (js ''ab'')) toy_parse (js ''t'') (js ''g'')
       = Inr (Some \<lparr>prompts = js ''ab'', version = 1, lastSync = 0\<rparr>)"
    using at [where gh = "github_serving (js ''ab'')" and handle = None
        and gist = "gist_with (js ''g'') (js ''ab'')" and vfile = ?f'] o
    by (simp add: github_serving_def github_down_def delivered_def gist_with_def toy_parse_def
        js_def)
  from down create update p1 p2 p3 found nofile noparse parsed show ?thesis by simp
qed

text \<open>
  C7 as stated fails for \<open>saveToGist\<close>: on a dataset that holds a BigInt,
  \<open>JSON.stringify\<close> throws before the \<open>try\<close> is entered, and \<open>saveToGist\<close> throws the TypeError
  to its caller instead of returning \<open>null\<close>.
\<close>

theorem saveToGist_throws_counterexample:
  "saveToGist github_down (stringify_values (\<lambda>d. [])) (js ''t'') None
     \<lparr>prompts = [Plain (JNumber 1), BigInt 1], version = 1, lastSync = 0\<rparr> = Inl TypeError"
  by (simp add: saveToGist_def stringify_values_def is_BigInt_def)

section \<open>Properties of the application: helpers\<close>

lemma LS_keys_distinct [simp]:
  "LS_ENCRYPTED_TOKEN \<noteq> LS_ENCRYPTED_CACHE" "LS_ENCRYPTED_CACHE \<noteq> LS_ENCRYPTED_TOKEN"
  "LS_ENCRYPTED_TOKEN \<noteq> LS_GIST_ID" "LS_GIST_ID \<noteq> LS_ENCRYPTED_TOKEN"
  "LS_ENCRYPTED_CACHE \<noteq> LS_GIST_ID" "LS_GIST_ID \<noteq> LS_ENCRYPTED_CACHE"
  by (simp_all add: LS_ENCRYPTED_TOKEN_def LS_ENCRYPTED_CACHE_def LS_GIST_ID_def js_def)

lemmas setters = setPrompts_def setDataLoaded_def setSyncStatus_def setSyncMessage_def
  set_tokenRef_def setItem_def commit_def await_def torn_down_def

lemma truthy_Some [simp]: "truthy (Some v) = (v \<noteq> [])"
  by (simp add: truthy_def)

lemma truthy_None [simp]: "\<not> truthy None"
  by (simp add: truthy_def)

lemma seq_simps [simp]:
  "seq (Throw s) f = Throw s" "seq (Return s) f = Return s" "seq (Continue s) f = f s"
  by (simp_all add: seq_def)

lemma state_of_simps [simp]:
  "state_of (Throw s) = s" "state_of (Return s) = s" "state_of (Continue s) = s"
  by (simp_all add: state_of_def)

lemma encrypt_returns: "\<exists>env. encrypt S salt iv t p = Inr env"
  using atob_btoa_bytes unfolding encrypt_packs by blast

lemma encrypt'_returns: "\<exists>env. encrypt' P t p = Inr env"
  unfolding encrypt'_def by (rule encrypt_returns)

lemma getDefaultData_prompts [simp]: "prompts (getDefaultData P) = default_prompts P"
  by (simp add: getDefaultData_def)

lemma mount_simps [simp]:
  "prompts' (mount st td :: 'p app) = []" "dataLoaded (mount st td :: 'p app) = False"
  "syncStatus (mount st td :: 'p app) = idle" "syncMessage (mount st td :: 'p app) = []"
  "tokenRef (mount st td :: 'p app) = None" "localStorage (mount st td :: 'p app) = st"
  "awaits (mount st td :: 'p app) = 0" "teardown (mount st td :: 'p app) = td"
  "stale_writes (mount st td :: 'p app) = []" "upserts (mount st td :: 'p app) = []"
  "saveTimeoutRef (mount st td :: 'p app) = None" "timers (mount st td :: 'p app) = []"
  by (simp_all add: mount_def)


lemma envelope_of_encrypt: "encrypt S salt iv t p = Inr (envelope_of (encrypt S salt iv t p))"
  using encrypt_returns [of S salt iv t p] by (auto simp: envelope_of_def)

lemma envelope_of_encrypt': "encrypt' P t p = Inr (envelope_of (encrypt' P t p))"
  unfolding encrypt'_def by (rule envelope_of_encrypt)

lemma base64ToUint8Array_empty: "base64ToUint8Array [] = Inr []"
  by (simp add: base64ToUint8Array_def atob_def strip_padding_def)

lemma envelope_nonempty:
  assumes "length salt = 16"
  shows "envelope_of (encrypt S salt iv t p) \<noteq> []"
proof
  assume e: "envelope_of (encrypt S salt iv t p) = []"
  let ?c = "AES_GCM_encrypt S (deriveKey S p salt) iv (TextEncoder_encode t)"
  obtain env where "arrayBufferToBase64 (salt @ iv @ ?c) = Inr env"
    and d: "base64ToUint8Array env = Inr (salt @ iv @ ?c)"
    using atob_btoa_bytes [of "salt @ iv @ ?c"] by blast
  then have "env = []" using e by (simp add: encrypt_packs envelope_of_def)
  with d assms show False by (auto simp: base64ToUint8Array_empty)
qed

lemma decrypt_envelope_of:
  assumes "aead_correct S" "length salt = 16" "length iv = 12" "text_safe t"
  shows "decrypt S (envelope_of (encrypt S salt iv t p)) p = Inr t"
proof -
  have "decrypt_encrypt S salt iv t p p = decrypt S (envelope_of (encrypt S salt iv t p)) p"
    unfolding decrypt_encrypt_def by (subst envelope_of_encrypt) simp
  then show ?thesis
    using decrypt_encrypt_same_key [OF assms(1-3), of p p t] assms(4)
    by (simp add: TextDecoder_TextEncoder)
qed

lemma stored_simps:
  "stored t \<noteq> []" "text_safe t \<Longrightarrow> decrypt toy_subtle (stored t) pin0 = Inr t"
  unfolding stored_def
  by (simp_all add: envelope_nonempty decrypt_envelope_of toy_correct length_salt0_iv0)

lemma text_safe_examples:
  "text_safe token0" "text_safe (js ''abcd'')" "text_safe (js ''vwxyz'')" "text_safe (js ''xyz'')"
  by (simp_all add: text_safe_def token0_def js_def is_high_def is_low_def)

lemma storage0_simps:
  "storage0 LS_ENCRYPTED_TOKEN = Some (stored token0)"
  "storage0 LS_ENCRYPTED_CACHE = Some (stored (js ''abcd''))"
  "storage0 LS_GIST_ID = Some (js ''g1'')"
  by (simp_all add: storage0_def)

lemma storage_bad_token_simps:
  "storage_bad_token LS_ENCRYPTED_TOKEN = Some (js ''!'')"
  "storage_bad_token LS_ENCRYPTED_CACHE = Some (stored (js ''abcd''))"
  "storage_bad_token LS_GIST_ID = None"
  by (simp_all add: storage_bad_token_def)

lemma toy_platform_simps [simp]:
  "subtle_crypto (toy_platform gh) = toy_subtle" "random_salt (toy_platform gh) = salt0"
  "random_iv (toy_platform gh) = iv0" "JSON_parse (toy_platform gh) = toy_parse"
  "JSON_stringify (toy_platform gh) = toy_stringify"
  "JSON_stringify2 (toy_platform gh) = toy_stringify2" "network (toy_platform gh) = gh"
  "default_prompts (toy_platform gh) = js ''xyz''"
  by (simp_all add: toy_platform_def)

lemma toy_envelope:
  "envelope_of (encrypt' (toy_platform gh) t pin0) = stored t"
  by (simp add: encrypt'_def stored_def)

lemma js_nonempty [simp]: "js (c # cs) \<noteq> []"
  by (simp add: js_def)

lemma decrypt_bad_envelope: "decrypt S (js ''!'') p = Inl InvalidCharacterError"
  by (simp add: decrypt_def base64ToUint8Array_def atob_def js_def ascii_whitespace_def
      strip_padding_def)

lemma loadFromGist_serving:
  "text \<noteq> [] \<Longrightarrow> loadFromGist (github_serving text) toy_parse token gistId
     = Inr (Some \<lparr>prompts = text, version = 1, lastSync = 0\<rparr>)"
  by (simp add: loadFromGist_def github_serving_def github_down_def ok_def json_of_def
      gist_with_def toy_parse_def)

lemma loadFromGist_lost: "loadFromGist github_lost parse token gistId = Inr None"
  by (simp add: loadFromGist_def github_lost_def github_down_def ok_def)

lemma saveToGist_lost:
  "saveToGist github_lost toy_stringify2 token None data = Inr (Some (js ''g2''))"
  by (simp add: saveToGist_def toy_stringify2_def github_lost_def github_down_def ok_def
      json_of_def gist_with_def)

lemma saveToGist_down: "saveToGist github_down toy_stringify2 token gistId data = Inr None"
  by (simp add: saveToGist_def toy_stringify2_def github_down_def)

section \<open>Properties of bootstrap\<close>

lemma init_token_fails:
  assumes "localStorage s LS_ENCRYPTED_TOKEN = Some encToken" "encToken \<noteq> []"
    "decrypt (subtle_crypto P) encToken pin = Inl e"
  shows "init_token P pin s = Throw (await s)"
  using assms by (simp add: init_token_def)

lemma init_token_ok:
  assumes "localStorage s LS_ENCRYPTED_TOKEN = Some encToken" "encToken \<noteq> []"
    "decrypt (subtle_crypto P) encToken pin = Inr tok"
  shows "init_token P pin s = Continue (set_tokenRef 624 (Some tok) (await s))"
  using assms by (simp add: init_token_def)

lemma init_cache_ok:
  assumes "localStorage s LS_ENCRYPTED_CACHE = Some encCache" "encCache \<noteq> []"
    "decrypt (subtle_crypto P) encCache pin = Inr cacheJson"
    "JSON_parse P cacheJson = Some cacheData" "teardown s = None"
  shows "init_cache P pin s
    = Continue (setDataLoaded 635 True (setPrompts 634 (prompts cacheData) (await s)))"
  using assms by (simp add: init_cache_def torn_down_def await_def)

lemma init_cache_frame:
  "\<exists>s'. init_cache P pin s = Continue s' \<and> tokenRef s' = tokenRef s
     \<and> localStorage s' = localStorage s \<and> teardown s' = teardown s \<and> upserts s' = upserts s
     \<and> syncStatus s' = syncStatus s \<and> syncMessage s' = syncMessage s"
  by (auto simp: init_cache_def Let_def setters split: sum.splits option.splits)

lemma init_sync_remote:
  assumes "tokenRef s = Some token" "token \<noteq> []" "teardown s = None"
    "localStorage s LS_GIST_ID = Some gistId" "gistId \<noteq> []"
    "loadFromGist (network P) (JSON_parse P) token gistId = Inr (Some remote)"
  shows "\<exists>s'. init_sync P pin dl s = Return s' \<and> prompts' s' = prompts remote
     \<and> localStorage s' = (localStorage s)(LS_ENCRYPTED_CACHE \<mapsto>
           envelope_of (encrypt' P (JSON_stringify P remote) pin))
     \<and> syncStatus s' = synced \<and> syncMessage s' = MSG_SYNCED \<and> dataLoaded s'
     \<and> upserts s' = upserts s \<and> tokenRef s' = tokenRef s"
proof -
  obtain env where e: "encrypt' P (JSON_stringify P remote) pin = Inr env"
    using encrypt'_returns by blast
  then have "envelope_of (encrypt' P (JSON_stringify P remote) pin) = env"
    by (simp add: envelope_of_def)
  then show ?thesis
    using assms e by (simp add: init_sync_def init_known_gist_def Let_def setters)
qed

lemma init_sync_fetch_failed:
  assumes "tokenRef s = Some token" "token \<noteq> []" "teardown s = None"
    "localStorage s LS_GIST_ID = Some gistId" "gistId \<noteq> []"
    "loadFromGist (network P) (JSON_parse P) token gistId = Inr None"
    "saveToGist (network P) (JSON_stringify2 P) token None (getDefaultData P) = Inr newGistId"
  shows "\<exists>s'. init_sync P pin False s = Continue s' \<and> prompts' s' = default_prompts P
     \<and> syncStatus s' = synced \<and> dataLoaded s'
     \<and> upserts s' = upserts s @ [(token, None, getDefaultData P)]
     \<and> tokenRef s' = tokenRef s"
  using assms
    encrypt'_returns [of P "JSON_stringify P (getDefaultData P)" pin]
  by (auto simp: init_sync_def init_known_gist_def init_defaults_def Let_def
      setters split: sum.splits)


lemma init_sync_fetch_failed_storage:
  assumes "tokenRef s = Some token" "token \<noteq> []" "teardown s = None"
    "localStorage s LS_GIST_ID = Some gistId" "gistId \<noteq> []"
    "loadFromGist (network P) (JSON_parse P) token gistId = Inr None"
    "saveToGist (network P) (JSON_stringify2 P) token None (getDefaultData P) = Inr (Some newId)"
    "newId \<noteq> []"
  shows "\<exists>s'. init_sync P pin False s = Continue s'
     \<and> localStorage s' = (localStorage s)(LS_GIST_ID \<mapsto> newId, LS_ENCRYPTED_CACHE \<mapsto>
           envelope_of (encrypt' P (JSON_stringify P (getDefaultData P)) pin))"
proof -
  obtain env where e: "encrypt' P (JSON_stringify P (getDefaultData P)) pin = Inr env"
    using encrypt'_returns by blast
  then have "envelope_of (encrypt' P (JSON_stringify P (getDefaultData P)) pin) = env"
    by (simp add: envelope_of_def)
  then show ?thesis
    using assms e
    by (simp add: init_sync_def init_known_gist_def init_defaults_def Let_def setters)
qed

lemma unlock_fetch_failed:
  assumes tok: "storage LS_ENCRYPTED_TOKEN = Some encToken" "encToken \<noteq> []"
    "decrypt (subtle_crypto P) encToken pin = Inr token" "token \<noteq> []"
    and cache: "storage LS_ENCRYPTED_CACHE = Some encCache" "encCache \<noteq> []"
    "decrypt (subtle_crypto P) encCache pin = Inr cacheJson"
    "JSON_parse P cacheJson = Some cacheData"
    and gid: "storage LS_GIST_ID = Some gistId" "gistId \<noteq> []"
    and fetch: "loadFromGist (network P) (JSON_parse P) token gistId = Inr None"
    and save: "saveToGist (network P) (JSON_stringify2 P) token None (getDefaultData P)
      = Inr (Some newId)" "newId \<noteq> []"
  shows "prompts' (unlock P pin storage None) = default_prompts P
    \<and> syncStatus (unlock P pin storage None) = synced
    \<and> upserts (unlock P pin storage None) = [(token, None, getDefaultData P)]
    \<and> localStorage (unlock P pin storage None)
        = storage(LS_GIST_ID \<mapsto> newId, LS_ENCRYPTED_CACHE \<mapsto>
            envelope_of (encrypt' P (JSON_stringify P (getDefaultData P)) pin))"
proof -
  let ?s0 = "mount storage None :: 'b app"
  let ?s1 = "set_tokenRef 624 (Some token) (await ?s0)"
  let ?s2 = "setDataLoaded 635 True (setPrompts 634 (prompts cacheData) (await ?s1))"
  have t: "init_token P pin ?s0 = Continue ?s1"
    using tok by (intro init_token_ok) simp_all
  have c: "init_cache P pin ?s1 = Continue ?s2"
    using cache by (intro init_cache_ok) (simp_all add: setters)
  have f: "tokenRef ?s2 = Some token" "teardown ?s2 = None"
    "localStorage ?s2 LS_GIST_ID = Some gistId" "upserts ?s2 = []" "localStorage ?s2 = storage"
    using gid by (simp_all add: setters)
  obtain s' where r: "init_sync P pin False ?s2 = Continue s'"
    and p: "prompts' s' = default_prompts P" "syncStatus s' = synced"
    "upserts s' = upserts ?s2 @ [(token, None, getDefaultData P)]"
    using init_sync_fetch_failed [OF f(1) tok(4) f(2) f(3) gid(2) fetch save(1),
        where pin = pin] by auto
  obtain s'' where r': "init_sync P pin False ?s2 = Continue s''"
    and q: "localStorage s'' = (localStorage ?s2)(LS_GIST_ID \<mapsto> newId, LS_ENCRYPTED_CACHE \<mapsto>
           envelope_of (encrypt' P (JSON_stringify P (getDefaultData P)) pin))"
    using init_sync_fetch_failed_storage [OF f(1) tok(4) f(2) f(3) gid(2) fetch save, of pin]
    by auto
  have "s'' = s'" using r r' by simp
  have "unlock P pin storage None = s'"
    by (simp only: unlock_def init_def init_body_def t c r seq_simps flow.case)
  then show ?thesis using p q f \<open>s'' = s'\<close> by simp
qed

text \<open>
  C3. At bootstrap, with a stored credential that decrypts under the PIN, a known gist
  id and a successful fetch, the fetched dataset becomes the in-memory dataset whatever
  the local cache held, the cache entry is rewritten to the envelope of the serialised
  remote dataset under the PIN, and the status ends as synced. The session is not torn
  down meanwhile.
\<close>

theorem bootstrap_remote_wins:
  assumes tok: "storage LS_ENCRYPTED_TOKEN = Some encToken" "encToken \<noteq> []"
    "decrypt (subtle_crypto P) encToken pin = Inr token" "token \<noteq> []"
    and gid: "storage LS_GIST_ID = Some gistId" "gistId \<noteq> []"
    and fetch: "loadFromGist (network P) (JSON_parse P) token gistId = Inr (Some remote)"
  shows "prompts' (unlock P pin storage None) = prompts remote
    \<and> localStorage (unlock P pin storage None)
        = storage(LS_ENCRYPTED_CACHE \<mapsto> envelope_of (encrypt' P (JSON_stringify P remote) pin))
    \<and> syncStatus (unlock P pin storage None) = synced
    \<and> dataLoaded (unlock P pin storage None)
    \<and> upserts (unlock P pin storage None) = []"
proof -
  let ?s0 = "mount storage None :: 'b app"
  let ?s1 = "set_tokenRef 624 (Some token) (await ?s0)"
  have t: "init_token P pin ?s0 = Continue ?s1"
    using tok by (intro init_token_ok) simp_all
  obtain s2 where c: "init_cache P pin ?s1 = Continue s2" and f: "tokenRef s2 = tokenRef ?s1"
    "localStorage s2 = localStorage ?s1" "teardown s2 = teardown ?s1" "upserts s2 = upserts ?s1"
    using init_cache_frame [of P pin ?s1] by blast
  have f': "tokenRef s2 = Some token" "localStorage s2 = storage" "teardown s2 = None"
    "upserts s2 = []"
    using f by (simp_all add: setters)
  obtain s' where r: "init_sync P pin False s2 = Return s'" and p: "prompts' s' = prompts remote"
    "localStorage s' = (localStorage s2)(LS_ENCRYPTED_CACHE \<mapsto>
        envelope_of (encrypt' P (JSON_stringify P remote) pin))"
    "syncStatus s' = synced" "dataLoaded s'" "upserts s' = upserts s2"
    using init_sync_remote [OF f'(1) tok(4) f'(3) _ gid(2) fetch, where dl = False and pin = pin]
      gid(1) f'(2)
    by auto
  have "unlock P pin storage None = s'"
    by (simp only: unlock_def init_def init_body_def t c r seq_simps flow.case)
  then show ?thesis using p f' by simp
qed

text \<open>
  The scenario of the specification: the remote blob holds the five records \<open>vwxyz\<close>, the
  cache (under the right PIN) the four records \<open>abcd\<close>.
\<close>

theorem bootstrap_remote_wins_witness:
  "storage0 LS_ENCRYPTED_TOKEN = Some (stored token0)
   \<and> decrypt toy_subtle (stored token0) pin0 = Inr token0
   \<and> decrypt toy_subtle (stored (js ''abcd'')) pin0 = Inr (js ''abcd'')
   \<and> prompts' (unlock (toy_platform (github_serving (js ''vwxyz''))) pin0 storage0 None)
       = js ''vwxyz''
   \<and> localStorage (unlock (toy_platform (github_serving (js ''vwxyz''))) pin0 storage0 None)
       = storage0(LS_ENCRYPTED_CACHE \<mapsto> stored (js ''vwxyz''))
   \<and> decrypt toy_subtle (stored (js ''vwxyz'')) pin0 = Inr (js ''vwxyz'')
   \<and> syncStatus (unlock (toy_platform (github_serving (js ''vwxyz''))) pin0 storage0 None)
       = synced"
proof -
  let ?P = "toy_platform (github_serving (js ''vwxyz''))"
  have d: "decrypt (subtle_crypto ?P) (stored token0) pin0 = Inr token0"
    by (simp add: stored_simps text_safe_examples)
  have l: "loadFromGist (network ?P) (JSON_parse ?P) token0 (js ''g1'')
      = Inr (Some \<lparr>prompts = js ''vwxyz'', version = 1, lastSync = 0\<rparr>)"
    by (simp add: loadFromGist_serving)
  have n: "token0 \<noteq> []" "js ''g1'' \<noteq> []" by (simp_all add: token0_def)
  show ?thesis
    using bootstrap_remote_wins [OF storage0_simps(1) stored_simps(1) d n(1) storage0_simps(3)
        n(2) l]
    by (simp add: stored_simps text_safe_examples storage0_simps toy_envelope toy_stringify_def)
qed

text \<open>
  C4 does not hold of the code. With a cache that decrypts and parses and a fetch that
  returns \<open>null\<close>, \<open>init\<close> reaches line 679, whose test \<open>!dataLoaded\<close> reads the value of
  the first render: the defaults replace the cached dataset, \<open>saveToGist\<close> is called
  without a gist id and creates a new gist, the stored gist id and the cache are
  overwritten, and the status is set to synced.
\<close>

theorem bootstrap_fetch_failure_discards_cache:
  "decrypt toy_subtle (stored (js ''abcd'')) pin0 = Inr (js ''abcd'')
   \<and> toy_parse (js ''abcd'') = Some \<lparr>prompts = js ''abcd'', version = 1, lastSync = 0\<rparr>
   \<and> loadFromGist github_lost toy_parse token0 (js ''g1'') = Inr None
   \<and> prompts' (unlock (toy_platform github_lost) pin0 storage0 None) = js ''xyz''
   \<and> syncStatus (unlock (toy_platform github_lost) pin0 storage0 None) = synced
   \<and> upserts (unlock (toy_platform github_lost) pin0 storage0 None)
       = [(token0, None, \<lparr>prompts = js ''xyz'', version = 1, lastSync = 0\<rparr>)]
   \<and> localStorage (unlock (toy_platform github_lost) pin0 storage0 None)
       = storage0(LS_GIST_ID \<mapsto> js ''g2'', LS_ENCRYPTED_CACHE \<mapsto> stored (js ''xyz''))"
proof -
  let ?P = "toy_platform github_lost"
  have d: "decrypt (subtle_crypto ?P) (stored token0) pin0 = Inr token0"
    "decrypt (subtle_crypto ?P) (stored (js ''abcd'')) pin0 = Inr (js ''abcd'')"
    by (simp_all add: stored_simps text_safe_examples)
  have p: "JSON_parse ?P (js ''abcd'') = Some \<lparr>prompts = js ''abcd'', version = 1, lastSync = 0\<rparr>"
    by (simp add: toy_parse_def)
  have l: "loadFromGist (network ?P) (JSON_parse ?P) token0 (js ''g1'') = Inr None"
    by (simp add: loadFromGist_lost)
  have s: "saveToGist (network ?P) (JSON_stringify2 ?P) token0 None (getDefaultData ?P)
      = Inr (Some (js ''g2''))"
    by (simp add: saveToGist_lost)
  have n: "token0 \<noteq> []" "js ''g1'' \<noteq> []" "js ''g2'' \<noteq> []" by (simp_all add: token0_def)
  show ?thesis
    using unlock_fetch_failed [OF storage0_simps(1) stored_simps(1) d(1) n(1) storage0_simps(2)
        stored_simps(1) d(2) p storage0_simps(3) n(2) l s n(3)] d p l
    by (simp add: getDefaultData_def toy_envelope toy_stringify_def)
qed

lemma unlock_token_failure:
  assumes "storage LS_ENCRYPTED_TOKEN = Some encToken" "encToken \<noteq> []"
    "decrypt (subtle_crypto P) encToken pin = Inl e"
  shows "syncStatus (unlock P pin storage None) = error
    \<and> syncMessage (unlock P pin storage None) = MSG_LOAD_ERROR
    \<and> tokenRef (unlock P pin storage None) = None
    \<and> prompts' (unlock P pin storage None) = default_prompts P
    \<and> dataLoaded (unlock P pin storage None)
    \<and> localStorage (unlock P pin storage None) = storage
    \<and> upserts (unlock P pin storage None) = []
    \<and> awaits (unlock P pin storage None) = 1"
proof -
  have "init_token P pin (mount storage None :: 'b app) = Throw (await (mount storage None))"
    using assms by (intro init_token_fails) simp_all
  then show ?thesis
    by (simp add: unlock_def init_def init_body_def init_catch_def setters mount_def)
qed

lemma unlock_cache_failure:
  assumes "storage LS_ENCRYPTED_TOKEN = None"
    "storage LS_ENCRYPTED_CACHE = Some encCache" "encCache \<noteq> []"
    "decrypt (subtle_crypto P) encCache pin = Inl e"
  shows "syncStatus (unlock P pin storage None) = offline
    \<and> syncMessage (unlock P pin storage None) = []
    \<and> prompts' (unlock P pin storage None) = default_prompts P
    \<and> awaits (unlock P pin storage None) = 1"
  using assms
  by (simp add: unlock_def init_def init_body_def init_token_def init_cache_def init_sync_def
      setters mount_def truthy_def)

text \<open>
  C8, at the failing input: a storage whose credential envelope does not decrypt, beside
  a cache that does. The claim has the session go on without a credential, show the
  cached or the default dataset and end offline with no error. The code takes the
  rejection of the token's \<open>decrypt\<close> (line 623, which has no \<open>try\<close> of its own) to the outer
  \<open>catch\<close> of bootstrap: the status ends as error with the load-error message, the
  defaults are shown although the cache decrypts, and nothing was awaited after the
  token's \<open>decrypt\<close>, so the cache was not read. The sibling path does what the claim says:
  a cache envelope that does not decrypt is ignored, and the session ends offline with
  no message.
\<close>

theorem token_decrypt_failure:
  "storage_bad_token LS_ENCRYPTED_TOKEN = Some (js ''!'')
   \<and> decrypt toy_subtle (js ''!'') pin0 = Inl InvalidCharacterError
   \<and> storage_bad_token LS_ENCRYPTED_CACHE = Some (stored (js ''abcd''))
   \<and> decrypt toy_subtle (stored (js ''abcd'')) pin0 = Inr (js ''abcd'')
   \<and> syncStatus (unlock (toy_platform github_down) pin0 storage_bad_token None) = error
   \<and> syncMessage (unlock (toy_platform github_down) pin0 storage_bad_token None)
       = MSG_LOAD_ERROR
   \<and> tokenRef (unlock (toy_platform github_down) pin0 storage_bad_token None) = None
   \<and> prompts' (unlock (toy_platform github_down) pin0 storage_bad_token None) = js ''xyz''
   \<and> awaits (unlock (toy_platform github_down) pin0 storage_bad_token None) = 1
   \<and> localStorage (unlock (toy_platform github_down) pin0 storage_bad_token None)
       = storage_bad_token
   \<and> upserts (unlock (toy_platform github_down) pin0 storage_bad_token None) = []
   \<and> syncStatus (unlock (toy_platform github_down) pin0 storage_bad_cache None) = offline
   \<and> syncMessage (unlock (toy_platform github_down) pin0 storage_bad_cache None) = []
   \<and> prompts' (unlock (toy_platform github_down) pin0 storage_bad_cache None) = js ''xyz''"
proof -
  have t: "storage_bad_token LS_ENCRYPTED_TOKEN = Some (js ''!'')" "js ''!'' \<noteq> []"
    "decrypt (subtle_crypto (toy_platform github_down)) (js ''!'') pin0
      = Inl InvalidCharacterError"
    by (simp_all add: storage_bad_token_simps decrypt_bad_envelope)
  have c: "storage_bad_cache LS_ENCRYPTED_TOKEN = None"
    "storage_bad_cache LS_ENCRYPTED_CACHE = Some (js ''!'')"
    by (simp_all add: storage_bad_cache_def)
  show ?thesis
    using unlock_token_failure [where storage = storage_bad_token and encToken = "js ''!''"
        and P = "toy_platform github_down" and pin = pin0 and e = InvalidCharacterError, OF t]
      unlock_cache_failure [where storage = storage_bad_cache and encCache = "js ''!''"
        and P = "toy_platform github_down" and pin = pin0 and e = InvalidCharacterError,
        OF c t(2,3)]
    by (simp add: storage_bad_token_simps decrypt_bad_envelope stored_simps
        text_safe_examples)
qed

section \<open>Properties of propagation\<close>

lemma saveToCloud_failed_fields:
  "prompts' (saveToCloud_failed line s) = prompts' s"
  "dataLoaded (saveToCloud_failed line s) = dataLoaded s"
  "localStorage (saveToCloud_failed line s) = localStorage s"
  "tokenRef (saveToCloud_failed line s) = tokenRef s"
  "saveTimeoutRef (saveToCloud_failed line s) = saveTimeoutRef s"
  "timers (saveToCloud_failed line s) = timers s"
  "syncStatus (saveToCloud_failed line s) = error"
  "syncMessage (saveToCloud_failed line s) = MSG_SAVE_ERROR"
  by (simp_all add: saveToCloud_failed_def setters)

lemma saveToCloud_upsert_failed:
  assumes "truthy (tokenRef s)"
    and "upsert_failed (saveToGist (network P) (JSON_stringify2 P) (the (tokenRef s))
           (localStorage s LS_GIST_ID) \<lparr>prompts = ps, version = 1, lastSync = clock s\<rparr>)"
  shows "\<exists>line. saveToCloud P pin ps s
     = saveToCloud_failed line (await ((setSyncStatus 721 syncing s)
         \<lparr>upserts := upserts s @ [(the (tokenRef s), localStorage s LS_GIST_ID,
            \<lparr>prompts = ps, version = 1, lastSync = clock s\<rparr>)]\<rparr>))"
proof (cases "saveToGist (network P) (JSON_stringify2 P) (the (tokenRef s))
           (localStorage s LS_GIST_ID) \<lparr>prompts = ps, version = 1, lastSync = clock s\<rparr>")
  case (Inl e)
  with assms(1) have "saveToCloud P pin ps s
     = saveToCloud_failed 741 (await ((setSyncStatus 721 syncing s)
         \<lparr>upserts := upserts s @ [(the (tokenRef s), localStorage s LS_GIST_ID,
            \<lparr>prompts = ps, version = 1, lastSync = clock s\<rparr>)]\<rparr>))"
    by (simp add: saveToCloud_def Let_def setSyncStatus_def commit_def)
  then show ?thesis by blast
next
  case (Inr resultId)
  with assms have "saveToCloud P pin ps s
     = saveToCloud_failed 737 (await ((setSyncStatus 721 syncing s)
         \<lparr>upserts := upserts s @ [(the (tokenRef s), localStorage s LS_GIST_ID,
            \<lparr>prompts = ps, version = 1, lastSync = clock s\<rparr>)]\<rparr>))"
    by (simp add: saveToCloud_def Let_def setSyncStatus_def commit_def upsert_failed_def)
  then show ?thesis by blast
qed

text \<open>
  C6. When the upsert of a propagation attempt fails (\<open>saveToGist\<close> returns \<open>null\<close>, or
  throws), the in-memory dataset is left as it was, as are the loaded flag, the
  storage, the credential and the pending timers; the status becomes error and the
  message the save-error message.
\<close>

theorem upsert_failure_keeps_edits:
  assumes "truthy (tokenRef s)"
    and "upsert_failed (saveToGist (network P) (JSON_stringify2 P) (the (tokenRef s))
           (localStorage s LS_GIST_ID) \<lparr>prompts = ps, version = 1, lastSync = clock s\<rparr>)"
  shows "prompts' (saveToCloud P pin ps s) = prompts' s
    \<and> dataLoaded (saveToCloud P pin ps s) = dataLoaded s
    \<and> localStorage (saveToCloud P pin ps s) = localStorage s
    \<and> tokenRef (saveToCloud P pin ps s) = tokenRef s
    \<and> saveTimeoutRef (saveToCloud P pin ps s) = saveTimeoutRef s
    \<and> timers (saveToCloud P pin ps s) = timers s
    \<and> syncStatus (saveToCloud P pin ps s) = error
    \<and> syncMessage (saveToCloud P pin ps s) = MSG_SAVE_ERROR"
proof -
  obtain line where "saveToCloud P pin ps s
     = saveToCloud_failed line (await ((setSyncStatus 721 syncing s)
         \<lparr>upserts := upserts s @ [(the (tokenRef s), localStorage s LS_GIST_ID,
            \<lparr>prompts = ps, version = 1, lastSync = clock s\<rparr>)]\<rparr>))"
    using saveToCloud_upsert_failed [OF assms] by blast
  then show ?thesis
    by (simp add: saveToCloud_failed_fields setSyncStatus_def commit_def await_def)
qed

theorem upsert_failure_keeps_edits_witness:
  "truthy (tokenRef (unlocked None))
   \<and> upsert_failed (saveToGist github_down toy_stringify2 token0 None
        \<lparr>prompts = js ''abc'', version = 1, lastSync = 0\<rparr>)
   \<and> prompts' (saveToCloud (toy_platform github_down) pin0 (js ''abc'') (unlocked None)) = js ''ab''
   \<and> syncStatus (saveToCloud (toy_platform github_down) pin0 (js ''abc'') (unlocked None)) = error
   \<and> syncMessage (saveToCloud (toy_platform github_down) pin0 (js ''abc'') (unlocked None))
       = MSG_SAVE_ERROR"
  using upsert_failure_keeps_edits [of "unlocked None" "toy_platform github_down" "js ''abc''"
      pin0]
  by (simp add: unlocked_def saveToGist_down token0_def mount_def upsert_failed_def)

lemma saveToCloud_frame:
  "prompts' (saveToCloud P pin ps s) = prompts' s
   \<and> tokenRef (saveToCloud P pin ps s) = tokenRef s
   \<and> timers (saveToCloud P pin ps s) = timers s
   \<and> next_timer (saveToCloud P pin ps s) = next_timer s
   \<and> saveTimeoutRef (saveToCloud P pin ps s) = saveTimeoutRef s
   \<and> clock (saveToCloud P pin ps s) = clock s"
  by (simp add: saveToCloud_def saveToCloud_failed_def Let_def setters split: sum.splits)

lemma saveToCloud_upserts:
  "upserts (saveToCloud P pin ps s) =
     (if truthy (tokenRef s)
      then upserts s @ [(the (tokenRef s), localStorage s LS_GIST_ID,
             \<lparr>prompts = ps, version = 1, lastSync = clock s\<rparr>)]
      else upserts s)"
  by (simp add: saveToCloud_def saveToCloud_failed_def Let_def setters split: sum.splits)

lemma advance_idle:
  assumes "timers s = []"
  shows "advance P pin t s = s\<lparr>timers := [], clock := max t (clock s)\<rparr>"
  using assms by (simp add: advance_def Let_def)

lemma advance_not_due:
  assumes "armed t0 s" "t < t0 + 1500"
  shows "advance P pin t s = s\<lparr>clock := max t (clock s)\<rparr>"
  using assms by (auto simp: advance_def armed_def Let_def)

lemma modifyPrompts_arms:
  assumes "timers s = [] \<and> 0 < next_timer s
     \<or> (\<exists>h due arg. timers s = [(h, due, arg)] \<and> saveTimeoutRef s = Some h \<and> h \<noteq> 0
           \<and> h < next_timer s)"
  shows "armed (clock s) (modifyPrompts fn s)
    \<and> prompts' (modifyPrompts fn s) = fn (prompts' s)
    \<and> upserts (modifyPrompts fn s) = upserts s
    \<and> tokenRef (modifyPrompts fn s) = tokenRef s
    \<and> localStorage (modifyPrompts fn s) = localStorage s"
  using assms
  by (auto simp: modifyPrompts_def debouncedSave_def setTimeout_def clearTimeout_def armed_def
      Let_def split: option.splits)

lemma mutation_step:
  assumes "armed t0 s" "t0 \<le> t" "t < t0 + 1500"
  shows "armed t (modifyPrompts fn (advance P pin t s))
    \<and> prompts' (modifyPrompts fn (advance P pin t s)) = fn (prompts' s)
    \<and> upserts (modifyPrompts fn (advance P pin t s)) = upserts s
    \<and> tokenRef (modifyPrompts fn (advance P pin t s)) = tokenRef s
    \<and> localStorage (modifyPrompts fn (advance P pin t s)) = localStorage s"
proof -
  let ?s1 = "s\<lparr>clock := max t (clock s)\<rparr>"
  have a: "advance P pin t s = ?s1" using assms(1,3) by (rule advance_not_due)
  have c: "clock ?s1 = t" using assms by (auto simp: armed_def max_def)
  have "\<exists>h due arg. timers ?s1 = [(h, due, arg)] \<and> saveTimeoutRef ?s1 = Some h \<and> h \<noteq> 0
      \<and> h < next_timer ?s1"
    using assms(1) by (auto simp: armed_def)
  then have "armed (clock ?s1) (modifyPrompts fn ?s1)
    \<and> prompts' (modifyPrompts fn ?s1) = fn (prompts' ?s1)
    \<and> upserts (modifyPrompts fn ?s1) = upserts ?s1
    \<and> tokenRef (modifyPrompts fn ?s1) = tokenRef ?s1
    \<and> localStorage (modifyPrompts fn ?s1) = localStorage ?s1"
    by (intro modifyPrompts_arms) blast
  then show ?thesis unfolding a c by simp
qed

lemma first_mutation:
  assumes "timers s = []" "0 < next_timer s" "clock s \<le> t"
  shows "armed t (modifyPrompts fn (advance P pin t s))
    \<and> prompts' (modifyPrompts fn (advance P pin t s)) = fn (prompts' s)
    \<and> upserts (modifyPrompts fn (advance P pin t s)) = upserts s
    \<and> tokenRef (modifyPrompts fn (advance P pin t s)) = tokenRef s
    \<and> localStorage (modifyPrompts fn (advance P pin t s)) = localStorage s"
proof -
  let ?s1 = "s\<lparr>timers := [], clock := max t (clock s)\<rparr>"
  have a: "advance P pin t s = ?s1" using assms(1) by (rule advance_idle)
  have c: "clock ?s1 = t" using assms by (simp add: max_def)
  have "timers ?s1 = [] \<and> 0 < next_timer ?s1" using assms by simp
  then have "armed (clock ?s1) (modifyPrompts fn ?s1)
    \<and> prompts' (modifyPrompts fn ?s1) = fn (prompts' ?s1)
    \<and> upserts (modifyPrompts fn ?s1) = upserts ?s1
    \<and> tokenRef (modifyPrompts fn ?s1) = tokenRef ?s1
    \<and> localStorage (modifyPrompts fn ?s1) = localStorage ?s1"
    by (intro modifyPrompts_arms) blast
  then show ?thesis unfolding a c by simp
qed

lemma burst_armed:
  assumes "armed t0 s" "within_delay t0 ms"
  shows "armed (last_time t0 ms) (burst P pin ms s)
    \<and> prompts' (burst P pin ms s) = apply_all ms (prompts' s)
    \<and> upserts (burst P pin ms s) = upserts s
    \<and> tokenRef (burst P pin ms s) = tokenRef s
    \<and> localStorage (burst P pin ms s) = localStorage s"
  using assms
proof (induction ms arbitrary: s t0)
  case Nil
  then show ?case by simp
next
  case (Cons m ms)
  obtain t fn where m: "m = (t, fn)" by (cases m)
  from Cons.prems m have w: "t0 \<le> t" "t < t0 + 1500" "within_delay t ms" by simp_all
  let ?s' = "modifyPrompts fn (advance P pin t s)"
  from mutation_step [OF Cons.prems(1) w(1,2), of fn P pin]
  have st: "armed t ?s'" "prompts' ?s' = fn (prompts' s)" "upserts ?s' = upserts s"
    "tokenRef ?s' = tokenRef s" "localStorage ?s' = localStorage s" by simp_all
  from Cons.IH [OF st(1) w(3)] st(2-5) show ?case by (simp add: m)
qed

lemma advance_fires:
  assumes "armed t s" "t + 1500 \<le> T"
  shows "upserts (advance P pin T s) =
     (if truthy (tokenRef s)
      then upserts s @ [(the (tokenRef s), localStorage s LS_GIST_ID,
             \<lparr>prompts = prompts' s, version = 1, lastSync = t + 1500\<rparr>)]
      else upserts s)
    \<and> prompts' (advance P pin T s) = prompts' s
    \<and> timers (advance P pin T s) = []"
proof -
  obtain h where h: "timers s = [(h, t + 1500, prompts' s)]"
    using assms(1) by (auto simp: armed_def)
  have "advance P pin T s
     = (saveToCloud P pin (prompts' s) (s\<lparr>timers := [], clock := t + 1500\<rparr>))
         \<lparr>clock := max T (clock (saveToCloud P pin (prompts' s)
              (s\<lparr>timers := [], clock := t + 1500\<rparr>)))\<rparr>"
    using assms(2) by (simp add: advance_def h Let_def)
  then show ?thesis
    using saveToCloud_frame [of P pin "prompts' s" "s\<lparr>timers := [], clock := t + 1500\<rparr>"]
    by (simp add: saveToCloud_upserts)
qed


text \<open>
  C5, as amended. A burst of N mutations (N at least 1), each issued before the 1500 ms
  delay of the previous one has elapsed, followed by the delay, leaves the dataset after
  all N mutations in memory and no callback queued. In a session that holds a credential
  it makes exactly one call of \<open>saveToGist\<close>, which carries that dataset; in a session
  without a credential it makes none.
\<close>

theorem debounce_coalesces:
  assumes "timers s = []" "0 < next_timer s" "clock s \<le> t1"
    "within_delay t1 ms" "last_time t1 ms + 1500 \<le> T"
  shows "(truthy (tokenRef s) \<longrightarrow>
       upserts (advance P pin T (burst P pin ((t1, f1) # ms) s))
        = upserts s @ [(the (tokenRef s), localStorage s LS_GIST_ID,
            \<lparr>prompts = apply_all ((t1, f1) # ms) (prompts' s), version = 1,
             lastSync = last_time t1 ms + 1500\<rparr>)])
    \<and> (\<not> truthy (tokenRef s) \<longrightarrow>
       upserts (advance P pin T (burst P pin ((t1, f1) # ms) s)) = upserts s)
    \<and> prompts' (advance P pin T (burst P pin ((t1, f1) # ms) s))
      = apply_all ((t1, f1) # ms) (prompts' s)
    \<and> timers (advance P pin T (burst P pin ((t1, f1) # ms) s)) = []"
proof -
  let ?s1 = "modifyPrompts f1 (advance P pin t1 s)"
  from first_mutation [OF assms(1,2,3), of f1 P pin]
  have s1: "armed t1 ?s1" "prompts' ?s1 = f1 (prompts' s)" "upserts ?s1 = upserts s"
    "tokenRef ?s1 = tokenRef s" "localStorage ?s1 = localStorage s" by simp_all
  let ?s2 = "burst P pin ms ?s1"
  from burst_armed [OF s1(1) assms(4), of P pin] s1(2-5)
  have s2: "armed (last_time t1 ms) ?s2" "prompts' ?s2 = apply_all ms (f1 (prompts' s))"
    "upserts ?s2 = upserts s" "tokenRef ?s2 = tokenRef s" "localStorage ?s2 = localStorage s"
    by simp_all
  from advance_fires [OF s2(1) assms(5), of P pin] s2(2-5)
  show ?thesis by simp
qed

theorem debounce_coalesces_witness:
  "timers (unlocked None) = [] \<and> truthy (tokenRef (unlocked None))
   \<and> within_delay 0 [(1000, \<lambda>ps. ps @ [100]), (2400, \<lambda>ps. ps @ [101 :: 16 word])]
   \<and> upserts (advance (toy_platform github_down) pin0 3900
        (burst (toy_platform github_down) pin0
           [(0, \<lambda>ps. ps @ [99]), (1000, \<lambda>ps. ps @ [100]), (2400, \<lambda>ps. ps @ [101])]
           (unlocked None)))
       = [(token0, None, \<lparr>prompts = js ''abcde'', version = 1, lastSync = 3900\<rparr>)]
   \<and> prompts' (advance (toy_platform github_down) pin0 3900
        (burst (toy_platform github_down) pin0
           [(0, \<lambda>ps. ps @ [99]), (1000, \<lambda>ps. ps @ [100]), (2400, \<lambda>ps. ps @ [101])]
           (unlocked None)))
       = js ''abcde''
   \<and> \<not> truthy (tokenRef (mount Map.empty None :: 16 word app))
   \<and> upserts (advance (toy_platform github_down) pin0 2000
        (burst (toy_platform github_down) pin0 [(0, \<lambda>ps. ps @ [99]), (400, \<lambda>ps. ps @ [100])]
           (mount Map.empty None)))
       = []"
proof -
  have a: "upserts (advance (toy_platform github_down) pin0 3900
        (burst (toy_platform github_down) pin0
           [(0, \<lambda>ps. ps @ [99]), (1000, \<lambda>ps. ps @ [100]), (2400, \<lambda>ps. ps @ [101])]
           (unlocked None)))
       = [(token0, None, \<lparr>prompts = js ''abcde'', version = 1, lastSync = 3900\<rparr>)]
   \<and> prompts' (advance (toy_platform github_down) pin0 3900
        (burst (toy_platform github_down) pin0
           [(0, \<lambda>ps. ps @ [99]), (1000, \<lambda>ps. ps @ [100]), (2400, \<lambda>ps. ps @ [101])]
           (unlocked None)))
       = js ''abcde''"
    using debounce_coalesces [of "unlocked None" 0
        "[(1000, \<lambda>ps. ps @ [100]), (2400, \<lambda>ps. ps @ [101])]" 3900 "toy_platform github_down"
        pin0 "\<lambda>ps. ps @ [99]"]
    by (simp add: unlocked_def mount_def js_def token0_def)
  have b: "upserts (advance (toy_platform github_down) pin0 2000
        (burst (toy_platform github_down) pin0 [(0, \<lambda>ps. ps @ [99]), (400, \<lambda>ps. ps @ [100])]
           (mount Map.empty None :: 16 word app)))
       = []"
    using debounce_coalesces [of "mount Map.empty None :: 16 word app" 0
        "[(400, \<lambda>ps. ps @ [100])]" 2000 "toy_platform github_down" pin0 "\<lambda>ps. ps @ [99]"]
    by (simp add: mount_def)
  from a b show ?thesis by (simp add: unlocked_def mount_def token0_def)
qed

text \<open>
  C5 as stated fails in a session without a credential: the callback fires and
  \<open>saveToCloud\<close> returns at its first line, so the burst makes no call of \<open>saveToGist\<close>.
\<close>

theorem debounce_offline_counterexample:
  "tokenRef (mount Map.empty None :: 16 word app) = None
   \<and> upserts (advance (toy_platform github_down) pin0 1500
        (burst (toy_platform github_down) pin0 [(0, \<lambda>ps. ps @ [99])] (mount Map.empty None)))
       = []"
proof -
  let ?P = "toy_platform github_down"
  let ?s = "mount Map.empty None :: 16 word app"
  let ?s1 = "modifyPrompts (\<lambda>ps. ps @ [99]) (advance ?P pin0 0 ?s)"
  have "armed 0 ?s1 \<and> upserts ?s1 = upserts ?s \<and> tokenRef ?s1 = tokenRef ?s"
    using first_mutation [of ?s 0 "\<lambda>ps. ps @ [99]" ?P pin0] by (simp add: mount_def)
  then show ?thesis
    using advance_fires [of 0 ?s1 1500 ?P pin0] by simp
qed

section \<open>Properties of the liveness flag\<close>

lemma no_guarded_seq:
  assumes "no_guarded_stale (state_of r)"
    and "\<And>s. no_guarded_stale s \<Longrightarrow> no_guarded_stale (state_of (f s))"
  shows "no_guarded_stale (state_of (seq r f))"
  using assms by (cases r) simp_all

lemma no_guarded_if:
  assumes "c \<Longrightarrow> no_guarded_stale (state_of a)" "\<not> c \<Longrightarrow> no_guarded_stale (state_of b)"
  shows "no_guarded_stale (state_of (if c then a else b))"
  using assms by simp

lemma init_token_stale:
  "no_guarded_stale s \<Longrightarrow> no_guarded_stale (state_of (init_token P pin s))"
  by (auto simp: init_token_def no_guarded_stale_def guarded_lines_def Let_def setters
      split: sum.splits option.splits)

lemma init_cache_stale:
  "no_guarded_stale s \<Longrightarrow> no_guarded_stale (state_of (init_cache P pin s))"
  by (auto simp: init_cache_def no_guarded_stale_def guarded_lines_def Let_def setters
      split: sum.splits option.splits)

lemma init_known_gist_stale:
  "no_guarded_stale s \<Longrightarrow> no_guarded_stale (state_of (init_known_gist P pin gistId s))"
  by (auto simp: init_known_gist_def no_guarded_stale_def guarded_lines_def Let_def setters
      split: sum.splits option.splits)

lemma init_find_gist_stale:
  "no_guarded_stale s \<Longrightarrow> no_guarded_stale (state_of (init_find_gist P pin s))"
  by (auto simp: init_find_gist_def no_guarded_stale_def guarded_lines_def Let_def setters
      split: sum.splits option.splits)

lemma init_defaults_stale:
  "no_guarded_stale s \<Longrightarrow> \<not> torn_down s
     \<Longrightarrow> no_guarded_stale (state_of (init_defaults P pin s))"
  by (auto simp: init_defaults_def no_guarded_stale_def guarded_lines_def Let_def setters
      split: sum.splits option.splits)

lemma syncing_stale:
  "no_guarded_stale s
     \<Longrightarrow> no_guarded_stale (if \<not> torn_down s then setSyncStatus 644 syncing s else s)"
  by (auto simp: no_guarded_stale_def guarded_lines_def setters split: option.splits)

lemma init_sync_stale:
  assumes "no_guarded_stale s"
  shows "no_guarded_stale (state_of (init_sync P pin dl s))"
proof (cases "truthy (tokenRef s)")
  case True
  define s3 where "s3 = (if \<not> torn_down s then setSyncStatus 644 syncing s else s)"
  have s3: "no_guarded_stale s3" unfolding s3_def using assms by (rule syncing_stale)
  have "init_sync P pin dl s =
      seq (if truthy (localStorage s3 LS_GIST_ID)
           then init_known_gist P pin (the (localStorage s3 LS_GIST_ID)) s3 else Continue s3)
        (\<lambda>s4. seq (if \<not> truthy (localStorage s3 LS_GIST_ID)
                    then init_find_gist P pin s4 else Continue s4)
          (\<lambda>s5. if \<not> torn_down s5 \<and> \<not> dl then init_defaults P pin s5 else Continue s5))"
    using True by (simp add: init_sync_def Let_def s3_def)
  also have "no_guarded_stale (state_of \<dots>)"
    by (intro no_guarded_seq no_guarded_if init_known_gist_stale init_find_gist_stale
        init_defaults_stale) (simp_all add: s3)
  finally show ?thesis .
next
  case False
  then show ?thesis
    using assms
    by (auto simp: init_sync_def no_guarded_stale_def guarded_lines_def Let_def setters
        split: option.splits)
qed

lemma init_body_stale:
  "no_guarded_stale s \<Longrightarrow> no_guarded_stale (state_of (init_body P pin dl s))"
  unfolding init_body_def
  by (intro no_guarded_seq init_token_stale init_cache_stale init_sync_stale)

lemma init_catch_stale:
  "no_guarded_stale s \<Longrightarrow> no_guarded_stale (init_catch P dl s)"
  by (auto simp: init_catch_def no_guarded_stale_def guarded_lines_def Let_def setters
      split: option.splits)

lemma init_stale: "no_guarded_stale s \<Longrightarrow> no_guarded_stale (init P pin dl s)"
  using init_body_stale [of s P pin dl] init_catch_stale [of _ P dl]
  by (cases "init_body P pin dl s") (simp_all add: init_def)


lemma dead_torn_down: "dead s \<Longrightarrow> torn_down s"
  by (simp add: dead_def)

lemma dead_seq:
  assumes "dead (state_of r)" "\<And>s. dead s \<Longrightarrow> dead (state_of (f s))"
  shows "dead (state_of (seq r f))"
  using assms by (cases r) simp_all

lemma dead_if:
  assumes "c \<Longrightarrow> dead (state_of a)" "\<not> c \<Longrightarrow> dead (state_of b)"
  shows "dead (state_of (if c then a else b))"
  using assms by simp

lemma init_cache_dead: "dead s \<Longrightarrow> dead (state_of (init_cache P pin s))"
  by (auto simp: init_cache_def dead_def Let_def setters split: sum.splits option.splits)

lemma init_known_gist_dead: "dead s \<Longrightarrow> dead (state_of (init_known_gist P pin g s))"
  by (auto simp: init_known_gist_def dead_def Let_def setters split: sum.splits option.splits)

lemma init_find_gist_dead: "dead s \<Longrightarrow> dead (state_of (init_find_gist P pin s))"
  by (auto simp: init_find_gist_def dead_def Let_def setters split: sum.splits option.splits)

lemma init_sync_dead:
  assumes d: "dead s"
  shows "dead (state_of (init_sync P pin dl s))"
proof (cases "truthy (tokenRef s)")
  case True
  have t: "torn_down s" using d by (rule dead_torn_down)
  have "init_sync P pin dl s =
    seq (if truthy (localStorage s LS_GIST_ID)
         then init_known_gist P pin (the (localStorage s LS_GIST_ID)) s else Continue s)
      (\<lambda>s4. seq (if \<not> truthy (localStorage s LS_GIST_ID)
                  then init_find_gist P pin s4 else Continue s4)
        (\<lambda>s5. if \<not> torn_down s5 \<and> \<not> dl then init_defaults P pin s5 else Continue s5))"
    using True t by (simp add: init_sync_def Let_def)
  also have "dead (state_of \<dots>)"
    by (intro dead_seq dead_if init_known_gist_dead init_find_gist_dead)
      (simp_all add: d dead_torn_down)
  finally show ?thesis .
next
  case False
  then show ?thesis using d
    by (auto simp: init_sync_def dead_def Let_def setters split: option.splits)
qed

lemma init_catch_dead: "dead s \<Longrightarrow> dead (init_catch P dl s)"
  by (simp add: init_catch_def dead_def)

lemma init_rest_dead:
  assumes "dead s1"
  shows "dead (case seq (init_cache P pin s1) (\<lambda>s2. init_sync P pin dl s2) of
           Throw s' \<Rightarrow> init_catch P dl s' | Return s' \<Rightarrow> s' | Continue s' \<Rightarrow> s')"
proof -
  have "dead (state_of (seq (init_cache P pin s1) (\<lambda>s2. init_sync P pin dl s2)))"
    by (intro dead_seq init_cache_dead init_sync_dead assms)
  then show ?thesis
    by (cases "seq (init_cache P pin s1) (\<lambda>s2. init_sync P pin dl s2)")
      (simp_all add: init_catch_dead)
qed

lemma init_token_fresh:
  "fresh s \<Longrightarrow> init_token P pin s = Continue s \<or> dead (state_of (init_token P pin s))"
  by (auto simp: init_token_def fresh_def dead_def Let_def setters split: sum.splits)

lemma init_cache_fresh:
  "fresh s \<Longrightarrow> (\<exists>s'. init_cache P pin s = Continue s' \<and> (fresh s' \<or> dead s'))"
  by (auto simp: init_cache_def fresh_def dead_def Let_def setters
      split: sum.splits option.splits)

lemma init_sync_fresh:
  "fresh s \<Longrightarrow> stale_writes (state_of (init_sync P pin dl s)) = []"
  by (auto simp: init_sync_def fresh_def Let_def setters)

lemma init_from_dead:
  assumes "dead s1"
  shows "dead (case init_sync P pin dl s1 of
           Throw s' \<Rightarrow> init_catch P dl s' | Return s' \<Rightarrow> s' | Continue s' \<Rightarrow> s')"
  using init_sync_dead [OF assms, where P = P and pin = pin and dl = dl]
  by (cases "init_sync P pin dl s1") (simp_all add: init_catch_dead)

lemma init_from_fresh:
  assumes "fresh s1"
  shows "stale_writes (case init_sync P pin dl s1 of
           Throw s' \<Rightarrow> init_catch P dl s' | Return s' \<Rightarrow> s' | Continue s' \<Rightarrow> s') = []"
proof -
  have n: "\<not> truthy (tokenRef s1)" using assms by (simp add: fresh_def truthy_def)
  then obtain s' where "init_sync P pin dl s1 = Continue s'"
    by (simp add: init_sync_def Let_def)
  then show ?thesis
    using init_sync_fresh [OF assms, where P = P and pin = pin and dl = dl] by simp
qed

lemma teardown_during_first_await:
  "\<forall>w \<in> set (stale_writes (unlock P pin storage (Some 1))).
     w = (624, TokenRef) \<or> w = (699, Status)"
proof -
  let ?s0 = "mount storage (Some 1)"
  let ?rest = "\<lambda>s1. case seq (init_cache P pin s1) (\<lambda>s2. init_sync P pin False s2) of
           Throw s' \<Rightarrow> init_catch P False s' | Return s' \<Rightarrow> s' | Continue s' \<Rightarrow> s'"
  have f0: "fresh ?s0" by (simp add: fresh_def mount_def)
  have rest_fresh: "\<forall>w \<in> set (stale_writes (?rest s1)).
     w = (624, TokenRef) \<or> w = (699, Status)" if fr: "fresh s1" for s1
  proof -
    obtain s2 where c: "init_cache P pin s1 = Continue s2" and s2: "fresh s2 \<or> dead s2"
      using init_cache_fresh [OF fr, where P = P and pin = pin] by blast
    from s2 show ?thesis
    proof
      assume "fresh s2"
      then show ?thesis
        using init_from_fresh [where ?s1.0 = s2 and P = P and pin = pin and dl = False]
        by (simp add: c)
    next
      assume "dead s2"
      then show ?thesis
        using init_from_dead [where ?s1.0 = s2 and P = P and pin = pin and dl = False]
        by (simp add: c dead_def)
    qed
  qed
  from init_token_fresh [OF f0, where P = P and pin = pin]
  show ?thesis
  proof
    assume "init_token P pin ?s0 = Continue ?s0"
    then show ?thesis
      using rest_fresh [OF f0] by (simp add: unlock_def init_def init_body_def)
  next
    assume d: "dead (state_of (init_token P pin ?s0))"
    then have "dead (unlock P pin storage (Some 1))"
      unfolding unlock_def init_def init_body_def
      by (cases "init_token P pin ?s0") (simp_all add: init_catch_dead init_rest_dead)
    then show ?thesis by (simp add: dead_def)
  qed
qed

text \<open>
  C9, as amended. Whenever the session is torn down while bootstrap is in flight, the
  writes that bootstrap makes directly behind a test of its liveness flag (the cached
  dataset, the syncing status, the fetched dataset of a known gist, the discovered gist
  id, the defaults, the error status) are not performed after the teardown. When the
  teardown falls in the first \<open>await\<close> of bootstrap, the only writes after it are those of
  \<open>tokenRef\<close> (line 624) and of the offline status (line 699): neither the dataset nor
  the storage is written.
\<close>

theorem bootstrap_guarded_writes:
  "(\<forall>w \<in> set (stale_writes (unlock P pin storage td)). fst w \<notin> guarded_lines)
   \<and> (td = Some 1 \<longrightarrow>
        (\<forall>w \<in> set (stale_writes (unlock P pin storage td)).
           w = (624, TokenRef) \<or> w = (699, Status)))"
proof (intro conjI impI)
  have "no_guarded_stale (unlock P pin storage td)"
    unfolding unlock_def by (rule init_stale) (simp add: no_guarded_stale_def mount_def)
  then show "\<forall>w \<in> set (stale_writes (unlock P pin storage td)). fst w \<notin> guarded_lines"
    by (simp add: no_guarded_stale_def)
next
  assume t: "td = Some 1"
  show "\<forall>w \<in> set (stale_writes (unlock P pin storage td)).
      w = (624, TokenRef) \<or> w = (699, Status)"
    unfolding t by (rule teardown_during_first_await)
qed


lemmas init_defs = unlock_def init_def init_body_def init_token_def init_cache_def
  init_sync_def init_known_gist_def init_find_gist_def init_defaults_def init_catch_def

lemmas toy_facts = storage0_simps stored_simps text_safe_examples loadFromGist_serving
  toy_parse_def toy_stringify_def toy_envelope envelope_of_encrypt'

theorem bootstrap_guarded_writes_witness:
  "(624, TokenRef) \<in> set (stale_writes
       (unlock (toy_platform (github_serving (js ''vwxyz''))) pin0 storage0 (Some 1)))
   \<and> 624 \<notin> guarded_lines
   \<and> prompts' (unlock (toy_platform (github_serving (js ''vwxyz''))) pin0 storage0 (Some 1)) = []"
proof -
  let ?P = "toy_platform (github_serving (js ''vwxyz''))"
  have n: "token0 \<noteq> []" by (simp add: token0_def)
  have "stale_writes (unlock ?P pin0 storage0 (Some 1)) = [(624, TokenRef)]
      \<and> prompts' (unlock ?P pin0 storage0 (Some 1)) = []"
    using n by (simp add: init_defs Let_def setters toy_facts mount_def)
  then show ?thesis
    using bootstrap_guarded_writes [of ?P pin0 storage0 "Some 1"] by simp
qed

text \<open>
  C9 as stated fails. \<open>saveToCloud\<close> tests no liveness flag: when the session is torn
  down while its \<open>saveToGist\<close> call is in flight, the gist id and the cache are still
  written to storage. In \<open>init\<close>, the writes after the \<open>await\<close> of \<open>encrypt\<close> (lines
  653-656) land although the session was torn down during that \<open>await\<close>: the stored
  cache is replaced.
\<close>

theorem writes_after_teardown_counterexample:
  "stale_writes (saveToCloud (toy_platform github_lost) pin0 (js ''ab'') (unlocked (Some 1)))
     = [(731, Storage LS_GIST_ID), (733, Storage LS_ENCRYPTED_CACHE), (734, Status),
        (735, Message)]
   \<and> localStorage (saveToCloud (toy_platform github_lost) pin0 (js ''ab'') (unlocked (Some 1)))
       LS_GIST_ID = Some (js ''g2'')
   \<and> stale_writes (unlock (toy_platform (github_serving (js ''vwxyz''))) pin0 storage0 (Some 4))
     = [(653, Storage LS_ENCRYPTED_CACHE), (654, Status), (655, Message), (656, DataLoaded)]
   \<and> localStorage (unlock (toy_platform (github_serving (js ''vwxyz''))) pin0 storage0 (Some 4))
       LS_ENCRYPTED_CACHE = Some (stored (js ''vwxyz''))
   \<and> storage0 LS_ENCRYPTED_CACHE = Some (stored (js ''abcd''))"
proof -
  have n: "token0 \<noteq> []" by (simp add: token0_def)
  obtain env where e: "encrypt' (toy_platform github_lost) (js ''ab'') pin0 = Inr env"
    using encrypt'_returns by blast
  have 1: "stale_writes (saveToCloud (toy_platform github_lost) pin0 (js ''ab'')
        (unlocked (Some 1)))
     = [(731, Storage LS_GIST_ID), (733, Storage LS_ENCRYPTED_CACHE), (734, Status),
        (735, Message)]
   \<and> localStorage (saveToCloud (toy_platform github_lost) pin0 (js ''ab'') (unlocked (Some 1)))
       LS_GIST_ID = Some (js ''g2'')"
    using n e
    by (simp add: saveToCloud_def unlocked_def mount_def saveToGist_lost Let_def setters
        toy_stringify_def)
  obtain env' where e': "encrypt' (toy_platform (github_serving (js ''vwxyz''))) (js ''vwxyz'')
      pin0 = Inr env'"
    using encrypt'_returns by blast
  have v: "env' = stored (js ''vwxyz'')"
    using toy_envelope [of "github_serving (js ''vwxyz'')" "js ''vwxyz''"] e'
    by (simp add: envelope_of_def)
  have 2: "stale_writes (unlock (toy_platform (github_serving (js ''vwxyz''))) pin0 storage0
        (Some 4))
     = [(653, Storage LS_ENCRYPTED_CACHE), (654, Status), (655, Message), (656, DataLoaded)]
   \<and> localStorage (unlock (toy_platform (github_serving (js ''vwxyz''))) pin0 storage0 (Some 4))
       LS_ENCRYPTED_CACHE = Some env'"
    using n e'
    by (simp add: init_defs Let_def setters storage0_simps stored_simps text_safe_examples
        loadFromGist_serving toy_parse_def toy_stringify_def mount_def)
  from 1 2 v show ?thesis by (simp add: storage0_simps)
qed

section \<open>Properties of import\<close>

lemma map_ids_plain:
  "JNull \<notin> set ps \<Longrightarrow> map_ids ps = Inr (map id_plain ps)"
  by (induction ps) (auto simp: id_of_def)

lemma filter_new_plain:
  "JNull \<notin> set ps \<Longrightarrow>
     filter_new ids ps = Inr (filter (\<lambda>p. \<not> has ids (id_plain p)) ps)"
  by (induction ps) (auto simp: id_of_def)

lemma has_known: "has (map id_plain prev) (id_plain p) = known prev p"
  by (simp add: has_def known_def list_ex_iff)

lemma import_updater_plain:
  assumes "JNull \<notin> set data" "JNull \<notin> set prev"
  shows "import_updater data prev = Inr (prev @ filter (\<lambda>p. \<not> known prev p) data)"
  using assms by (simp add: import_updater_def map_ids_plain filter_new_plain has_known)

lemma modifyPrompts_fields:
  "prompts' (modifyPrompts fn s) = fn (prompts' s)"
  "localStorage (modifyPrompts fn s) = localStorage s"
  "upserts (modifyPrompts fn s) = upserts s"
  by (simp_all add: modifyPrompts_def debouncedSave_def setTimeout_def clearTimeout_def Let_def
      split: option.splits prod.splits)

lemma importData_rejected:
  "parse doc = None \<Longrightarrow> importData parse render (Some doc) s = Inr s"
  "parse doc = Some data \<Longrightarrow> \<not> is_array data
     \<Longrightarrow> importData parse render (Some doc) s = Inr s"
  by (auto simp: importData_def is_array_def split: json.splits)

lemma importData_accepted:
  assumes "parse doc = Some (JArray data)" "JNull \<notin> set data" "JNull \<notin> set (prompts' s)"
    "render (prompts' s @ filter (\<lambda>p. \<not> known (prompts' s) p) data) = None"
  shows "\<exists>s'. importData parse render (Some doc) s = Inr s'
    \<and> prompts' s' = prompts' s @ filter (\<lambda>p. \<not> known (prompts' s) p) data
    \<and> showImportExport s' = False"
  using assms by (simp add: importData_def import_updater_plain modifyPrompts_fields)

lemma importData_render_throws:
  assumes "parse doc = Some (JArray data)" "JNull \<notin> set data" "JNull \<notin> set (prompts' s)"
    "render (prompts' s @ filter (\<lambda>p. \<not> known (prompts' s) p) data) = Some e"
  shows "importData parse render (Some doc) s = Inl e"
  using assms by (simp add: importData_def import_updater_plain)

lemma entry_facts:
  "entry i t \<noteq> JNull" "plain_record (entry i t)" "\<not> is_Prompt (entry i t)"
  "id_plain (entry i t) = Some (JString i)" "\<not> plain_record (bare_entry i)"
  "bare_entry i \<noteq> JNull" "JNull \<noteq> entry i t" "JNull \<noteq> bare_entry i"
  by (simp_all add: entry_def bare_entry_def plain_record_def is_Prompt_def member_is_def
      is_string_array_def is_string_def is_primitive_def id_plain_def js_def)

text \<open>
  C10, as amended. An imported file is accepted exactly when it parses as a JSON array;
  its entries are not checked against the record shape. Of an accepted array the entries
  whose id is not yet present are appended, in order, the others are dropped, and the
  dialog is closed, when neither the array nor the dataset holds \<open>null\<close> and the render
  completes over the merged dataset. A file that does not parse, or parses to anything
  but an array, is discarded whole: the state is unchanged and no error is raised.
\<close>

theorem import_accepts_any_array:
  "(parse doc = None \<longrightarrow> importData parse render (Some doc) s = Inr s)
   \<and> (parse doc = Some data \<and> \<not> is_array data
        \<longrightarrow> importData parse render (Some doc) s = Inr s)
   \<and> (parse doc = Some (JArray entries) \<and> JNull \<notin> set entries \<and> JNull \<notin> set (prompts' s)
        \<and> render (prompts' s @ filter (\<lambda>p. \<not> known (prompts' s) p) entries) = None
        \<longrightarrow> (\<exists>s'. importData parse render (Some doc) s = Inr s'
              \<and> prompts' s' = prompts' s @ filter (\<lambda>p. \<not> known (prompts' s) p) entries
              \<and> showImportExport s' = False))"
proof (intro conjI impI)
  show "importData parse render (Some doc) s = Inr s" if "parse doc = None"
    using that by (rule importData_rejected(1))
  show "importData parse render (Some doc) s = Inr s"
    if "parse doc = Some data \<and> \<not> is_array data"
    using that by (simp add: importData_rejected(2))
  show "\<exists>s'. importData parse render (Some doc) s = Inr s'
      \<and> prompts' s' = prompts' s @ filter (\<lambda>p. \<not> known (prompts' s) p) entries
      \<and> showImportExport s' = False"
    if "parse doc = Some (JArray entries) \<and> JNull \<notin> set entries \<and> JNull \<notin> set (prompts' s)
        \<and> render (prompts' s @ filter (\<lambda>p. \<not> known (prompts' s) p) entries) = None"
    using that by (intro importData_accepted) simp_all
qed

theorem import_accepts_any_array_witness:
  "importData (\<lambda>_. None) render_plain (Some (js ''{'')) (mount Map.empty None)
     = Inr (mount Map.empty None)
   \<and> \<not> is_array (JObject [])
   \<and> importData (\<lambda>_. Some (JObject [])) render_plain (Some (js ''{}'')) (mount Map.empty None)
       = Inr (mount Map.empty None)
   \<and> render_plain [entry (js ''a'') (js ''old''), entry (js ''b'') (js ''new'')] = None
   \<and> (\<exists>s'. importData
              (\<lambda>_. Some (JArray [entry (js ''a'') (js ''other''), entry (js ''b'') (js ''new'')]))
              render_plain (Some [])
              ((mount Map.empty None)\<lparr>prompts' := [entry (js ''a'') (js ''old'')]\<rparr>) = Inr s'
         \<and> prompts' s' = [entry (js ''a'') (js ''old''), entry (js ''b'') (js ''new'')]
         \<and> showImportExport s' = False)"
proof -
  let ?s = "mount Map.empty None :: json app"
  from import_accepts_any_array [of "\<lambda>_. None" "js ''{''" render_plain ?s]
  have 1: "importData (\<lambda>_. None) render_plain (Some (js ''{'')) ?s = Inr ?s" by simp
  have a: "\<not> is_array (JObject [])" by (simp add: is_array_def)
  from import_accepts_any_array [of "\<lambda>_. Some (JObject [])" "js ''{}''" render_plain ?s
      "JObject []"] a
  have 2: "importData (\<lambda>_. Some (JObject [])) render_plain (Some (js ''{}'')) ?s = Inr ?s"
    by simp
  let ?data = "[entry (js ''a'') (js ''other''), entry (js ''b'') (js ''new'')]"
  let ?s3 = "?s\<lparr>prompts' := [entry (js ''a'') (js ''old'')]\<rparr>"
  have n: "JNull \<notin> set ?data" "JNull \<notin> set (prompts' ?s3)"
    by (simp_all add: entry_facts)
  have k: "known [entry (js ''a'') (js ''old'')] (entry (js ''a'') (js ''other''))"
    "\<not> known [entry (js ''a'') (js ''old'')] (entry (js ''b'') (js ''new''))"
    by (simp_all add: known_def entry_facts(4) same_value_zero_def js_def)
  have r: "render_plain [entry (js ''a'') (js ''old''), entry (js ''b'') (js ''new'')] = None"
    by (simp add: render_plain_def entry_facts(2))
  from import_accepts_any_array [of "\<lambda>_. Some (JArray ?data)" "[]" render_plain ?s3 "JNull"
      ?data] n r
  have 3: "\<exists>s'. importData (\<lambda>_. Some (JArray ?data)) render_plain (Some []) ?s3 = Inr s'
      \<and> prompts' s' = [entry (js ''a'') (js ''old''), entry (js ''b'') (js ''new'')]
      \<and> showImportExport s' = False"
    by (simp add: k)
  from 1 a 2 r 3 show ?thesis by blast
qed

text \<open>
  C10 as stated fails: an array whose entry is not a full prompt record (it has no
  category, no favourite flag, no dates and no usage count) is accepted, and the entry
  becomes part of the dataset.
\<close>

theorem import_unchecked_entries_counterexample:
  "\<not> matches_document_shape (JArray [entry (js ''x'') (js ''t'')])
   \<and> map_sum id prompts'
       (importData (\<lambda>doc. Some (JArray [entry (js ''x'') (js ''t'')])) render_plain (Some [])
          (mount Map.empty None))
     = Inr [entry (js ''x'') (js ''t'')]"
proof -
  let ?s = "mount Map.empty None :: json app"
  let ?data = "[entry (js ''x'') (js ''t'')]"
  have p: "prompts' ?s = []" by simp
  have r: "render_plain (prompts' ?s @ filter (\<lambda>p. \<not> known (prompts' ?s) p) ?data) = None"
    by (simp add: p known_def render_plain_def entry_facts(2))
  obtain s' where "importData (\<lambda>doc. Some (JArray ?data)) render_plain (Some []) ?s = Inr s'"
    and "prompts' s' = prompts' ?s @ filter (\<lambda>p. \<not> known (prompts' ?s) p) ?data"
    using importData_accepted [of "\<lambda>doc. Some (JArray ?data)" "[]" ?data ?s render_plain]
      entry_facts(7) [of "js ''x''" "js ''t''"] r
    by (auto simp: p)
  then show ?thesis
    by (simp add: matches_document_shape_def entry_facts(3) known_def)
qed

text \<open>
  An entry that the render cannot show: with nothing but an id it is accepted like any
  other, and the render that follows throws on it.
\<close>

lemma import_unrendered_entry:
  "importData (\<lambda>doc. Some (JArray [bare_entry (js ''x'')])) render_plain (Some [])
     (mount Map.empty None) = Inl TypeError"
proof -
  let ?s = "mount Map.empty None :: json app"
  have p: "prompts' ?s = []" by simp
  show ?thesis
    using importData_render_throws [of "\<lambda>doc. Some (JArray [bare_entry (js ''x'')])" "[]"
        "[bare_entry (js ''x'')]" ?s render_plain TypeError]
    by (simp add: p known_def render_plain_def entry_facts)
qed

end
